(* ===== verification/Prelude.thy ===== *)
theory Prelude
  imports Main "HOL-Library.AList" "HOL-Library.Char_ord" "HOL-Library.List_Lexorder"
    "HOL-Library.Product_Lexorder" "HOL-Library.Word" "HOL-Library.Multiset"
begin

text \<open>
  What every component of the development uses of Python: insertion-ordered
  dictionaries, the string methods the sources call (on ASCII text), decimal
  printing and \<open>int()\<close>, \<open>max\<close> with a key, and results that carry an exception.
  The second half is the shared lemma library, and the locales that several
  components instantiate: a fresh-name supply, a pool allocator and a
  step-preserved invariant.
\<close>

section \<open>Named collections\<close>

named_theorems dict_simps \<open>lookup after an update of an insertion-ordered dictionary\<close>
named_theorems str_simps \<open>lengths and characters of the string helpers\<close>
named_theorems result_simps \<open>results that carry an exception\<close>

section \<open>Results that carry an exception\<close>

text \<open>An operation that may raise returns \<open>Inl exc\<close> or \<open>Inr value\<close>.\<close>

definition bindE :: "'e + 'a \<Rightarrow> ('a \<Rightarrow> 'e + 'b) \<Rightarrow> 'e + 'b" where
  "bindE r f = (case r of Inl e \<Rightarrow> Inl e | Inr a \<Rightarrow> f a)"

fun foldE :: "('a \<Rightarrow> 's \<Rightarrow> 'e + 's) \<Rightarrow> 'a list \<Rightarrow> 's \<Rightarrow> 'e + 's" where
  "foldE f [] s = Inr s"
| "foldE f (x # xs) s = (case f x s of Inl e \<Rightarrow> Inl e | Inr s' \<Rightarrow> foldE f xs s')"

lemma bindE_simps [simp, result_simps]:
  "bindE (Inl e) f = Inl e" "bindE (Inr a) f = f a"
  by (simp_all add: bindE_def)

lemma bindE_eq_Inr [result_simps]: "bindE r f = Inr b \<longleftrightarrow> (\<exists>a. r = Inr a \<and> f a = Inr b)"
  by (cases r) simp_all

lemma bindE_eq_Inl [result_simps]:
  "bindE r f = Inl e \<longleftrightarrow> r = Inl e \<or> (\<exists>a. r = Inr a \<and> f a = Inl e)"
  by (cases r) simp_all

lemma bindE_InrE:
  assumes "bindE r f = Inr b"
  obtains a where "r = Inr a" "f a = Inr b"
  using assms by (cases r) simp_all

lemma foldE_append: "foldE f (xs @ ys) s = bindE (foldE f xs s) (foldE f ys)"
  by (induction xs arbitrary: s) (auto split: sum.splits)

lemma foldE_ok: "(\<And>x s. x \<in> set xs \<Longrightarrow> f x s = Inr (g x s)) \<Longrightarrow> foldE f xs s = Inr (fold g xs s)"
  by (induction xs arbitrary: s) auto

lemma foldE_error:
  "foldE f xs s = Inl e \<Longrightarrow> \<exists>ys x zs t. xs = ys @ x # zs \<and> foldE f ys s = Inr t \<and> f x t = Inl e"
proof (induction xs arbitrary: s)
  case (Cons x xs)
  show ?case
  proof (cases "f x s")
    case (Inl e')
    then have "x # xs = [] @ x # xs \<and> foldE f [] s = Inr s \<and> f x s = Inl e" using Cons.prems by simp
    then show ?thesis by blast
  next
    case (Inr t)
    then obtain ys y zs u where "xs = ys @ y # zs" "foldE f ys t = Inr u" "f y u = Inl e"
      using Cons by fastforce
    then have "x # xs = (x # ys) @ y # zs \<and> foldE f (x # ys) s = Inr u \<and> f y u = Inl e"
      using Inr by simp
    then show ?thesis by blast
  qed
qed simp

lemma foldE_invariant:
  assumes "foldE f xs s = Inr s'" and "P s"
    and "\<And>x t t'. x \<in> set xs \<Longrightarrow> P t \<Longrightarrow> f x t = Inr t' \<Longrightarrow> P t'"
  shows "P s'"
  using assms
proof (induction xs arbitrary: s)
  case (Cons x xs)
  obtain t where t: "f x s = Inr t" "foldE f xs t = Inr s'"
    using Cons.prems(1) by (auto split: sum.splits)
  have "P t" using Cons.prems(3) [OF _ Cons.prems(2) t(1)] by simp
  then show ?case using Cons.IH [OF t(2)] Cons.prems(3) by auto
qed simp

section \<open>Dictionaries\<close>

text \<open>
  A Python \<open>dict\<close> iterates in insertion order and a store to a present key keeps
  its position: an association list with \<^const>\<open>AList.update\<close>. A dictionary value is
  one whose keys are distinct.
\<close>

type_synonym ('k, 'v) dict = "('k \<times> 'v) list"

abbreviation dict_get :: "('k, 'v) dict \<Rightarrow> 'k \<Rightarrow> 'v option" where
  "dict_get \<equiv> map_of"

abbreviation dict_set :: "'k \<Rightarrow> 'v \<Rightarrow> ('k, 'v) dict \<Rightarrow> ('k, 'v) dict" where
  "dict_set \<equiv> AList.update"

abbreviation dict_pop :: "'k \<Rightarrow> ('k, 'v) dict \<Rightarrow> ('k, 'v) dict" where
  "dict_pop \<equiv> AList.delete"

abbreviation dict_keys :: "('k, 'v) dict \<Rightarrow> 'k list" where
  "dict_keys d \<equiv> map fst d"

abbreviation dict_values :: "('k, 'v) dict \<Rightarrow> 'v list" where
  "dict_values d \<equiv> map snd d"

abbreviation dict_ok :: "('k, 'v) dict \<Rightarrow> bool" where
  "dict_ok d \<equiv> distinct (map fst d)"

text \<open>\<open>d.get(k, default)\<close>, \<open>d.setdefault(k, []).append(x)\<close>, a dict comprehension.\<close>

definition dict_get_or :: "('k, 'v) dict \<Rightarrow> 'k \<Rightarrow> 'v \<Rightarrow> 'v" where
  "dict_get_or d k v = (case dict_get d k of None \<Rightarrow> v | Some x \<Rightarrow> x)"

definition dict_append :: "'k \<Rightarrow> 'v \<Rightarrow> ('k, 'v list) dict \<Rightarrow> ('k, 'v list) dict" where
  "dict_append k x d = dict_set k (dict_get_or d k [] @ [x]) d"

definition dict_of :: "('k \<times> 'v) list \<Rightarrow> ('k, 'v) dict" where
  "dict_of kvs = fold (\<lambda>(k, v). dict_set k v) kvs []"

lemma dict_get_set [simp, dict_simps]:
  "dict_get (dict_set k v d) k' = (if k' = k then Some v else dict_get d k')"
  by (simp add: update_conv')

lemma dict_get_pop [simp, dict_simps]:
  "dict_get (dict_pop k d) k' = (if k' = k then None else dict_get d k')"
  by (simp add: delete_conv')

lemma dict_set_ok [simp, intro]: "dict_ok d \<Longrightarrow> dict_ok (dict_set k v d)"
  by (rule distinct_update)

lemma dict_pop_ok [simp, intro]: "dict_ok d \<Longrightarrow> dict_ok (dict_pop k d)"
  by (rule distinct_delete)

lemma dict_keys_set: "fst ` set (dict_set k v d) = insert k (fst ` set d)"
  by (simp add: dom_update)

lemma dict_get_append [dict_simps]:
  "dict_get (dict_append k x d) k' =
     (if k' = k then Some (dict_get_or d k [] @ [x]) else dict_get d k')"
  by (simp add: dict_append_def)

lemma dict_get_or_set [simp, dict_simps]:
  "dict_get_or (dict_set k v d) k' w = (if k' = k then v else dict_get_or d k' w)"
  by (simp add: dict_get_or_def)

lemma dict_get_or_append [dict_simps]:
  "dict_get_or (dict_append k x d) k' [] =
     (if k' = k then dict_get_or d k [] @ [x] else dict_get_or d k' [])"
  by (simp add: dict_append_def)

lemma dict_append_ok: "dict_ok d \<Longrightarrow> dict_ok (dict_append k x d)"
  unfolding dict_append_def by (rule dict_set_ok)

lemma dict_get_values: "dict_get d k = Some v \<Longrightarrow> v \<in> set (dict_values d)"
  by (force dest: map_of_SomeD)

lemma dict_of_ok: "dict_ok (dict_of kvs)"
proof -
  have "dict_ok d \<Longrightarrow> dict_ok (fold (\<lambda>(k, v). dict_set k v) kvs d)" for d :: "('a, 'b) dict"
    by (induction kvs arbitrary: d) auto
  then show ?thesis by (simp add: dict_of_def)
qed

lemma dict_get_fold_set:
  "dict_get (fold (\<lambda>(k, v). dict_set k v) kvs d) k =
     (case map_of (rev kvs) k of None \<Rightarrow> dict_get d k | Some v \<Rightarrow> Some v)"
  by (induction kvs arbitrary: d) (auto simp: map_add_def split: option.splits)

lemma dict_set_new: "k \<notin> fst ` set d \<Longrightarrow> dict_set k v d = d @ [(k, v)]"
  by (induction d) auto

lemma fold_dict_set_new:
  "dict_ok kvs \<Longrightarrow> fst ` set kvs \<inter> fst ` set d = {} \<Longrightarrow>
     fold (\<lambda>(k, v). dict_set k v) kvs d = d @ kvs"
proof (induction kvs arbitrary: d)
  case (Cons kv kvs)
  obtain k v where kv: "kv = (k, v)" by (cases kv)
  have "dict_set k v d = d @ [(k, v)]" using Cons.prems kv by (intro dict_set_new) auto
  moreover have "fst ` set kvs \<inter> fst ` set (d @ [(k, v)]) = {}" using Cons.prems kv by auto
  ultimately show ?case using Cons.IH [of "d @ [(k, v)]"] Cons.prems(1) kv by simp
qed simp

lemma dict_get_dict_of: "dict_get (dict_of kvs) k = map_of (rev kvs) k"
  by (simp add: dict_of_def dict_get_fold_set split: option.splits)

section \<open>Sets iterated in some order\<close>

text \<open>The order in which Python iterates a set of strings is not defined; it is a parameter.\<close>

definition iter_ok :: "(string set \<Rightarrow> string list) \<Rightarrow> bool" where
  "iter_ok iter \<longleftrightarrow> (\<forall>S. finite S \<longrightarrow> set (iter S) = S \<and> distinct (iter S))"

lemma iter_set: "iter_ok iter \<Longrightarrow> finite S \<Longrightarrow> set (iter S) = S"
  by (simp add: iter_ok_def)

lemma iter_single: "iter_ok iter \<Longrightarrow> iter {x} = [x]"
proof -
  assume "iter_ok iter"
  then have "set (iter {x}) = {x}" "distinct (iter {x})" by (auto simp: iter_ok_def)
  then show "iter {x} = [x]" by (cases "iter {x}" rule: remdups_adj.cases) auto
qed

lemma sorted_iter_ok: "iter_ok sorted_list_of_set"
  by (simp add: iter_ok_def)

section \<open>Strings\<close>

abbreviation code :: "char \<Rightarrow> nat" where
  "code c \<equiv> of_char c"

definition is_digit :: "char \<Rightarrow> bool" where
  "is_digit c \<longleftrightarrow> 48 \<le> code c \<and> code c \<le> 57"

definition is_upper :: "char \<Rightarrow> bool" where
  "is_upper c \<longleftrightarrow> 65 \<le> code c \<and> code c \<le> 90"

definition is_lower :: "char \<Rightarrow> bool" where
  "is_lower c \<longleftrightarrow> 97 \<le> code c \<and> code c \<le> 122"

definition is_alnum :: "char \<Rightarrow> bool" where
  "is_alnum c \<longleftrightarrow> is_digit c \<or> is_upper c \<or> is_lower c"

definition is_space :: "char \<Rightarrow> bool" where
  "is_space c \<longleftrightarrow> (9 \<le> code c \<and> code c \<le> 13) \<or> (28 \<le> code c \<and> code c \<le> 32)"

text \<open>\<open>[A-Za-z0-9_.-]\<close>, the class of names the sources accept in shell commands.\<close>

definition is_safe :: "char \<Rightarrow> bool" where
  "is_safe c \<longleftrightarrow> is_alnum c \<or> c = CHR ''_'' \<or> c = CHR ''.'' \<or> c = CHR ''-''"

definition lower_char :: "char \<Rightarrow> char" where
  "lower_char c = (if is_upper c then char_of (code c + 32) else c)"

definition str_lower :: "string \<Rightarrow> string" where
  "str_lower s = map lower_char s"

definition upper_char :: "char \<Rightarrow> char" where
  "upper_char c = (if is_lower c then char_of (code c - 32) else c)"

definition str_upper :: "string \<Rightarrow> string" where
  "str_upper s = map upper_char s"

definition strip_by :: "(char \<Rightarrow> bool) \<Rightarrow> string \<Rightarrow> string" where
  "strip_by p s = rev (dropWhile p (rev (dropWhile p s)))"

definition str_strip :: "string \<Rightarrow> string" where
  "str_strip s = strip_by is_space s"

definition startswith :: "string \<Rightarrow> string \<Rightarrow> bool" where
  "startswith s p \<longleftrightarrow> take (length p) s = p"

definition endswith :: "string \<Rightarrow> string \<Rightarrow> bool" where
  "endswith s p \<longleftrightarrow> startswith (rev s) (rev p)"

definition removeprefix :: "string \<Rightarrow> string \<Rightarrow> string" where
  "removeprefix s p = (if startswith s p then drop (length p) s else s)"

definition removesuffix :: "string \<Rightarrow> string \<Rightarrow> string" where
  "removesuffix s p = (if p \<noteq> [] \<and> endswith s p then take (length s - length p) s else s)"

text \<open>\<open>needle in s\<close>.\<close>

fun str_in :: "string \<Rightarrow> string \<Rightarrow> bool" where
  "str_in needle [] = (needle = [])"
| "str_in needle (c # s) = (startswith (c # s) needle \<or> str_in needle s)"

text \<open>\<open>s.split(c)\<close>, \<open>s.split(c, 1)\<close> and \<open>s.rpartition(c)\<close> for a one-character separator.\<close>

fun str_split :: "char \<Rightarrow> string \<Rightarrow> string list" where
  "str_split c [] = [[]]"
| "str_split c (x # s) =
     (if x = c then [] # str_split c s
      else (case str_split c s of [] \<Rightarrow> [[x]] | w # ws \<Rightarrow> (x # w) # ws))"

definition str_split1 :: "char \<Rightarrow> string \<Rightarrow> string list" where
  "str_split1 c s =
     (let w = takeWhile (\<lambda>x. x \<noteq> c) s; r = dropWhile (\<lambda>x. x \<noteq> c) s
      in if r = [] then [s] else [w, tl r])"

definition str_rpartition :: "char \<Rightarrow> string \<Rightarrow> string \<times> string" where
  "str_rpartition c s =
     (let w = rev (takeWhile (\<lambda>x. x \<noteq> c) (rev s)); r = dropWhile (\<lambda>x. x \<noteq> c) (rev s)
      in if r = [] then ([], s) else (rev (tl r), w))"

fun str_join :: "string \<Rightarrow> string list \<Rightarrow> string" where
  "str_join sep [] = []"
| "str_join sep [w] = w"
| "str_join sep (w # ws) = w @ sep @ str_join sep ws"

text \<open>\<open>s.splitlines()\<close> on ASCII: the line boundaries are LF, VT, FF, CR, CR LF and FS, GS, RS.\<close>

definition is_newline :: "char \<Rightarrow> bool" where
  "is_newline c \<longleftrightarrow> (10 \<le> code c \<and> code c \<le> 13) \<or> (28 \<le> code c \<and> code c \<le> 30)"

fun splitlines_acc :: "string \<Rightarrow> string \<Rightarrow> string list" where
  "splitlines_acc cur [] = (if cur = [] then [] else [rev cur])"
| "splitlines_acc cur [c] = (if is_newline c then [rev cur] else [rev (c # cur)])"
| "splitlines_acc cur (c # d # s) =
     (if code c = 13 \<and> code d = 10 then rev cur # splitlines_acc [] s
      else if is_newline c then rev cur # splitlines_acc [] (d # s)
      else splitlines_acc (c # cur) (d # s))"

definition str_splitlines :: "string \<Rightarrow> string list" where
  "str_splitlines s = splitlines_acc [] s"

subsection \<open>Decimal numbers\<close>

definition digit_char :: "nat \<Rightarrow> char" where
  "digit_char d = char_of (48 + d)"

fun show_nat :: "nat \<Rightarrow> string" where
  "show_nat n = (if n < 10 then [digit_char n] else show_nat (n div 10) @ [digit_char (n mod 10)])"

declare show_nat.simps [simp del]

definition show_int :: "int \<Rightarrow> string" where
  "show_int i = (if i < 0 then ''-'' @ show_nat (nat (- i)) else show_nat (nat i))"

definition read_digits :: "string \<Rightarrow> nat" where
  "read_digits s = foldl (\<lambda>n c. 10 * n + (code c - 48)) 0 s"

text \<open>The digits of an \<open>int()\<close> literal may be grouped by single underscores.\<close>

fun int_body :: "string \<Rightarrow> string option" where
  "int_body [] = None"
| "int_body [c] = (if is_digit c then Some [c] else None)"
| "int_body (c # d # s) =
     (if \<not> is_digit c then None
      else if d = CHR ''_'' then map_option ((#) c) (int_body s)
      else map_option ((#) c) (int_body (d # s)))"

text \<open>\<open>int(s)\<close>; \<^const>\<open>None\<close> stands for the \<open>ValueError\<close>.\<close>

definition py_int :: "string \<Rightarrow> int option" where
  "py_int s =
     (case str_strip s of
        [] \<Rightarrow> None
      | c # r \<Rightarrow>
          if c = CHR ''-'' then map_option (\<lambda>ds. - int (read_digits ds)) (int_body r)
          else if c = CHR ''+'' then map_option (\<lambda>ds. int (read_digits ds)) (int_body r)
          else map_option (\<lambda>ds. int (read_digits ds)) (int_body (c # r)))"

lemma code_char_of_digit: "d < 10 \<Longrightarrow> code (digit_char d) = 48 + d"
  by (simp add: digit_char_def)

lemma digit_char_simps [simp]:
  "digit_char 0 = CHR ''0''" "digit_char (Suc 0) = CHR ''1''" "digit_char 2 = CHR ''2''"
  "digit_char 3 = CHR ''3''" "digit_char 4 = CHR ''4''" "digit_char 5 = CHR ''5''"
  "digit_char 6 = CHR ''6''" "digit_char 7 = CHR ''7''" "digit_char 8 = CHR ''8''"
  "digit_char 9 = CHR ''9''"
  by code_simp+

lemma is_digit_digit_char [simp]: "d < 10 \<Longrightarrow> is_digit (digit_char d)"
  by (simp add: is_digit_def code_char_of_digit)

lemma show_nat_digits [str_simps]: "list_all is_digit (show_nat n)"
proof (induction n rule: show_nat.induct)
  case (1 n)
  then show ?case by (subst show_nat.simps) auto
qed

lemma show_nat_nonempty [simp, str_simps]: "show_nat n \<noteq> []"
  by (subst show_nat.simps) simp

lemma read_show_nat [simp, str_simps]: "read_digits (show_nat n) = n"
proof (induction n rule: show_nat.induct)
  case (1 n)
  then show ?case
    by (subst show_nat.simps) (auto simp: read_digits_def code_char_of_digit)
qed

lemma show_nat_inject [simp]: "show_nat m = show_nat n \<longleftrightarrow> m = n"
  by (metis read_show_nat)

lemma show_nat_length: "n < 10 ^ k \<Longrightarrow> 0 < k \<Longrightarrow> length (show_nat n) \<le> k"
proof (induction n arbitrary: k rule: show_nat.induct)
  case (1 n)
  show ?case
  proof (cases "n < 10")
    case True
    then show ?thesis using "1.prems"(2) by (simp add: show_nat.simps [of n])
  next
    case False
    then obtain j where j: "k = Suc j" "0 < j"
      using "1.prems" by (cases k; cases "k - 1") auto
    have "n div 10 < 10 ^ j" using "1.prems"(1) j(1) by (simp add: less_mult_imp_div_less mult.commute)
    then have "length (show_nat (n div 10)) \<le> j" using "1.IH" [OF False] j(2) by blast
    then show ?thesis using False j by (simp add: show_nat.simps [of n])
  qed
qed

lemma show_nat_hd: "n \<noteq> 0 \<Longrightarrow> hd (show_nat n) \<noteq> CHR ''0''"
proof (induction n rule: show_nat.induct)
  case (1 n)
  show ?case
  proof (cases "n < 10")
    case True
    then have "code (digit_char n) \<noteq> code CHR ''0''" using "1.prems" by (simp add: code_char_of_digit)
    then show ?thesis using True by (subst show_nat.simps) auto
  next
    case False
    then show ?thesis using 1 by (subst show_nat.simps) simp
  qed
qed

lemma digit_char_code: "is_digit c \<Longrightarrow> digit_char (code c - 48) = c"
  by (simp add: digit_char_def is_digit_def)

lemma read_digits_snoc: "read_digits (s @ [c]) = 10 * read_digits s + (code c - 48)"
  by (simp add: read_digits_def)

lemma show_read_digits:
  "list_all is_digit s \<Longrightarrow> s \<noteq> [] \<Longrightarrow> hd s \<noteq> CHR ''0'' \<Longrightarrow> show_nat (read_digits s) = s \<and> 0 < read_digits s"
proof (induction s rule: rev_induct)
  case (snoc c s)
  have c: "is_digit c" using snoc.prems by simp
  then have d: "code c - 48 < 10" by (auto simp: is_digit_def)
  show ?case
  proof (cases "s = []")
    case True
    have "code c \<noteq> 48"
      using snoc.prems(3) True digit_char_code [OF c] by auto
    then show ?thesis using True c d by (auto simp: read_digits_def show_nat.simps digit_char_code is_digit_def)
  next
    case False
    then have IH: "show_nat (read_digits s) = s" "0 < read_digits s" using snoc by auto
    then show ?thesis
      using d c show_nat.simps [of "read_digits (s @ [c])"] by (simp add: read_digits_snoc digit_char_code)
  qed
qed simp

lemma show_nat_inj: "inj show_nat"
  by (simp add: inj_def)

lemma int_body_digits: "ds \<noteq> [] \<Longrightarrow> list_all is_digit ds \<Longrightarrow> int_body ds = Some ds"
proof (induction ds rule: int_body.induct)
  case (3 c d s)
  have "d \<noteq> CHR ''_''" using 3 by (auto simp: is_digit_def)
  with 3 show ?case by simp
qed simp_all

lemma digit_not_space: "is_digit c \<Longrightarrow> \<not> is_space c"
  by (simp add: is_digit_def is_space_def)

lemma strip_none: "(\<forall>c \<in> set s. \<not> p c) \<Longrightarrow> strip_by p s = s"
proof -
  assume a: "\<forall>c \<in> set s. \<not> p c"
  have d: "dropWhile p xs = xs" if "\<forall>c \<in> set xs. \<not> p c" for xs
    using that by (cases xs) auto
  show ?thesis using a by (simp add: strip_by_def d)
qed

lemma py_int_digits:
  assumes "ds \<noteq> []" "list_all is_digit ds"
  shows "py_int ds = Some (int (read_digits ds))"
proof -
  obtain c r where ds: "ds = c # r" using assms(1) by (cases ds) auto
  have "str_strip ds = ds"
    unfolding str_strip_def using assms(2) digit_not_space by (intro strip_none) (auto simp: list_all_iff)
  moreover have "c \<noteq> CHR ''-''" "c \<noteq> CHR ''+''"
    using assms(2) ds by (auto simp: is_digit_def)
  ultimately show ?thesis
    using int_body_digits [OF assms] ds by (simp add: py_int_def)
qed

lemma py_int_show_nat [simp]: "py_int (show_nat n) = Some (int n)"
  using py_int_digits [OF show_nat_nonempty show_nat_digits] by simp

subsection \<open>String lemmas\<close>

lemma startswith_append [simp]: "startswith (p @ s) p"
  by (simp add: startswith_def)

lemma startswith_iff: "startswith s p \<longleftrightarrow> (\<exists>r. s = p @ r)"
  unfolding startswith_def by (metis append_take_drop_id append_eq_conv_conj)

lemma endswith_iff: "endswith s p \<longleftrightarrow> (\<exists>r. s = r @ p)"
  unfolding endswith_def startswith_iff by (metis rev_append rev_rev_ident)

lemma str_in_iff: "str_in w s \<longleftrightarrow> (\<exists>a b. s = a @ w @ b)"
proof (induction s)
  case (Cons c s)
  have "(\<exists>a b. c # s = a @ w @ b) \<longleftrightarrow> (\<exists>b. c # s = w @ b) \<or> (\<exists>a b. s = a @ w @ b)"
    by (metis append_Cons append_Nil append_eq_Cons_conv)
  with Cons show ?case by (simp add: startswith_iff)
qed auto

lemma set_dropWhile_le: "set (dropWhile p s) \<subseteq> set s"
  by (meson set_dropWhileD subsetI)

lemma set_strip_by: "set (strip_by p s) \<subseteq> set s"
  unfolding strip_by_def using set_dropWhile_le by (metis dual_order.trans set_rev)

lemma str_split_nonempty [simp]: "str_split c s \<noteq> []"
  by (induction s) (auto split: list.splits)

lemma str_split_no_sep: "c \<notin> set w \<Longrightarrow> str_split c w = [w]"
  by (induction w) auto

lemma str_split_append: "c \<notin> set w \<Longrightarrow> str_split c (w @ c # s) = w # str_split c s"
  by (induction w) auto

lemma str_split_join:
  "ws \<noteq> [] \<Longrightarrow> \<forall>w \<in> set ws. c \<notin> set w \<Longrightarrow> str_split c (str_join [c] ws) = ws"
proof (induction ws)
  case (Cons w ws)
  then show ?case by (cases ws) (simp_all add: str_split_no_sep str_split_append)
qed simp

lemma str_join_split: "str_join [c] (str_split c s) = s"
proof (induction s)
  case (Cons x s)
  obtain w ws where ws: "str_split c s = w # ws" by (cases "str_split c s") auto
  show ?case
  proof (cases ws)
    case Nil with ws Cons show ?thesis by simp
  next
    case (Cons v vs) with ws Cons.IH show ?thesis by simp
  qed
qed simp

section \<open>Sorting and maxima\<close>

text \<open>
  \<open>max(xs, key=f)\<close>: the first element whose key no other exceeds; \<^const>\<open>None\<close> for
  the empty sequence. \<open>sorted(xs, key=f)\<close> is the stable \<^const>\<open>sort_key\<close>, and
  \<open>reverse=True\<close>, which keeps the order of equal keys too, negates a numeric key.
\<close>

fun py_max :: "('a \<Rightarrow> 'k::linorder) \<Rightarrow> 'a list \<Rightarrow> 'a option" where
  "py_max f [] = None"
| "py_max f (x # xs) = Some (foldl (\<lambda>b y. if f b < f y then y else b) x xs)"

lemma foldl_max_mem: "foldl (\<lambda>b y. if f b < f y then y else b) x xs \<in> set (x # xs)"
proof (induction xs arbitrary: x)
  case (Cons y ys)
  show ?case using Cons.IH [of "if f x < f y then y else x"] by (auto split: if_splits)
qed simp

lemma foldl_max_head:
  fixes f :: "'a \<Rightarrow> 'k::linorder"
  shows "f x \<le> f (foldl (\<lambda>b y. if f b < f y then y else b) x xs)"
proof (induction xs arbitrary: x)
  case (Cons y ys)
  show ?case using Cons.IH [of x] Cons.IH [of y] by (auto intro: order_trans less_imp_le)
qed simp

lemma foldl_max_ge:
  fixes f :: "'a \<Rightarrow> 'k::linorder"
  shows "y \<in> set (x # xs) \<Longrightarrow> f y \<le> f (foldl (\<lambda>b y. if f b < f y then y else b) x xs)"
proof (induction xs arbitrary: x)
  case (Cons z zs)
  let ?g = "\<lambda>b y. if f b < f y then y else b"
  have le: "f w \<le> f (foldl ?g (?g x z) zs)" if "f w \<le> f (?g x z)" for w
    using that foldl_max_head [of f "?g x z" zs] by (rule order_trans)
  show ?case
  proof (cases "y \<in> set zs")
    case True
    then show ?thesis using Cons.IH [of "?g x z"] by simp
  next
    case False
    then have "f y \<le> f (?g x z)" using Cons.prems by auto
    then show ?thesis using le [of y] by simp
  qed
qed simp

lemma py_max_mem: "py_max f xs = Some x \<Longrightarrow> x \<in> set xs"
  using foldl_max_mem [of f "hd xs" "tl xs"] by (cases xs) auto

lemma py_max_ge: "py_max f xs = Some x \<Longrightarrow> y \<in> set xs \<Longrightarrow> f y \<le> f x"
  using foldl_max_ge [of y "hd xs" "tl xs" f] by (cases xs) auto

lemma py_max_None [simp]: "py_max f xs = None \<longleftrightarrow> xs = []"
  by (cases xs) simp_all

section \<open>Interfaces\<close>

text \<open>
  A supply of fresh names: for a request and the names in use it returns one that is not in use.
  Requests are served in order. Some of them keep a name they already have, which is in use; the
  others draw a fresh one, which is in use from then on.
\<close>

fun assign :: "('k \<Rightarrow> 'a option) \<Rightarrow> ('k \<Rightarrow> 'a set \<Rightarrow> 'a) \<Rightarrow> 'k list \<Rightarrow> 'a set \<Rightarrow> 'a list" where
  "assign keep fresh [] used = []"
| "assign keep fresh (k # ks) used =
     (case keep k of
        Some a \<Rightarrow> a # assign keep fresh ks used
      | None \<Rightarrow> (let a = fresh k used in a # assign keep fresh ks (insert a used)))"

lemma length_assign [simp]: "length (assign keep fresh ks used) = length ks"
  by (induction ks arbitrary: used) (auto simp: Let_def split: option.split)

lemma assign_kept: "i < length ks \<Longrightarrow> keep (ks ! i) = Some a \<Longrightarrow> assign keep fresh ks used ! i = a"
proof (induction ks arbitrary: used i)
  case (Cons k ks)
  then show ?case by (cases i) (auto simp: Let_def split: option.split)
qed simp

locale fresh_supply =
  fixes fresh :: "'k \<Rightarrow> 'a set \<Rightarrow> 'a"
  assumes fresh_new: "finite used \<Longrightarrow> fresh k used \<notin> used"
begin

lemma assign_new:
  "finite used \<Longrightarrow> i < length ks \<Longrightarrow> keep (ks ! i) = None \<Longrightarrow> assign keep fresh ks used ! i \<notin> used"
proof (induction ks arbitrary: used i)
  case (Cons k ks)
  show ?case
  proof (cases i)
    case 0
    then show ?thesis using Cons.prems fresh_new by (simp add: Let_def)
  next
    case (Suc j)
    then show ?thesis
      using Cons.prems Cons.IH [of used j] Cons.IH [of "insert (fresh k used) used" j]
      by (auto simp: Let_def split: option.split)
  qed
qed simp

lemma assign_source:
  assumes "finite used" "a \<in> set (assign keep fresh ks used)"
  shows "a \<in> set (List.map_filter keep ks) \<or> a \<notin> used"
proof -
  obtain i where i: "i < length ks" "a = assign keep fresh ks used ! i"
    using assms(2) by (metis in_set_conv_nth length_assign)
  show ?thesis
  proof (cases "keep (ks ! i)")
    case None
    then show ?thesis using assign_new [OF assms(1) i(1)] i(2) by blast
  next
    case (Some b)
    then have "a = b" using assign_kept i by metis
    then show ?thesis using Some nth_mem [OF i(1)] by (auto simp: List.map_filter_def image_iff intro!: bexI [of _ "ks ! i"])
  qed
qed

lemma assign_distinct:
  "finite used \<Longrightarrow> distinct (List.map_filter keep ks) \<Longrightarrow> set (List.map_filter keep ks) \<subseteq> used
   \<Longrightarrow> distinct (assign keep fresh ks used)"
proof (induction ks arbitrary: used)
  case (Cons k ks)
  show ?case
  proof (cases "keep k")
    case None
    then have ih: "distinct (assign keep fresh ks (insert (fresh k used) used))"
      using Cons.IH [of "insert (fresh k used) used"] Cons.prems by (auto simp: map_filter_simps)
    have "fresh k used \<notin> set (List.map_filter keep ks)"
      using Cons.prems fresh_new None by (auto simp: map_filter_simps)
    then have "fresh k used \<notin> set (assign keep fresh ks (insert (fresh k used) used))"
      using assign_source [of "insert (fresh k used) used"] Cons.prems(1) by blast
    then show ?thesis using None ih by (simp add: Let_def)
  next
    case (Some a)
    then have h: "distinct (List.map_filter keep ks)" "a \<notin> set (List.map_filter keep ks)"
      "set (List.map_filter keep ks) \<subseteq> used" "a \<in> used"
      using Cons.prems by (auto simp: map_filter_simps)
    then have "a \<notin> set (assign keep fresh ks used)" using assign_source [OF Cons.prems(1)] by blast
    then show ?thesis using Some Cons.IH [OF Cons.prems(1) h(1,3)] by simp
  qed
qed simp

end

text \<open>
  An allocator over a finite pool: it returns a free element of the pool and
  fails only when there is none.
\<close>

fun alloc_many :: "('a set \<Rightarrow> 'a option) \<Rightarrow> nat \<Rightarrow> 'a set \<Rightarrow> 'a list option" where
  "alloc_many alloc 0 used = Some []"
| "alloc_many alloc (Suc n) used =
     (case alloc used of None \<Rightarrow> None
      | Some x \<Rightarrow> map_option ((#) x) (alloc_many alloc n (insert x used)))"

locale pool_allocator =
  fixes pool :: "'a set" and alloc :: "'a set \<Rightarrow> 'a option"
  assumes pool_finite: "finite pool"
    and alloc_sound: "alloc used = Some x \<Longrightarrow> x \<in> pool \<and> x \<notin> used"
    and alloc_complete: "alloc used = None \<Longrightarrow> pool \<subseteq> used"
begin

lemma alloc_iff: "(\<exists>x. alloc used = Some x) \<longleftrightarrow> \<not> pool \<subseteq> used"
  using alloc_sound alloc_complete by (metis not_None_eq subsetD)

lemma many_sound:
  "alloc_many alloc n used = Some xs \<Longrightarrow>
     distinct xs \<and> set xs \<subseteq> pool \<and> set xs \<inter> used = {} \<and> length xs = n"
proof (induction n arbitrary: used xs)
  case (Suc n)
  then obtain x ys where x: "alloc used = Some x"
    and ys: "alloc_many alloc n (insert x used) = Some ys" and xs: "xs = x # ys"
    by (auto split: option.splits)
  show ?case using Suc.IH [OF ys] alloc_sound [OF x] xs by auto
qed simp

lemma many_complete:
  "alloc_many alloc n used = None \<Longrightarrow> card (pool - used) < n"
proof (induction n arbitrary: used)
  case (Suc n)
  show ?case
  proof (cases "alloc used")
    case None
    then have "pool - used = {}" using alloc_complete by auto
    then show ?thesis by (simp only: card.empty zero_less_Suc)
  next
    case (Some x)
    then have "alloc_many alloc n (insert x used) = None" using Suc.prems by simp
    then have "card (pool - insert x used) < n" by (rule Suc.IH)
    moreover have "pool - insert x used = (pool - used) - {x}" by auto
    moreover have "card (pool - used) \<le> Suc (card ((pool - used) - {x}))"
      by (cases "x \<in> pool - used") (simp_all add: card_Diff_singleton_if)
    ultimately show ?thesis by simp
  qed
qed simp

end

text \<open>
  A state machine whose transitions keep an invariant, which may speak of the operations done so
  far. Transitions may fail; a run stops at the first failure.
\<close>

locale keeps_invariant =
  fixes step :: "'op \<Rightarrow> 's \<Rightarrow> 'e + 's" and inv :: "'op list \<Rightarrow> 's \<Rightarrow> bool"
  assumes step_keeps: "inv hist s \<Longrightarrow> step x s = Inr s' \<Longrightarrow> inv (hist @ [x]) s'"
begin

lemma run_keeps: "inv hist s \<Longrightarrow> foldE step ops s = Inr s' \<Longrightarrow> inv (hist @ ops) s'"
proof (induction ops arbitrary: hist s)
  case (Cons x xs)
  then obtain t where "step x s = Inr t" "foldE step xs t = Inr s'" by (auto split: sum.splits)
  then show ?case using Cons.IH [of "hist @ [x]" t] step_keeps [OF Cons.prems(1)] by simp
qed simp

lemma run_prefix_keeps:
  assumes "inv hist s" and "foldE step (ops @ ops') s = Inr s'"
  shows "\<exists>t. foldE step ops s = Inr t \<and> inv (hist @ ops) t"
  using assms by (auto simp: foldE_append bindE_eq_Inr intro: run_keeps)

end


subsection \<open>Stream parsers\<close>

text \<open>
  A parser that is fed pieces of a stream and returns what each piece completes. Its contract:
  the state after a prefix of the stream depends on the prefix only, and a piece yields exactly
  what a parser of the whole prefix would return in addition.
\<close>

fun feed_list :: "('d list \<Rightarrow> 's \<Rightarrow> 'o list \<times> 's) \<Rightarrow> 'd list list \<Rightarrow> 's \<Rightarrow> 'o list \<times> 's" where
  "feed_list feed [] st = ([], st)"
| "feed_list feed (d # ds) st =
     (case feed d st of (ps, st') \<Rightarrow> case feed_list feed ds st' of (qs, st'') \<Rightarrow> (ps @ qs, st''))"

locale stream_parser =
  fixes feed :: "'d list \<Rightarrow> 's \<Rightarrow> 'o list \<times> 's"
    and state_of :: "'d list \<Rightarrow> 's" and whole :: "'d list \<Rightarrow> 'o list"
  assumes feed_piece:
    "\<exists>ps. feed d (state_of xs) = (ps, state_of (xs @ d)) \<and> whole (xs @ d) = whole xs @ ps"
begin

lemma feed_list_from:
  "\<exists>ps. feed_list feed ds (state_of xs) = (ps, state_of (xs @ concat ds))
        \<and> whole (xs @ concat ds) = whole xs @ ps"
proof (induction ds arbitrary: xs)
  case (Cons d ds)
  obtain ps where ps: "feed d (state_of xs) = (ps, state_of (xs @ d))" "whole (xs @ d) = whole xs @ ps"
    using feed_piece by blast
  obtain qs where "feed_list feed ds (state_of (xs @ d)) = (qs, state_of ((xs @ d) @ concat ds))"
    "whole ((xs @ d) @ concat ds) = whole (xs @ d) @ qs"
    using Cons.IH by blast
  then show ?case using ps by simp
qed simp

lemma feed_list_batch:
  assumes "whole [] = []"
  shows "feed_list feed ds (state_of []) = (whole (concat ds), state_of (concat ds))"
  using feed_list_from [of ds "[]"] assms by auto

lemma feed_list_chunking:
  assumes "whole [] = []" and "concat ds = concat ds'"
  shows "feed_list feed ds (state_of []) = feed_list feed ds' (state_of [])"
  using feed_list_batch [OF assms(1)] assms(2) by metis

end

end
