(* ===== verification/Digests.thy ===== *)
theory Digests
  imports Prelude
begin

text \<open>
  The two digests the sources take from Python's standard library: \<open>binascii.crc32\<close>
  (the reflected polynomial 0xEDB88320) behind the numeric identifiers, and
  \<open>hashlib.sha1(...).hexdigest()\<close> behind the shortened interface names. Both work on
  the bytes of an ASCII string.
\<close>

unbundle bit_operations_syntax

type_synonym byte = "8 word"
type_synonym u32 = "32 word"

definition encode :: "string \<Rightarrow> byte list" where
  "encode s = map (\<lambda>c. of_nat (code c)) s"

section \<open>CRC-32\<close>

definition crc_bit :: "u32 \<Rightarrow> u32" where
  "crc_bit w = (if bit w 0 then drop_bit 1 w XOR 0xEDB88320 else drop_bit 1 w)"

definition crc_byte :: "u32 \<Rightarrow> byte \<Rightarrow> u32" where
  "crc_byte w b = (crc_bit ^^ 8) (w XOR ucast b)"

definition crc32 :: "byte list \<Rightarrow> u32" where
  "crc32 bs = NOT (foldl crc_byte 0xFFFFFFFF bs)"

section \<open>SHA-1\<close>

definition be_word :: "byte list \<Rightarrow> u32" where
  "be_word bs = foldl (\<lambda>w b. push_bit 8 w OR ucast b) 0 bs"

fun be_bytes :: "nat \<Rightarrow> nat \<Rightarrow> byte list" where
  "be_bytes 0 n = []"
| "be_bytes (Suc k) n = be_bytes k (n div 256) @ [of_nat (n mod 256)]"

definition sha1_pad :: "byte list \<Rightarrow> byte list" where
  "sha1_pad m =
     m @ [0x80] @ replicate ((119 - length m mod 64) mod 64) 0 @ be_bytes 8 (8 * length m)"

fun chunks :: "nat \<Rightarrow> nat \<Rightarrow> 'a list \<Rightarrow> 'a list list" where
  "chunks 0 k xs = []"
| "chunks (Suc n) k xs = take k xs # chunks n k (drop k xs)"

text \<open>The message schedule, latest word first: 16 words of the block and 64 derived ones.\<close>

fun sha1_extend :: "nat \<Rightarrow> u32 list \<Rightarrow> u32 list" where
  "sha1_extend 0 ws = ws"
| "sha1_extend (Suc n) ws =
     sha1_extend n (word_rotl 1 (ws ! 2 XOR ws ! 7 XOR ws ! 13 XOR ws ! 15) # ws)"

definition sha1_f :: "nat \<Rightarrow> u32 \<Rightarrow> u32 \<Rightarrow> u32 \<Rightarrow> u32" where
  "sha1_f t b c d =
     (if t < 20 then (b AND c) OR ((NOT b) AND d)
      else if t < 40 then b XOR c XOR d
      else if t < 60 then (b AND c) OR (b AND d) OR (c AND d)
      else b XOR c XOR d)"

definition sha1_k :: "nat \<Rightarrow> u32" where
  "sha1_k t =
     (if t < 20 then 0x5A827999 else if t < 40 then 0x6ED9EBA1
      else if t < 60 then 0x8F1BBCDC else 0xCA62C1D6)"

fun sha1_rounds :: "nat \<Rightarrow> u32 list \<Rightarrow> u32 \<times> u32 \<times> u32 \<times> u32 \<times> u32 \<Rightarrow> u32 \<times> u32 \<times> u32 \<times> u32 \<times> u32" where
  "sha1_rounds t [] s = s"
| "sha1_rounds t (w # ws) (a, b, c, d, e) =
     sha1_rounds (Suc t) ws
       (word_rotl 5 a + sha1_f t b c d + e + sha1_k t + w, a, word_rotl 30 b, c, d)"

fun sha1_block :: "u32 \<times> u32 \<times> u32 \<times> u32 \<times> u32 \<Rightarrow> byte list \<Rightarrow> u32 \<times> u32 \<times> u32 \<times> u32 \<times> u32" where
  "sha1_block (h0, h1, h2, h3, h4) blk =
     (let ws = rev (sha1_extend 64 (rev (map be_word (chunks 16 4 blk))));
          (a, b, c, d, e) = sha1_rounds 0 ws (h0, h1, h2, h3, h4)
      in (h0 + a, h1 + b, h2 + c, h3 + d, h4 + e))"

definition sha1 :: "byte list \<Rightarrow> u32 list" where
  "sha1 m =
     (let p = sha1_pad m;
          (a, b, c, d, e) = foldl sha1_block
            (0x67452301, 0xEFCDAB89, 0x98BADCFE, 0x10325476, 0xC3D2E1F0)
            (chunks (length p div 64) 64 p)
      in [a, b, c, d, e])"

definition hex_digit :: "nat \<Rightarrow> char" where
  "hex_digit d = (if d < 10 then char_of (48 + d) else char_of (87 + d))"

fun hex_fixed :: "nat \<Rightarrow> nat \<Rightarrow> string" where
  "hex_fixed 0 n = []"
| "hex_fixed (Suc k) n = hex_fixed k (n div 16) @ [hex_digit (n mod 16)]"

definition sha1_hexdigest :: "byte list \<Rightarrow> string" where
  "sha1_hexdigest m = concat (map (\<lambda>w. hex_fixed 8 (unat w)) (sha1 m))"

lemma length_hex_fixed [simp, str_simps]: "length (hex_fixed k n) = k"
  by (induction k arbitrary: n) simp_all

lemma length_sha1 [simp]: "length (sha1 m) = 5"
  by (simp add: sha1_def Let_def split_beta)

lemma length_sha1_hexdigest [simp, str_simps]: "length (sha1_hexdigest m) = 40"
proof -
  have "length (sha1_hexdigest m) = sum_list (map (\<lambda>w. 8) (sha1 m))"
    by (simp add: sha1_hexdigest_def length_concat comp_def)
  then show ?thesis by (simp add: sum_list_triv)
qed

lemma hex_digit_alnum: "d < 16 \<Longrightarrow> is_alnum (hex_digit d)"
  by (auto simp: hex_digit_def is_alnum_def is_digit_def is_lower_def)

lemma hex_fixed_alnum: "list_all is_alnum (hex_fixed k n)"
  by (induction k arbitrary: n) (simp_all add: hex_digit_alnum)

lemma sha1_hexdigest_alnum [str_simps]: "list_all is_alnum (sha1_hexdigest m)"
  using hex_fixed_alnum by (auto simp: sha1_hexdigest_def list_all_iff)

end
