(* ===== verification/Naming.thy ===== *)
theory Naming
  imports Digests
begin

text \<open>
  Deterministic identifiers and interface names: \<open>utils/ids.py\<close> and
  \<open>utils/naming.py\<close>. Linux limits an interface name to 15 characters; the names
  here are built from a lab name, a device name and an interface name and cut to
  fit.
\<close>

section \<open>Numeric identifiers (utils/ids.py)\<close>

unbundle bit_operations_syntax

definition hash_lab :: "string \<Rightarrow> nat" where
  "hash_lab lab_name = unat (crc32 (encode lab_name) AND 0xFFFFFFFF)"

definition vrf_table_id :: "string \<Rightarrow> nat" where
  "vrf_table_id lab_name = 100 + hash_lab lab_name mod 900"

definition mgmt_vxlan_id :: "string \<Rightarrow> nat" where
  "mgmt_vxlan_id lab_name = 2000 + hash_lab lab_name mod 1000"

definition dataplane_vxlan_base :: "string \<Rightarrow> nat" where
  "dataplane_vxlan_base lab_name = 3000 + hash_lab lab_name mod 1000"

definition runtime_relay_port :: "string \<Rightarrow> nat" where
  "runtime_relay_port lab_name = 23000 + hash_lab lab_name mod 1000"

definition realnet_vxlan_id :: "string \<Rightarrow> nat \<Rightarrow> nat" where
  "realnet_vxlan_id lab_name index = 5000 + (hash_lab lab_name + index) mod 1000"

section \<open>Interface names (utils/naming.py)\<close>

definition max_iface_len :: nat where
  "max_iface_len = 15"

definition max_mgmt_net_len :: nat where
  "max_mgmt_net_len = 12"

text \<open>\<open>(\d+)/(\d+)/...\<close>: a given number of digit groups separated by slashes.\<close>

fun slash_groups :: "nat \<Rightarrow> string \<Rightarrow> string list option" where
  "slash_groups 0 s = Some []"
| "slash_groups (Suc n) s =
     (let d = takeWhile is_digit s; r = dropWhile is_digit s
      in if d = [] then None
         else if n = 0 then Some [d]
         else (case r of [] \<Rightarrow> None
               | c # r' \<Rightarrow> if c = CHR ''/'' then map_option ((#) d) (slash_groups n r') else None))"

text \<open>A pattern that is one of some literal heads followed by digit groups.\<close>

fun match_heads :: "(string \<times> string) list \<Rightarrow> nat \<Rightarrow> string \<Rightarrow> string option" where
  "match_heads [] n iface = None"
| "match_heads ((h, short) # hs) n iface =
     (if startswith iface h
      then (case slash_groups n (drop (length h) iface) of
              Some gs \<Rightarrow> Some (short @ concat gs)
            | None \<Rightarrow> match_heads hs n iface)
      else match_heads hs n iface)"

definition shorten_iface :: "string \<Rightarrow> string" where
  "shorten_iface iface =
     (case match_heads [(''eth'', ''e'')] 1 iface of Some s \<Rightarrow> s | None \<Rightarrow>
     (case match_heads [(''ge-'', ''g''), (''xe-'', ''x'')] 3 iface of Some s \<Rightarrow> s | None \<Rightarrow>
     (case match_heads [(''Ethernet'', ''E''), (''ethernet'', ''E'')] 2 iface of Some s \<Rightarrow> s | None \<Rightarrow>
     (case match_heads [(''GigabitEthernet'', ''G''), (''Gigabitethernet'', ''G''),
                        (''gigabitEthernet'', ''G''), (''gigabitethernet'', ''G'')] 4 iface of
        Some s \<Rightarrow> s
      | None \<Rightarrow> take 6 (filter is_alnum iface)))))"

definition short_hash :: "string \<Rightarrow> nat \<Rightarrow> string" where
  "short_hash value n = take n (sha1_hexdigest (encode value))"

text \<open>\<open>s or d\<close> on strings.\<close>

definition or_else :: "string \<Rightarrow> string \<Rightarrow> string" where
  "or_else s d = (if s = [] then d else s)"

definition vxlan_host_iface :: "string \<Rightarrow> string \<Rightarrow> string \<Rightarrow> string" where
  "vxlan_host_iface lab_name node_name iface =
     (let lab = short_hash lab_name 3;
          node_short = or_else (take 4 (filter is_alnum node_name)) ''n'';
          iface_short = or_else (take 3 (shorten_iface iface)) ''if''
      in take max_iface_len (''vx'' @ lab @ ''-'' @ node_short @ ''-'' @ iface_short))"

definition mgmt_vxlan_iface :: "string \<Rightarrow> string" where
  "mgmt_vxlan_iface lab_name = (let trunc = take 7 lab_name in ''vx-'' @ trunc @ ''-mgmt'')"

text \<open>\<open>re.sub("[...]+", "-", s)\<close>: every maximal run of the class becomes one dash.\<close>

function sub_runs :: "(char \<Rightarrow> bool) \<Rightarrow> string \<Rightarrow> string" where
  "sub_runs p [] = []"
| "sub_runs p (c # s) =
     (if p c then CHR ''-'' # sub_runs p (dropWhile p s) else c # sub_runs p s)"
  by pat_completeness auto
termination
  by (relation "measure (\<lambda>(p, s). length s)") (auto simp: le_imp_less_Suc length_dropWhile_le)

definition is_bridge_safe :: "char \<Rightarrow> bool" where
  "is_bridge_safe c \<longleftrightarrow> is_lower c \<or> is_digit c \<or> c = CHR ''-''"

definition sanitize_lab_name :: "string \<Rightarrow> string" where
  "sanitize_lab_name lab_name =
     (let s = sub_runs (\<lambda>c. \<not> is_bridge_safe c) (str_lower lab_name);
          s = strip_by (\<lambda>c. c = CHR ''-'') (sub_runs (\<lambda>c. c = CHR ''-'') s)
      in or_else s ''lab'')"

definition mgmt_network_name :: "string \<Rightarrow> string" where
  "mgmt_network_name lab_name = take max_mgmt_net_len (sanitize_lab_name lab_name)"

definition mgmt_bridge_name :: "string \<Rightarrow> string" where
  "mgmt_bridge_name lab_name = ''br-'' @ mgmt_network_name lab_name"

definition vrf_name :: "string \<Rightarrow> string" where
  "vrf_name lab_name = take max_iface_len (''vrf-'' @ take 11 lab_name)"

definition jumphost_container_name :: "string \<Rightarrow> string" where
  "jumphost_container_name lab_name = ''dnlab-'' @ lab_name @ ''-jumphost''"

definition runtime_relay_container_name :: "string \<Rightarrow> string" where
  "runtime_relay_container_name lab_name = ''dnlab-'' @ lab_name @ ''-runtime-relay''"

definition vd_container_name :: "string \<Rightarrow> string \<Rightarrow> string" where
  "vd_container_name lab_name vd_name = ''clab-'' @ lab_name @ ''-'' @ vd_name"

definition micro_topology_name :: "string \<Rightarrow> string \<Rightarrow> string" where
  "micro_topology_name lab_name vd_name = ''dnlab-'' @ lab_name @ ''-'' @ vd_name"

definition micro_topology_file :: "string \<Rightarrow> string \<Rightarrow> string \<Rightarrow> string" where
  "micro_topology_file lab_name vd_name host_name =
     ''/tmp/'' @ micro_topology_name lab_name vd_name @ ''-'' @ host_name @ ''.clab.yml''"

definition micro_vd_container_name :: "string \<Rightarrow> string \<Rightarrow> string" where
  "micro_vd_container_name lab_name vd_name =
     ''clab-'' @ micro_topology_name lab_name vd_name @ ''-'' @ vd_name"

definition mgmt_anchor_topology_name :: "string \<Rightarrow> string \<Rightarrow> string" where
  "mgmt_anchor_topology_name lab_name host_name = ''dnlab-'' @ lab_name @ ''-mgmt-'' @ host_name"

definition mgmt_anchor_topology_file :: "string \<Rightarrow> string \<Rightarrow> string" where
  "mgmt_anchor_topology_file lab_name host_name =
     ''/tmp/'' @ mgmt_anchor_topology_name lab_name host_name @ ''.clab.yml''"

definition mgmt_anchor_container_name :: "string \<Rightarrow> string \<Rightarrow> string" where
  "mgmt_anchor_container_name lab_name host_name =
     ''clab-'' @ mgmt_anchor_topology_name lab_name host_name @ ''-mgmt-anchor''"

text \<open>\<open>s[-n:]\<close>.\<close>

definition last_n :: "nat \<Rightarrow> 'a list \<Rightarrow> 'a list" where
  "last_n n s = drop (length s - n) s"

definition runtime_host_endpoint :: "string \<Rightarrow> string \<Rightarrow> string \<Rightarrow> string \<Rightarrow> string" where
  "runtime_host_endpoint lab_name node_name iface link_id =
     (let node = or_else (take 4 (filter is_alnum node_name)) ''n'';
          ifs = or_else (take 4 (shorten_iface iface)) ''if'';
          lid = or_else (last_n 3 (filter is_alnum link_id)) ''0'';
          name = ''rt-'' @ node @ ''-'' @ ifs @ ''-'' @ lid
      in take max_iface_len name)"

definition runtime_port_endpoint :: "string \<Rightarrow> string \<Rightarrow> string \<Rightarrow> string" where
  "runtime_port_endpoint lab_name node_name iface =
     (let digest = take 6 (sha1_hexdigest
            (encode (lab_name @ '':'' @ node_name @ '':'' @ iface)));
          ifs = or_else (take 4 (shorten_iface iface)) ''if''
      in take max_iface_len (''wp-'' @ ifs @ ''-'' @ digest))"

definition undash :: "string \<Rightarrow> string" where
  "undash s = filter (\<lambda>c. c \<noteq> CHR ''-'') s"

definition realnet_bridge_name :: "string \<Rightarrow> string \<Rightarrow> string" where
  "realnet_bridge_name lab_name real_net =
     (let lab = take 5 (sanitize_lab_name lab_name);
          rn = take 5 (undash (sanitize_lab_name real_net))
      in take max_iface_len (''br'' @ lab @ rn))"

definition realnet_vxlan_iface :: "string \<Rightarrow> string \<Rightarrow> string" where
  "realnet_vxlan_iface lab_name real_net =
     (let lab = take 5 (undash (sanitize_lab_name lab_name));
          rn = take 5 (undash (sanitize_lab_name real_net))
      in take max_iface_len (''vx'' @ lab @ rn))"

definition realnet_bridge_iface :: "string \<Rightarrow> string \<Rightarrow> string" where
  "realnet_bridge_iface node_name iface =
     take max_iface_len (''rn-'' @ take 4 node_name @ ''-'' @ shorten_iface iface)"

definition realnet_router_veth_name :: "string \<Rightarrow> string \<Rightarrow> string" where
  "realnet_router_veth_name lab_name real_net =
     (let lab = take 5 (undash (sanitize_lab_name lab_name));
          rn = take 5 (undash (sanitize_lab_name real_net))
      in take max_iface_len (''vh'' @ lab @ rn))"

definition realnet_router_container_name :: "string \<Rightarrow> string \<Rightarrow> string" where
  "realnet_router_container_name lab_name real_net =
     ''dnlab-'' @ lab_name @ ''-'' @ real_net @ ''-realnet''"

text \<open>The body of the loop of \<open>ensure_unique\<close>; the state is \<open>(seen, result)\<close>.\<close>

definition ensure_unique_step ::
  "string \<Rightarrow> (string, nat) dict \<times> string list \<Rightarrow> (string, nat) dict \<times> string list" where
  "ensure_unique_step name st =
     (case st of (seen, result) \<Rightarrow>
       (case dict_get seen name of
          Some k \<Rightarrow>
            (let seen = dict_set name (k + 1) seen;
                 suffixed = take (max_iface_len - 1) name @ show_nat (k + 1)
             in (seen, result @ [take max_iface_len suffixed]))
        | None \<Rightarrow> (dict_set name 0 seen, result @ [name])))"

definition ensure_unique :: "string list \<Rightarrow> string list" where
  "ensure_unique names = snd (fold ensure_unique_step names ([], []))"

section \<open>Lengths\<close>

lemma slash_groups_nonempty:
  "slash_groups (Suc n) s = Some gs \<Longrightarrow> concat gs \<noteq> []"
  by (cases n) (auto simp: Let_def split: if_splits list.splits option.splits)

lemma length_or_else: "length d \<le> n \<Longrightarrow> length s \<le> n \<Longrightarrow> length (or_else s d) \<le> n"
  by (simp add: or_else_def)

lemma or_else_nonempty: "d \<noteq> [] \<Longrightarrow> or_else s d \<noteq> []"
  by (simp add: or_else_def)

lemma length_short_hash: "n \<le> 40 \<Longrightarrow> length (short_hash v n) = n"
  by (simp add: short_hash_def)

text \<open>What the kernel accepts as an interface name.\<close>

definition fits :: "string \<Rightarrow> bool" where
  "fits n \<longleftrightarrow> 0 < length n \<and> length n \<le> 15"

lemma fits_take: "s \<noteq> [] \<Longrightarrow> fits (take max_iface_len s)"
  by (simp add: fits_def max_iface_len_def)

lemma fits_cut_names:
  "fits (vxlan_host_iface lab node iface)" "fits (vrf_name lab)"
  "fits (runtime_host_endpoint lab node iface link_id)" "fits (runtime_port_endpoint lab node iface)"
  "fits (realnet_bridge_name lab rn)" "fits (realnet_vxlan_iface lab rn)"
  "fits (realnet_bridge_iface node iface)" "fits (realnet_router_veth_name lab rn)"
  unfolding vxlan_host_iface_def vrf_name_def runtime_host_endpoint_def runtime_port_endpoint_def
    realnet_bridge_name_def realnet_vxlan_iface_def realnet_bridge_iface_def
    realnet_router_veth_name_def Let_def
  by (rule fits_take, simp)+

lemma fits_mgmt_names: "fits (mgmt_vxlan_iface lab)" "fits (mgmt_bridge_name lab)"
  by (simp_all add: fits_def mgmt_vxlan_iface_def mgmt_bridge_name_def mgmt_network_name_def
      max_mgmt_net_len_def)

section \<open>Sanitised names\<close>

lemma set_sub_runs: "set (sub_runs p s) \<subseteq> insert (CHR ''-'') {c \<in> set s. \<not> p c}"
proof (induction p s rule: sub_runs.induct)
  case (2 p c s)
  have "{d \<in> set (dropWhile p s). \<not> p d} \<subseteq> {d \<in> set s. \<not> p d}"
    using set_dropWhile_le [of p s] by blast
  with 2 show ?case by auto
qed simp

lemma sub_runs_id: "\<forall>c \<in> set s. \<not> p c \<Longrightarrow> sub_runs p s = s"
  by (induction p s rule: sub_runs.induct) auto

text \<open>No two adjacent dashes.\<close>

fun no_dash_pair :: "string \<Rightarrow> bool" where
  "no_dash_pair (a # b # s) = (\<not> (a = CHR ''-'' \<and> b = CHR ''-'') \<and> no_dash_pair (b # s))"
| "no_dash_pair s = True"

lemma no_dash_pair_Cons:
  "no_dash_pair (a # s) \<longleftrightarrow> no_dash_pair s \<and> \<not> (a = CHR ''-'' \<and> s \<noteq> [] \<and> hd s = CHR ''-'')"
  by (cases s) auto

abbreviation is_dash :: "char \<Rightarrow> bool" where
  "is_dash \<equiv> (\<lambda>c. c = CHR ''-'')"

lemma hd_sub_dash: "s \<noteq> [] \<Longrightarrow> hd s \<noteq> CHR ''-'' \<Longrightarrow> sub_runs is_dash s \<noteq> [] \<and> hd (sub_runs is_dash s) = hd s"
  by (cases s) auto

lemma sub_dash_nil: "sub_runs p s = [] \<longleftrightarrow> s = []"
  by (cases s) auto

lemma hd_sub_dash_drop:
  "sub_runs is_dash (dropWhile is_dash s) \<noteq> [] \<Longrightarrow>
     hd (sub_runs is_dash (dropWhile is_dash s)) \<noteq> CHR ''-''"
  using hd_sub_dash [of "dropWhile is_dash s"] hd_dropWhile [of is_dash s] sub_dash_nil
  by metis

lemma no_dash_pair_sub: "no_dash_pair (sub_runs is_dash s)"
proof (induction is_dash s rule: sub_runs.induct)
  case (2 c s)
  then show ?case using hd_sub_dash_drop [of s] by (auto simp: no_dash_pair_Cons)
qed simp

lemma sub_dash_id: "no_dash_pair s \<Longrightarrow> sub_runs is_dash s = s"
proof (induction s)
  case (Cons c s)
  have "dropWhile is_dash s = s" if "c = CHR ''-''"
    using Cons.prems that by (cases s) auto
  with Cons show ?case by (auto simp: no_dash_pair_Cons)
qed simp

lemma no_dash_pair_append: "no_dash_pair (a @ b) \<Longrightarrow> no_dash_pair a \<and> no_dash_pair b"
proof (induction a)
  case (Cons c a)
  then show ?case by (cases a) (auto simp: no_dash_pair_Cons)
qed simp

lemma strip_by_part: "\<exists>a b. s = a @ strip_by p s @ b"
proof -
  have d: "\<exists>a. xs = a @ dropWhile p xs" for xs
    by (metis takeWhile_dropWhile_id)
  obtain a where a: "s = a @ dropWhile p s" using d by blast
  obtain b where b: "rev (dropWhile p s) = b @ dropWhile p (rev (dropWhile p s))" using d by blast
  have "dropWhile p s = rev (dropWhile p (rev (dropWhile p s))) @ rev b"
    using b by (metis rev_append rev_rev_ident)
  then have "s = a @ rev (dropWhile p (rev (dropWhile p s))) @ rev b" using a by metis
  then show ?thesis unfolding strip_by_def by blast
qed

lemma strip_by_last: "strip_by p s \<noteq> [] \<Longrightarrow> \<not> p (last (strip_by p s))"
  unfolding strip_by_def by (metis hd_dropWhile last_rev rev_is_Nil_conv)

lemma strip_by_hd: "strip_by p s \<noteq> [] \<Longrightarrow> \<not> p (hd (strip_by p s))"
proof -
  assume n: "strip_by p s \<noteq> []"
  let ?t = "dropWhile p s"
  obtain b where b: "rev ?t = b @ dropWhile p (rev ?t)" by (metis takeWhile_dropWhile_id)
  then have t: "?t = strip_by p s @ rev b" unfolding strip_by_def by (metis rev_append rev_rev_ident)
  then have "hd ?t = hd (strip_by p s)" "?t \<noteq> []" using n by (metis hd_append2, simp)
  then show ?thesis using hd_dropWhile by metis
qed

lemma strip_by_id:
  "s \<noteq> [] \<Longrightarrow> \<not> p (hd s) \<Longrightarrow> \<not> p (last s) \<Longrightarrow> strip_by p s = s"
proof -
  assume a: "s \<noteq> []" "\<not> p (hd s)" "\<not> p (last s)"
  have "dropWhile p s = s" using a by (cases s) auto
  moreover have "dropWhile p (rev s) = rev s" using a by (metis dropWhile_eq_self_iff hd_rev)
  ultimately show ?thesis by (simp add: strip_by_def)
qed

lemma lower_safe: "is_bridge_safe c \<Longrightarrow> lower_char c = c"
  by (auto simp: is_bridge_safe_def lower_char_def is_upper_def is_lower_def is_digit_def)

lemma bridge_safe_dash: "is_bridge_safe (CHR ''-'')"
  by (simp add: is_bridge_safe_def)

definition sanitized :: "string \<Rightarrow> bool" where
  "sanitized s \<longleftrightarrow> s \<noteq> [] \<and> list_all is_bridge_safe s \<and> no_dash_pair s
     \<and> hd s \<noteq> CHR ''-'' \<and> last s \<noteq> CHR ''-''"

lemma sanitize_sanitized: "sanitized (sanitize_lab_name s)"
proof -
  let ?a = "sub_runs (\<lambda>c. \<not> is_bridge_safe c) (str_lower s)"
  let ?b = "sub_runs is_dash ?a"
  let ?c = "strip_by is_dash ?b"
  have a: "\<forall>c \<in> set ?a. is_bridge_safe c"
    using set_sub_runs [of "\<lambda>c. \<not> is_bridge_safe c" "str_lower s"] bridge_safe_dash by auto
  have b: "\<forall>c \<in> set ?b. is_bridge_safe c"
    using set_sub_runs [of is_dash ?a] a bridge_safe_dash by auto
  have c: "list_all is_bridge_safe ?c"
    using set_strip_by [of is_dash ?b] b by (auto simp: list_all_iff)
  obtain x y where "?b = x @ ?c @ y" using strip_by_part by blast
  then have d: "no_dash_pair ?c" using no_dash_pair_sub [of ?a] no_dash_pair_append by metis
  have e: "?c \<noteq> [] \<Longrightarrow> hd ?c \<noteq> CHR ''-'' \<and> last ?c \<noteq> CHR ''-''"
    using strip_by_hd [of is_dash ?b] strip_by_last [of is_dash ?b] by blast
  have lab: "sanitized ''lab''"
    by (simp add: sanitized_def is_bridge_safe_def is_lower_def)
  show ?thesis
    using c d e lab by (simp add: sanitize_lab_name_def or_else_def Let_def sanitized_def)
qed

lemma sanitize_id: "sanitized s \<Longrightarrow> sanitize_lab_name s = s"
proof -
  assume s: "sanitized s"
  then have safe: "\<forall>c \<in> set s. is_bridge_safe c" by (simp add: sanitized_def list_all_iff)
  have "str_lower s = s" using safe lower_safe by (simp add: str_lower_def map_idI)
  moreover have "sub_runs (\<lambda>c. \<not> is_bridge_safe c) s = s" using safe by (simp add: sub_runs_id)
  moreover have "sub_runs is_dash s = s" using s by (simp add: sanitized_def sub_dash_id)
  moreover have "strip_by is_dash s = s" using s by (simp add: sanitized_def strip_by_id)
  ultimately show ?thesis using s by (simp add: sanitize_lab_name_def or_else_def Let_def sanitized_def)
qed

section \<open>Unique names\<close>

lemma length_snd_ensure_unique_step:
  "length (snd (fold ensure_unique_step names st)) = length (snd st) + length names"
  by (induction names arbitrary: st)
    (auto simp: ensure_unique_step_def Let_def split: prod.splits option.splits)

lemma ensure_unique_length: "length (ensure_unique names) = length names"
  by (simp add: ensure_unique_def length_snd_ensure_unique_step)

lemma ensure_unique_fresh_run:
  "distinct names \<Longrightarrow> (\<forall>n \<in> set names. dict_get seen n = None) \<Longrightarrow>
     snd (fold ensure_unique_step names (seen, result)) = result @ names"
proof (induction names arbitrary: seen result)
  case (Cons n names)
  have "\<forall>m \<in> set names. dict_get (dict_set n 0 seen) m = None" using Cons.prems by auto
  then show ?case using Cons by (simp add: ensure_unique_step_def)
qed simp

lemma ensure_unique_distinct: "distinct names \<Longrightarrow> ensure_unique names = names"
  by (simp add: ensure_unique_def ensure_unique_fresh_run)

section \<open>Properties\<close>

text \<open>
  Every name that becomes a Linux interface (dataplane and management VXLANs,
  bridges, the VRF, runtime endpoints, warm ports and the real-net devices) has
  between 1 and 15 characters, whatever the lab, device and interface names are.
\<close>

theorem iface_names_fit:
  "\<forall>n \<in> {vxlan_host_iface lab node iface, mgmt_vxlan_iface lab, mgmt_bridge_name lab,
      vrf_name lab, runtime_host_endpoint lab node iface link_id,
      runtime_port_endpoint lab node iface, realnet_bridge_name lab rn,
      realnet_vxlan_iface lab rn, realnet_bridge_iface node iface,
      realnet_router_veth_name lab rn}. fits n"
  by (simp add: fits_cut_names fits_mgmt_names)

theorem iface_names_fit_witness:
  "length (runtime_host_endpoint ''lab'' ''router1'' ''ge-0/0/0'' ''l10'') \<le> 15"
  using iface_names_fit [of "''lab''" "''router1''" "''ge-0/0/0''" "''l10''" "''rn''"]
  by (simp add: fits_def)

text \<open>
  A sanitised lab name is a canonical bridge-safe identifier: it is not empty, uses
  only \<open>[a-z0-9-]\<close>, neither starts nor ends with a dash, has no two dashes in a row, and
  sanitising it again changes nothing.
\<close>

theorem sanitize_lab_name_canonical:
  "sanitized (sanitize_lab_name s) \<and> sanitize_lab_name (sanitize_lab_name s) = sanitize_lab_name s"
  using sanitize_sanitized sanitize_id by blast

text \<open>
  C3: \<open>ensure_unique\<close> returns one name per input name and leaves a list without
  repetitions unchanged, but its suffixed names are not checked against the names that
  are still to come: two devices that share the short name of an interface and a third
  whose own name is that name with the suffix end up with the same host interface.
\<close>

theorem ensure_unique_not_unique:
  "length (ensure_unique names) = length names
   \<and> (distinct names \<longrightarrow> ensure_unique names = names)
   \<and> ensure_unique [''vxabc-r1-e1'', ''vxabc-r1-e1'', ''vxabc-r1-e11'']
       = [''vxabc-r1-e1'', ''vxabc-r1-e11'', ''vxabc-r1-e11'']"
  using ensure_unique_length ensure_unique_distinct
  by (simp add: ensure_unique_def ensure_unique_step_def max_iface_len_def show_nat.simps)

theorem ensure_unique_not_unique_witness:
  "ensure_unique [''a'', ''b''] = [''a'', ''b'']
   \<and> \<not> distinct (ensure_unique [''vxabc-r1-e1'', ''vxabc-r1-e1'', ''vxabc-r1-e11''])"
  using ensure_unique_not_unique [of "[''a'', ''b'']"] by simp

text \<open>
  The name of a runtime endpoint is cut to 15 characters after the link identifier was
  appended, so with a four-character interface name the last character of the identifier is
  lost: the endpoints of links \<open>l10\<close> and \<open>l11\<close> of two devices whose names share their
  first four letters are the same host interface.
\<close>

theorem runtime_host_endpoint_collision:
  "runtime_host_endpoint lab ''router1'' ''ge-0/0/0'' ''l10''
     = runtime_host_endpoint lab ''router2'' ''ge-0/0/0'' ''l11''"
  by (simp add: runtime_host_endpoint_def shorten_iface_def startswith_def is_digit_def is_alnum_def
      is_upper_def is_lower_def or_else_def last_n_def max_iface_len_def Let_def numeral_3_eq_3)

end
