(* ===== verification/Topology.thy ===== *)
theory Topology
  imports Naming
begin

text \<open>
  The data of a lab: \<open>models/topology.py\<close> (what a topology file describes) and
  \<open>models/schedule.py\<close> (where the scheduler puts it), one record per dataclass.
  Untyped YAML or JSON data is a \<open>yvalue\<close>; a float carries its printed form.
\<close>

section \<open>Untyped values\<close>

datatype yvalue =
    VNone | VBool bool | VInt int | VFloat string | VStr string
  | VList "yvalue list" | VDict "(string \<times> yvalue) list"

section \<open>Topology (models/topology.py)\<close>

record vdnode =
  nd_name :: string
  nd_kind :: string
  nd_image :: string
  nd_mgmt_ipv4 :: string
  nd_mgmt_ipv4_explicit :: bool
  nd_env :: "(string, string) dict"
  nd_extra :: "(string, yvalue) dict"
  nd_persist_id :: string

record link =
  lk_source :: string
  lk_source_iface :: string
  lk_target :: string
  lk_target_iface :: string

definition link_str :: "link \<Rightarrow> string" where
  "link_str l = lk_source l @ '':'' @ lk_source_iface l @ '' <-> '' @ lk_target l @ '':'' @ lk_target_iface l"

record real_net =
  rn_name :: string
  rn_ipv4 :: string
  rn_nat :: bool
  rn_bgp :: bool
  rn_bgp_as :: int
  rn_bgp_router_ip :: string
  rn_bgp_password :: string
  rn_import_routers :: "yvalue list"
  rn_description :: string

record real_net_link =
  rl_real_net :: string
  rl_node :: string
  rl_iface :: string
  rl_host :: string
  rl_bridge_iface :: string

record infra_host =
  ih_name :: string
  ih_host :: string
  ih_ssh_user :: string
  ih_ssh_key :: string
  ih_is_master :: bool

record mgmt_config =
  mg_network :: string
  mg_bridge :: string
  mg_ipv4_subnet :: string
  mg_ipv4_gw :: string
  mg_docker_ipv4_gw :: string
  mg_ipv6_subnet :: string
  mg_ipv6_gw :: string

text \<open>
  The part of \<open>DistributedTopology\<close> that the modelled components read: the lab name,
  the hosts, the nodes by name, the links and the management network.
\<close>

record topology =
  tp_name :: string
  tp_master :: infra_host
  tp_workers :: "(string, infra_host) dict"
  tp_nodes :: "(string, vdnode) dict"
  tp_links :: "link list"
  tp_mgmt :: mgmt_config
  tp_real_nets :: "(string, real_net) dict"
  tp_real_net_links :: "real_net_link list"
  tp_resource_specs :: "(string, (string, yvalue) dict) dict"

text \<open>\<open>{"master": self.master, **self.workers}\<close>: a worker named master replaces the master.\<close>

definition all_hosts :: "topology \<Rightarrow> (string, infra_host) dict" where
  "all_hosts t = fold (\<lambda>(k, v). dict_set k v) (tp_workers t) [(''master'', tp_master t)]"

definition all_host_ips :: "topology \<Rightarrow> (string, string) dict" where
  "all_host_ips t = map (\<lambda>(n, h). (n, ih_host h)) (all_hosts t)"

section \<open>Scheduling plan (models/schedule.py)\<close>

record vd_resources =
  vr_name :: string
  vr_image :: string
  vr_cpu :: int
  vr_ram_mb :: int
  vr_cpu_source :: string
  vr_ram_mb_source :: string

definition weight :: "vd_resources \<Rightarrow> int" where
  "weight v = vr_cpu v * vr_ram_mb v"

record host_resources =
  hr_name :: string
  hr_host :: string
  hr_cpu_available :: int
  hr_ram_mb_available :: int
  hr_is_master :: bool

record host_assignment =
  ha_host_name :: string
  ha_host_ip :: string
  ha_vd_names :: "string list"
  ha_cpu_used :: int
  ha_ram_mb_used :: int

text \<open>
  The host fields of a cross-host link hold what \<open>host_for_vd\<close> returned, so they can be
  \<^const>\<open>None\<close> in a plan built by \<open>compute_schedule\<close>.
\<close>

record cross_host_link =
  ch_vxlan_id :: nat
  ch_source_node :: string
  ch_source_iface :: string
  ch_target_node :: string
  ch_target_iface :: string
  ch_source_host :: "string option"
  ch_target_host :: "string option"
  ch_source_host_iface :: string
  ch_target_host_iface :: string

record schedule_plan =
  sp_lab_name :: string
  sp_assignments :: "(string, host_assignment) dict"
  sp_cross_host_links :: "cross_host_link list"
  sp_local_links :: "link list"
  sp_vrf_table_id :: nat
  sp_mgmt_vxlan_id :: nat

definition host_for_vd :: "(string, host_assignment) dict \<Rightarrow> string \<Rightarrow> string option" where
  "host_for_vd assignments vd =
     map_option fst (find (\<lambda>(h, a). vd \<in> set (ha_vd_names a)) assignments)"

lemma host_for_vd_Some:
  "host_for_vd asg vd = Some h \<Longrightarrow> \<exists>a. (h, a) \<in> set asg \<and> vd \<in> set (ha_vd_names a)"
  by (auto simp: host_for_vd_def find_Some_iff) (metis nth_mem)

lemma host_for_vd_None:
  "host_for_vd asg vd = None \<longleftrightarrow> (\<forall>(h, a) \<in> set asg. vd \<notin> set (ha_vd_names a))"
  by (auto simp: host_for_vd_def find_None_iff)

lemma dict_ok_all_hosts: "dict_ok (all_hosts t)"
proof -
  have "dict_ok d \<Longrightarrow> dict_ok (fold (\<lambda>(k, v). dict_set k v) kvs d)"
    for kvs :: "(string \<times> infra_host) list" and d
    by (induction kvs arbitrary: d) auto
  then show ?thesis by (simp add: all_hosts_def)
qed

end
