(* ===== verification/State.thy ===== *)
theory State
  imports Topology
begin

text \<open>
  The deployment state of a lab, \<open>models/state.py\<close>: one record per dataclass, the conversion to
  a JSON document (\<open>to_dict\<close>) and back (\<open>from_dict\<close>), with the defaults, the rejected keyword
  arguments and the upgrades of documents that older versions wrote. Python stores a value of
  another JSON type than the field's annotation unchecked; here it is the error \<open>IllTyped\<close>.
\<close>

section \<open>The state\<close>

record mgmt_state =
  mst_subnet :: string
  mst_gateway :: string
  mst_bridge :: string
  mst_vrf :: string
  mst_vxlan_id :: int
  mst_vxlan_iface :: string

record jumphost_state =
  jst_node :: string
  jst_container :: string
  jst_mgmt_ip :: string
  jst_host_ip :: string
  jst_ext_network :: string
  jst_password :: string
  jst_resolver :: string
  jst_ssh_port :: int
  jst_ssh_bind_ip :: string

record dns_state =
  dst_node :: string
  dst_container :: string
  dst_mgmt_ip :: string
  dst_upstream :: "string list"
  dst_hosts_file :: string
  dst_entries :: int

record runtime_relay_state =
  rst_host :: string
  rst_container :: string
  rst_bind_ip :: string
  rst_port :: int
  rst_api_key :: string
  rst_allowed :: "string list"

record host_schedule_state =
  hst_host :: string
  hst_topology_file :: string
  hst_vd :: "string list"
  hst_resources_used :: "(string, int) dict"

record vxlan_link_state =
  vst_id :: int
  vst_link :: string
  vst_side_a :: "(string, string) dict"
  vst_side_b :: "(string, string) dict"
  vst_status :: string

record node_runtime_state =
  nst_node :: string
  nst_state :: string
  nst_host :: string
  nst_container :: string
  nst_topology_file :: string
  nst_kind :: string
  nst_image :: string
  nst_mgmt_ipv4 :: string
  nst_started_at :: string
  nst_last_error :: string
  nst_warm_ports :: int
  nst_hot_links_status :: string

record mgmt_anchor_state =
  ast_host :: string
  ast_container :: string
  ast_topology_file :: string
  ast_state :: string

record runtime_link_state =
  lst_id :: string
  lst_link_type :: string
  lst_endpoint_a :: "(string, string) dict"
  lst_endpoint_b :: "(string, string) dict"
  lst_host_a :: string
  lst_host_b :: string
  lst_host_endpoint_a :: string
  lst_host_endpoint_b :: string
  lst_container_a :: string
  lst_container_b :: string
  lst_warm_a :: bool
  lst_warm_b :: bool
  lst_vxlan_id :: int
  lst_state :: string
  lst_last_error :: string
  lst_validation_error :: bool

record webui_allocation =
  wst_container_port :: int
  wst_host_port :: int
  wst_bind_ip :: string
  wst_proto :: string

record real_net_state =
  rnst_name :: string
  rnst_bridge :: string
  rnst_vxlan_id :: int
  rnst_hosts :: "string list"
  rnst_router_container :: string
  rnst_router_wan_ip :: string
  rnst_lan_ipv4 :: string
  rnst_nat :: bool
  rnst_bgp :: bool
  rnst_bgp_as :: int
  rnst_bgp_router_ip :: string
record deployment_state =
  dep_lab_name :: string
  dep_topology_file :: string
  dep_deployed_at :: string
  dep_dnlab_deployed :: bool
  dep_runtime_mode :: string
  dep_vrf_table_id :: int
  dep_mgmt :: "mgmt_state option"
  dep_jumphost :: "jumphost_state option"
  dep_dns :: "dns_state option"
  dep_runtime_relays :: "(string, runtime_relay_state) dict"
  dep_scheduling :: "(string, host_schedule_state) dict"
  dep_vxlan_dataplane :: "vxlan_link_state list"
  dep_mgmt_anchors :: "(string, mgmt_anchor_state) dict"
  dep_node_runtime :: "(string, node_runtime_state) dict"
  dep_runtime_links :: "runtime_link_state list"
  dep_webui_allocations :: "(string, webui_allocation list) dict"
  dep_mgmt_ip_reservations :: "(string, string) dict"
  dep_realnets :: "real_net_state list"
  dep_phases_completed :: "string list"

section \<open>Reading JSON values\<close>

datatype state_error = MissingKey string | UnexpectedArg | IllTyped

fun as_str :: "yvalue \<Rightarrow> state_error + string" where
  "as_str (VStr s) = Inr s"
| "as_str _ = Inl IllTyped"

fun as_int :: "yvalue \<Rightarrow> state_error + int" where
  "as_int (VInt i) = Inr i"
| "as_int _ = Inl IllTyped"

fun as_bool :: "yvalue \<Rightarrow> state_error + bool" where
  "as_bool (VBool b) = Inr b"
| "as_bool _ = Inl IllTyped"

fun mapE :: "('a \<Rightarrow> 'e + 'b) \<Rightarrow> 'a list \<Rightarrow> 'e + 'b list" where
  "mapE f [] = Inr []"
| "mapE f (x # xs) = bindE (f x) (\<lambda>y. bindE (mapE f xs) (\<lambda>ys. Inr (y # ys)))"

fun as_list :: "(yvalue \<Rightarrow> state_error + 'a) \<Rightarrow> yvalue \<Rightarrow> state_error + 'a list" where
  "as_list f (VList vs) = mapE f vs"
| "as_list f _ = Inl IllTyped"

fun as_dict :: "(yvalue \<Rightarrow> state_error + 'a) \<Rightarrow> yvalue \<Rightarrow> state_error + (string, 'a) dict" where
  "as_dict f (VDict d) = mapE (\<lambda>(k, v). bindE (f v) (\<lambda>a. Inr (k, a))) d"
| "as_dict f _ = Inl IllTyped"

text \<open>\<open>Cls(**m)\<close>: the document is a dictionary of keyword arguments.\<close>

fun as_kw :: "((string, yvalue) dict \<Rightarrow> state_error + 'a) \<Rightarrow> yvalue \<Rightarrow> state_error + 'a" where
  "as_kw f (VDict d) = f d"
| "as_kw f _ = Inl IllTyped"

definition field :: "string \<Rightarrow> (yvalue \<Rightarrow> state_error + 'a) \<Rightarrow> (string, yvalue) dict \<Rightarrow> state_error + 'a" where
  "field k f d = (case dict_get d k of None \<Rightarrow> Inl (MissingKey k) | Some v \<Rightarrow> f v)"

definition field_or :: "string \<Rightarrow> (yvalue \<Rightarrow> state_error + 'a) \<Rightarrow> 'a \<Rightarrow> (string, yvalue) dict \<Rightarrow> state_error + 'a" where
  "field_or k f x d = (case dict_get d k of None \<Rightarrow> Inr x | Some v \<Rightarrow> f v)"

definition check_kw :: "string list \<Rightarrow> (string, yvalue) dict \<Rightarrow> state_error + 'a \<Rightarrow> state_error + 'a" where
  "check_kw names d r = (if list_all (\<lambda>kv. fst kv \<in> set names) d then r else Inl UnexpectedArg)"

text \<open>Truth of a JSON value; \<open>d.get(k) or {}\<close> replaces every false value.\<close>

fun truthy :: "yvalue \<Rightarrow> bool" where
  "truthy VNone = False"
| "truthy (VBool b) = b"
| "truthy (VInt i) = (i \<noteq> 0)"
| "truthy (VFloat s) = (s \<noteq> ''0.0'' \<and> s \<noteq> ''-0.0'')"
| "truthy (VStr s) = (s \<noteq> [])"
| "truthy (VList vs) = (vs \<noteq> [])"
| "truthy (VDict d) = (d \<noteq> [])"

definition field_true :: "string \<Rightarrow> (yvalue \<Rightarrow> state_error + 'a) \<Rightarrow> 'a \<Rightarrow> (string, yvalue) dict \<Rightarrow> state_error + 'a" where
  "field_true k f x d = (case dict_get d k of None \<Rightarrow> Inr x | Some v \<Rightarrow> if truthy v then f v else Inr x)"

section \<open>Conversions of the parts\<close>

definition enc_list :: "('a \<Rightarrow> yvalue) \<Rightarrow> 'a list \<Rightarrow> yvalue" where
  "enc_list f xs = VList (map f xs)"

definition enc_dict :: "('a \<Rightarrow> yvalue) \<Rightarrow> (string, 'a) dict \<Rightarrow> yvalue" where
  "enc_dict f d = VDict (map (\<lambda>(k, a). (k, f a)) d)"

definition enc_option :: "('a \<Rightarrow> yvalue) \<Rightarrow> 'a option \<Rightarrow> yvalue" where
  "enc_option f x = (case x of None \<Rightarrow> VNone | Some a \<Rightarrow> f a)"

definition enc_mgmt_state :: "mgmt_state \<Rightarrow> yvalue" where
  "enc_mgmt_state x = VDict
     [(''subnet'', VStr (mst_subnet x)),
      (''gateway'', VStr (mst_gateway x)),
      (''bridge'', VStr (mst_bridge x)),
      (''vrf'', VStr (mst_vrf x)),
      (''vxlan_id'', VInt (mst_vxlan_id x)),
      (''vxlan_iface'', VStr (mst_vxlan_iface x))]"

definition dec_mgmt_state :: "(string, yvalue) dict \<Rightarrow> state_error + mgmt_state" where
  "dec_mgmt_state d = check_kw
     [''subnet'', ''gateway'', ''bridge'', ''vrf'', ''vxlan_id'', ''vxlan_iface''] d (
     bindE (field ''subnet'' as_str d) (\<lambda>f0.
     bindE (field ''gateway'' as_str d) (\<lambda>f1.
     bindE (field ''bridge'' as_str d) (\<lambda>f2.
     bindE (field ''vrf'' as_str d) (\<lambda>f3.
     bindE (field ''vxlan_id'' as_int d) (\<lambda>f4.
     bindE (field ''vxlan_iface'' as_str d) (\<lambda>f5.
     Inr \<lparr>mst_subnet = f0, mst_gateway = f1, mst_bridge = f2, mst_vrf = f3, mst_vxlan_id = f4, mst_vxlan_iface = f5\<rparr>)))))))"

definition enc_jumphost_state :: "jumphost_state \<Rightarrow> yvalue" where
  "enc_jumphost_state x = VDict
     [(''node'', VStr (jst_node x)),
      (''container'', VStr (jst_container x)),
      (''mgmt_ip'', VStr (jst_mgmt_ip x)),
      (''host_ip'', VStr (jst_host_ip x)),
      (''ext_network'', VStr (jst_ext_network x)),
      (''password'', VStr (jst_password x)),
      (''resolver'', VStr (jst_resolver x)),
      (''ssh_port'', VInt (jst_ssh_port x)),
      (''ssh_bind_ip'', VStr (jst_ssh_bind_ip x))]"

definition dec_jumphost_state :: "(string, yvalue) dict \<Rightarrow> state_error + jumphost_state" where
  "dec_jumphost_state d = check_kw
     [''node'', ''container'', ''mgmt_ip'', ''host_ip'', ''ext_network'', ''password'', ''resolver'', ''ssh_port'', ''ssh_bind_ip''] d (
     bindE (field ''node'' as_str d) (\<lambda>f0.
     bindE (field ''container'' as_str d) (\<lambda>f1.
     bindE (field ''mgmt_ip'' as_str d) (\<lambda>f2.
     bindE (field ''host_ip'' as_str d) (\<lambda>f3.
     bindE (field ''ext_network'' as_str d) (\<lambda>f4.
     bindE (field_or ''password'' as_str [] d) (\<lambda>f5.
     bindE (field_or ''resolver'' as_str [] d) (\<lambda>f6.
     bindE (field_or ''ssh_port'' as_int 0 d) (\<lambda>f7.
     bindE (field_or ''ssh_bind_ip'' as_str [] d) (\<lambda>f8.
     Inr \<lparr>jst_node = f0, jst_container = f1, jst_mgmt_ip = f2, jst_host_ip = f3, jst_ext_network = f4, jst_password = f5, jst_resolver = f6, jst_ssh_port = f7, jst_ssh_bind_ip = f8\<rparr>))))))))))"

definition enc_dns_state :: "dns_state \<Rightarrow> yvalue" where
  "enc_dns_state x = VDict
     [(''node'', VStr (dst_node x)),
      (''container'', VStr (dst_container x)),
      (''mgmt_ip'', VStr (dst_mgmt_ip x)),
      (''upstream'', enc_list VStr (dst_upstream x)),
      (''hosts_file'', VStr (dst_hosts_file x)),
      (''entries'', VInt (dst_entries x))]"

definition dec_dns_state :: "(string, yvalue) dict \<Rightarrow> state_error + dns_state" where
  "dec_dns_state d = check_kw
     [''node'', ''container'', ''mgmt_ip'', ''upstream'', ''hosts_file'', ''entries''] d (
     bindE (field ''node'' as_str d) (\<lambda>f0.
     bindE (field ''container'' as_str d) (\<lambda>f1.
     bindE (field ''mgmt_ip'' as_str d) (\<lambda>f2.
     bindE (field_or ''upstream'' (as_list as_str) [] d) (\<lambda>f3.
     bindE (field_or ''hosts_file'' as_str [] d) (\<lambda>f4.
     bindE (field_or ''entries'' as_int 0 d) (\<lambda>f5.
     Inr \<lparr>dst_node = f0, dst_container = f1, dst_mgmt_ip = f2, dst_upstream = f3, dst_hosts_file = f4, dst_entries = f5\<rparr>)))))))"

definition enc_runtime_relay_state :: "runtime_relay_state \<Rightarrow> yvalue" where
  "enc_runtime_relay_state x = VDict
     [(''host'', VStr (rst_host x)),
      (''container'', VStr (rst_container x)),
      (''bind_ip'', VStr (rst_bind_ip x)),
      (''port'', VInt (rst_port x)),
      (''api_key'', VStr (rst_api_key x)),
      (''allowed'', enc_list VStr (rst_allowed x))]"

definition dec_runtime_relay_state :: "(string, yvalue) dict \<Rightarrow> state_error + runtime_relay_state" where
  "dec_runtime_relay_state d = check_kw
     [''host'', ''container'', ''bind_ip'', ''port'', ''api_key'', ''allowed''] d (
     bindE (field ''host'' as_str d) (\<lambda>f0.
     bindE (field ''container'' as_str d) (\<lambda>f1.
     bindE (field ''bind_ip'' as_str d) (\<lambda>f2.
     bindE (field ''port'' as_int d) (\<lambda>f3.
     bindE (field_or ''api_key'' as_str [] d) (\<lambda>f4.
     bindE (field_or ''allowed'' (as_list as_str) [] d) (\<lambda>f5.
     Inr \<lparr>rst_host = f0, rst_container = f1, rst_bind_ip = f2, rst_port = f3, rst_api_key = f4, rst_allowed = f5\<rparr>)))))))"

definition enc_host_schedule_state :: "host_schedule_state \<Rightarrow> yvalue" where
  "enc_host_schedule_state x = VDict
     [(''host'', VStr (hst_host x)),
      (''topology_file'', VStr (hst_topology_file x)),
      (''vd'', enc_list VStr (hst_vd x)),
      (''resources_used'', enc_dict VInt (hst_resources_used x))]"

definition dec_host_schedule_state :: "(string, yvalue) dict \<Rightarrow> state_error + host_schedule_state" where
  "dec_host_schedule_state d = check_kw
     [''host'', ''topology_file'', ''vd'', ''resources_used''] d (
     bindE (field ''host'' as_str d) (\<lambda>f0.
     bindE (field ''topology_file'' as_str d) (\<lambda>f1.
     bindE (field_or ''vd'' (as_list as_str) [] d) (\<lambda>f2.
     bindE (field_or ''resources_used'' (as_dict as_int) [] d) (\<lambda>f3.
     Inr \<lparr>hst_host = f0, hst_topology_file = f1, hst_vd = f2, hst_resources_used = f3\<rparr>)))))"

definition enc_vxlan_link_state :: "vxlan_link_state \<Rightarrow> yvalue" where
  "enc_vxlan_link_state x = VDict
     [(''id'', VInt (vst_id x)),
      (''link'', VStr (vst_link x)),
      (''side_a'', enc_dict VStr (vst_side_a x)),
      (''side_b'', enc_dict VStr (vst_side_b x)),
      (''status'', VStr (vst_status x))]"

definition dec_vxlan_link_state :: "(string, yvalue) dict \<Rightarrow> state_error + vxlan_link_state" where
  "dec_vxlan_link_state d = check_kw
     [''id'', ''link'', ''side_a'', ''side_b'', ''status''] d (
     bindE (field ''id'' as_int d) (\<lambda>f0.
     bindE (field ''link'' as_str d) (\<lambda>f1.
     bindE (field_or ''side_a'' (as_dict as_str) [] d) (\<lambda>f2.
     bindE (field_or ''side_b'' (as_dict as_str) [] d) (\<lambda>f3.
     bindE (field_or ''status'' as_str ''unknown'' d) (\<lambda>f4.
     Inr \<lparr>vst_id = f0, vst_link = f1, vst_side_a = f2, vst_side_b = f3, vst_status = f4\<rparr>))))))"

definition enc_node_runtime_state :: "node_runtime_state \<Rightarrow> yvalue" where
  "enc_node_runtime_state x = VDict
     [(''node'', VStr (nst_node x)),
      (''state'', VStr (nst_state x)),
      (''host'', VStr (nst_host x)),
      (''container'', VStr (nst_container x)),
      (''topology_file'', VStr (nst_topology_file x)),
      (''kind'', VStr (nst_kind x)),
      (''image'', VStr (nst_image x)),
      (''mgmt_ipv4'', VStr (nst_mgmt_ipv4 x)),
      (''started_at'', VStr (nst_started_at x)),
      (''last_error'', VStr (nst_last_error x)),
      (''warm_ports'', VInt (nst_warm_ports x)),
      (''hot_links_status'', VStr (nst_hot_links_status x))]"

definition dec_node_runtime_state :: "(string, yvalue) dict \<Rightarrow> state_error + node_runtime_state" where
  "dec_node_runtime_state d = check_kw
     [''node'', ''state'', ''host'', ''container'', ''topology_file'', ''kind'', ''image'', ''mgmt_ipv4'', ''started_at'', ''last_error'', ''warm_ports'', ''hot_links_status''] d (
     bindE (field ''node'' as_str d) (\<lambda>f0.
     bindE (field_or ''state'' as_str ''running'' d) (\<lambda>f1.
     bindE (field_or ''host'' as_str [] d) (\<lambda>f2.
     bindE (field_or ''container'' as_str [] d) (\<lambda>f3.
     bindE (field_or ''topology_file'' as_str [] d) (\<lambda>f4.
     bindE (field_or ''kind'' as_str [] d) (\<lambda>f5.
     bindE (field_or ''image'' as_str [] d) (\<lambda>f6.
     bindE (field_or ''mgmt_ipv4'' as_str [] d) (\<lambda>f7.
     bindE (field_or ''started_at'' as_str [] d) (\<lambda>f8.
     bindE (field_or ''last_error'' as_str [] d) (\<lambda>f9.
     bindE (field_or ''warm_ports'' as_int 0 d) (\<lambda>f10.
     bindE (field_or ''hot_links_status'' as_str ''unsupported'' d) (\<lambda>f11.
     Inr \<lparr>nst_node = f0, nst_state = f1, nst_host = f2, nst_container = f3, nst_topology_file = f4, nst_kind = f5, nst_image = f6, nst_mgmt_ipv4 = f7, nst_started_at = f8, nst_last_error = f9, nst_warm_ports = f10, nst_hot_links_status = f11\<rparr>)))))))))))))"

definition enc_mgmt_anchor_state :: "mgmt_anchor_state \<Rightarrow> yvalue" where
  "enc_mgmt_anchor_state x = VDict
     [(''host'', VStr (ast_host x)),
      (''container'', VStr (ast_container x)),
      (''topology_file'', VStr (ast_topology_file x)),
      (''state'', VStr (ast_state x))]"

definition dec_mgmt_anchor_state :: "(string, yvalue) dict \<Rightarrow> state_error + mgmt_anchor_state" where
  "dec_mgmt_anchor_state d = check_kw
     [''host'', ''container'', ''topology_file'', ''state''] d (
     bindE (field_or ''host'' as_str [] d) (\<lambda>f0.
     bindE (field_or ''container'' as_str [] d) (\<lambda>f1.
     bindE (field_or ''topology_file'' as_str [] d) (\<lambda>f2.
     bindE (field_or ''state'' as_str ''running'' d) (\<lambda>f3.
     Inr \<lparr>ast_host = f0, ast_container = f1, ast_topology_file = f2, ast_state = f3\<rparr>)))))"

definition enc_runtime_link_state :: "runtime_link_state \<Rightarrow> yvalue" where
  "enc_runtime_link_state x = VDict
     [(''id'', VStr (lst_id x)),
      (''link_type'', VStr (lst_link_type x)),
      (''endpoint_a'', enc_dict VStr (lst_endpoint_a x)),
      (''endpoint_b'', enc_dict VStr (lst_endpoint_b x)),
      (''host_a'', VStr (lst_host_a x)),
      (''host_b'', VStr (lst_host_b x)),
      (''host_endpoint_a'', VStr (lst_host_endpoint_a x)),
      (''host_endpoint_b'', VStr (lst_host_endpoint_b x)),
      (''container_a'', VStr (lst_container_a x)),
      (''container_b'', VStr (lst_container_b x)),
      (''warm_a'', VBool (lst_warm_a x)),
      (''warm_b'', VBool (lst_warm_b x)),
      (''vxlan_id'', VInt (lst_vxlan_id x)),
      (''state'', VStr (lst_state x)),
      (''last_error'', VStr (lst_last_error x)),
      (''validation_error'', VBool (lst_validation_error x))]"

definition dec_runtime_link_state :: "(string, yvalue) dict \<Rightarrow> state_error + runtime_link_state" where
  "dec_runtime_link_state d = check_kw
     [''id'', ''link_type'', ''endpoint_a'', ''endpoint_b'', ''host_a'', ''host_b'', ''host_endpoint_a'', ''host_endpoint_b'', ''container_a'', ''container_b'', ''warm_a'', ''warm_b'', ''vxlan_id'', ''state'', ''last_error'', ''validation_error''] d (
     bindE (field ''id'' as_str d) (\<lambda>f0.
     bindE (field ''link_type'' as_str d) (\<lambda>f1.
     bindE (field_or ''endpoint_a'' (as_dict as_str) [] d) (\<lambda>f2.
     bindE (field_or ''endpoint_b'' (as_dict as_str) [] d) (\<lambda>f3.
     bindE (field_or ''host_a'' as_str [] d) (\<lambda>f4.
     bindE (field_or ''host_b'' as_str [] d) (\<lambda>f5.
     bindE (field_or ''host_endpoint_a'' as_str [] d) (\<lambda>f6.
     bindE (field_or ''host_endpoint_b'' as_str [] d) (\<lambda>f7.
     bindE (field_or ''container_a'' as_str [] d) (\<lambda>f8.
     bindE (field_or ''container_b'' as_str [] d) (\<lambda>f9.
     bindE (field_or ''warm_a'' as_bool False d) (\<lambda>f10.
     bindE (field_or ''warm_b'' as_bool False d) (\<lambda>f11.
     bindE (field_or ''vxlan_id'' as_int 0 d) (\<lambda>f12.
     bindE (field_or ''state'' as_str ''down'' d) (\<lambda>f13.
     bindE (field_or ''last_error'' as_str [] d) (\<lambda>f14.
     bindE (field_or ''validation_error'' as_bool False d) (\<lambda>f15.
     Inr \<lparr>lst_id = f0, lst_link_type = f1, lst_endpoint_a = f2, lst_endpoint_b = f3, lst_host_a = f4, lst_host_b = f5, lst_host_endpoint_a = f6, lst_host_endpoint_b = f7, lst_container_a = f8, lst_container_b = f9, lst_warm_a = f10, lst_warm_b = f11, lst_vxlan_id = f12, lst_state = f13, lst_last_error = f14, lst_validation_error = f15\<rparr>)))))))))))))))))"

definition enc_webui_allocation :: "webui_allocation \<Rightarrow> yvalue" where
  "enc_webui_allocation x = VDict
     [(''container_port'', VInt (wst_container_port x)),
      (''host_port'', VInt (wst_host_port x)),
      (''bind_ip'', VStr (wst_bind_ip x)),
      (''proto'', VStr (wst_proto x))]"

definition dec_webui_allocation :: "(string, yvalue) dict \<Rightarrow> state_error + webui_allocation" where
  "dec_webui_allocation d = check_kw
     [''container_port'', ''host_port'', ''bind_ip'', ''proto''] d (
     bindE (field ''container_port'' as_int d) (\<lambda>f0.
     bindE (field ''host_port'' as_int d) (\<lambda>f1.
     bindE (field_or ''bind_ip'' as_str ''127.0.0.1'' d) (\<lambda>f2.
     bindE (field_or ''proto'' as_str ''tcp'' d) (\<lambda>f3.
     Inr \<lparr>wst_container_port = f0, wst_host_port = f1, wst_bind_ip = f2, wst_proto = f3\<rparr>)))))"

definition enc_real_net_state :: "real_net_state \<Rightarrow> yvalue" where
  "enc_real_net_state x = VDict
     [(''name'', VStr (rnst_name x)),
      (''bridge'', VStr (rnst_bridge x)),
      (''vxlan_id'', VInt (rnst_vxlan_id x)),
      (''hosts'', enc_list VStr (rnst_hosts x)),
      (''router_container'', VStr (rnst_router_container x)),
      (''router_wan_ip'', VStr (rnst_router_wan_ip x)),
      (''lan_ipv4'', VStr (rnst_lan_ipv4 x)),
      (''nat'', VBool (rnst_nat x)),
      (''bgp'', VBool (rnst_bgp x)),
      (''bgp_as'', VInt (rnst_bgp_as x)),
      (''bgp_router_ip'', VStr (rnst_bgp_router_ip x))]"

definition dec_real_net_state :: "(string, yvalue) dict \<Rightarrow> state_error + real_net_state" where
  "dec_real_net_state d = check_kw
     [''name'', ''bridge'', ''vxlan_id'', ''hosts'', ''router_container'', ''router_wan_ip'', ''lan_ipv4'', ''nat'', ''bgp'', ''bgp_as'', ''bgp_router_ip''] d (
     bindE (field ''name'' as_str d) (\<lambda>f0.
     bindE (field ''bridge'' as_str d) (\<lambda>f1.
     bindE (field ''vxlan_id'' as_int d) (\<lambda>f2.
     bindE (field_or ''hosts'' (as_list as_str) [] d) (\<lambda>f3.
     bindE (field_or ''router_container'' as_str [] d) (\<lambda>f4.
     bindE (field_or ''router_wan_ip'' as_str [] d) (\<lambda>f5.
     bindE (field_or ''lan_ipv4'' as_str [] d) (\<lambda>f6.
     bindE (field_or ''nat'' as_bool True d) (\<lambda>f7.
     bindE (field_or ''bgp'' as_bool False d) (\<lambda>f8.
     bindE (field_or ''bgp_as'' as_int 0 d) (\<lambda>f9.
     bindE (field_or ''bgp_router_ip'' as_str [] d) (\<lambda>f10.
     Inr \<lparr>rnst_name = f0, rnst_bridge = f1, rnst_vxlan_id = f2, rnst_hosts = f3, rnst_router_container = f4, rnst_router_wan_ip = f5, rnst_lan_ipv4 = f6, rnst_nat = f7, rnst_bgp = f8, rnst_bgp_as = f9, rnst_bgp_router_ip = f10\<rparr>))))))))))))"

section \<open>The whole document\<close>

definition to_dict :: "deployment_state \<Rightarrow> (string, yvalue) dict" where
  "to_dict s =
     [(''lab_name'', VStr (dep_lab_name s)),
      (''topology_file'', VStr (dep_topology_file s)),
      (''deployed_at'', VStr (dep_deployed_at s)),
      (''dnlab_deployed'', VBool (dep_dnlab_deployed s)),
      (''runtime_mode'', VStr (dep_runtime_mode s)),
      (''vrf_table_id'', VInt (dep_vrf_table_id s)),
      (''mgmt'', enc_option enc_mgmt_state (dep_mgmt s)),
      (''jumphost'', enc_option enc_jumphost_state (dep_jumphost s)),
      (''dns'', enc_option enc_dns_state (dep_dns s)),
      (''runtime_relays'', enc_dict enc_runtime_relay_state (dep_runtime_relays s)),
      (''scheduling'', enc_dict enc_host_schedule_state (dep_scheduling s)),
      (''vxlan_dataplane'', enc_list enc_vxlan_link_state (dep_vxlan_dataplane s)),
      (''mgmt_anchors'', enc_dict enc_mgmt_anchor_state (dep_mgmt_anchors s)),
      (''node_runtime'', enc_dict enc_node_runtime_state (dep_node_runtime s)),
      (''runtime_links'', enc_list enc_runtime_link_state (dep_runtime_links s)),
      (''webui_allocations'', enc_dict (enc_list enc_webui_allocation) (dep_webui_allocations s)),
      (''mgmt_ip_reservations'', enc_dict VStr (dep_mgmt_ip_reservations s)),
      (''realnets'', enc_list enc_real_net_state (dep_realnets s)),
      (''phases_completed'', enc_list VStr (dep_phases_completed s))]"

text \<open>Documents of older versions call \<open>bgp\<close> \<open>ospf\<close> and have an \<open>ospf_area\<close>.\<close>

definition upgrade_realnet :: "(string, yvalue) dict \<Rightarrow> (string, yvalue) dict" where
  "upgrade_realnet rn =
     (let rn1 = (case dict_get rn ''ospf'' of
            Some v \<Rightarrow> if dict_get rn ''bgp'' = None
                      then dict_set ''bgp'' (VBool (truthy v)) (dict_pop ''ospf'' rn) else rn
          | None \<Rightarrow> rn)
      in dict_pop ''ospf_area'' rn1)"

text \<open>\<open>_populate_legacy_node_runtime\<close>.\<close>

definition legacy_runtime :: "string \<Rightarrow> string \<Rightarrow> host_schedule_state \<Rightarrow> string \<Rightarrow> node_runtime_state" where
  "legacy_runtime lab host_name schedule node =
     \<lparr>nst_node = node, nst_state = ''running'', nst_host = host_name,
      nst_container = vd_container_name lab node, nst_topology_file = hst_topology_file schedule,
      nst_kind = [], nst_image = [], nst_mgmt_ipv4 = [], nst_started_at = [], nst_last_error = [],
      nst_warm_ports = 0, nst_hot_links_status = ''unsupported''\<rparr>"

definition populate_legacy_node_runtime ::
  "string \<Rightarrow> (string, host_schedule_state) dict \<Rightarrow> (string, node_runtime_state) dict" where
  "populate_legacy_node_runtime lab scheduling =
     dict_of (concat (map (\<lambda>(host_name, schedule).
       map (\<lambda>node. (node, legacy_runtime lab host_name schedule node)) (hst_vd schedule)) scheduling))"

text \<open>The upgrades at the end of \<open>from_dict\<close>.\<close>

definition upgrade_state :: "deployment_state \<Rightarrow> deployment_state" where
  "upgrade_state s =
     (let s1 = (if dep_node_runtime s = []
            then s\<lparr>dep_node_runtime := populate_legacy_node_runtime (dep_lab_name s) (dep_scheduling s)\<rparr> else s);
          s2 = (if dep_runtime_mode s1 = [] \<and> dep_node_runtime s1 \<noteq> []
            then s1\<lparr>dep_runtime_mode :=
                (if list_all (\<lambda>kv. startswith (nst_container (snd kv)) (''clab-dnlab-'' @ dep_lab_name s1 @ ''-''))
                      (dep_node_runtime s1) then ''per-vd'' else ''legacy'')\<rparr> else s1)
      in if dep_mgmt_ip_reservations s2 = []
         then s2\<lparr>dep_mgmt_ip_reservations :=
             map (\<lambda>(node, runtime). (node, nst_mgmt_ipv4 runtime))
               (filter (\<lambda>kv. nst_mgmt_ipv4 (snd kv) \<noteq> []) (dep_node_runtime s2))\<rparr> else s2)"

definition from_dict :: "(string, yvalue) dict \<Rightarrow> state_error + deployment_state" where
  "from_dict d =
     bindE (field ''lab_name'' as_str d) (\<lambda>lab_name.
     bindE (field ''topology_file'' as_str d) (\<lambda>topology_file.
     bindE (field_or ''deployed_at'' as_str [] d) (\<lambda>deployed_at.
     bindE (field_or ''dnlab_deployed'' as_bool True d) (\<lambda>dnlab_deployed.
     bindE (field_or ''runtime_mode'' as_str [] d) (\<lambda>runtime_mode.
     bindE (field_or ''vrf_table_id'' as_int 0 d) (\<lambda>vrf_table_id.
     bindE (field_or ''phases_completed'' (as_list as_str) [] d) (\<lambda>phases_completed.
     bindE (field_true ''mgmt'' (\<lambda>v. map_sum id Some (as_kw dec_mgmt_state v)) None d) (\<lambda>mgmt.
     bindE (field_true ''jumphost'' (\<lambda>v. map_sum id Some (as_kw dec_jumphost_state v)) None d) (\<lambda>jumphost.
     bindE (field_true ''dns'' (\<lambda>v. map_sum id Some (as_kw dec_dns_state v)) None d) (\<lambda>dns.
     bindE (field_or ''runtime_relays'' (as_dict (as_kw dec_runtime_relay_state)) [] d) (\<lambda>runtime_relays.
     bindE (field_or ''scheduling'' (as_dict (as_kw dec_host_schedule_state)) [] d) (\<lambda>scheduling.
     bindE (field_or ''vxlan_dataplane'' (as_list (as_kw dec_vxlan_link_state)) [] d) (\<lambda>vxlan_dataplane.
     bindE (field_true ''mgmt_anchors'' (as_dict (as_kw dec_mgmt_anchor_state)) [] d) (\<lambda>mgmt_anchors.
     bindE (field_true ''node_runtime'' (as_dict (as_kw dec_node_runtime_state)) [] d) (\<lambda>node_runtime.
     bindE (field_or ''runtime_links'' (as_list (as_kw dec_runtime_link_state)) [] d) (\<lambda>runtime_links.
     bindE (field_true ''webui_allocations'' (as_dict (as_list (as_kw dec_webui_allocation))) [] d) (\<lambda>webui_allocations.
     bindE (field_true ''mgmt_ip_reservations'' (as_dict as_str) [] d) (\<lambda>mgmt_ip_reservations.
     bindE (field_or ''realnets'' (as_list (as_kw (\<lambda>rn. dec_real_net_state (upgrade_realnet rn)))) [] d) (\<lambda>realnets.
     Inr (upgrade_state
       \<lparr>dep_lab_name = lab_name, dep_topology_file = topology_file, dep_deployed_at = deployed_at,
        dep_dnlab_deployed = dnlab_deployed, dep_runtime_mode = runtime_mode, dep_vrf_table_id = vrf_table_id,
        dep_mgmt = mgmt, dep_jumphost = jumphost, dep_dns = dns, dep_runtime_relays = runtime_relays,
        dep_scheduling = scheduling, dep_vxlan_dataplane = vxlan_dataplane, dep_mgmt_anchors = mgmt_anchors,
        dep_node_runtime = node_runtime, dep_runtime_links = runtime_links,
        dep_webui_allocations = webui_allocations, dep_mgmt_ip_reservations = mgmt_ip_reservations,
        dep_realnets = realnets, dep_phases_completed = phases_completed\<rparr>))))))))))))))))))))"

section \<open>Decoding inverts encoding\<close>

lemma mapE_enc: "(\<And>x. x \<in> set xs \<Longrightarrow> f (g x) = Inr x) \<Longrightarrow> mapE f (map g xs) = Inr xs"
  by (induction xs) simp_all

lemma as_list_enc: "(\<And>x. f (g x) = Inr x) \<Longrightarrow> as_list f (enc_list g xs) = Inr xs"
  by (simp add: enc_list_def mapE_enc)

lemma as_dict_enc: "(\<And>x. f (g x) = Inr x) \<Longrightarrow> as_dict f (enc_dict g d) = Inr d"
  by (induction d) (auto simp: enc_dict_def)

lemmas state_codec = check_kw_def field_def field_or_def as_list_enc as_dict_enc

lemma dec_enc_mgmt_state [simp]: "as_kw dec_mgmt_state (enc_mgmt_state x) = Inr x"
  by (simp add: enc_mgmt_state_def dec_mgmt_state_def state_codec)

lemma dec_enc_jumphost_state [simp]: "as_kw dec_jumphost_state (enc_jumphost_state x) = Inr x"
  by (simp add: enc_jumphost_state_def dec_jumphost_state_def state_codec)

lemma dec_enc_dns_state [simp]: "as_kw dec_dns_state (enc_dns_state x) = Inr x"
  by (simp add: enc_dns_state_def dec_dns_state_def state_codec)

lemma dec_enc_runtime_relay_state [simp]: "as_kw dec_runtime_relay_state (enc_runtime_relay_state x) = Inr x"
  by (simp add: enc_runtime_relay_state_def dec_runtime_relay_state_def state_codec)

lemma dec_enc_host_schedule_state [simp]: "as_kw dec_host_schedule_state (enc_host_schedule_state x) = Inr x"
  by (simp add: enc_host_schedule_state_def dec_host_schedule_state_def state_codec)

lemma dec_enc_vxlan_link_state [simp]: "as_kw dec_vxlan_link_state (enc_vxlan_link_state x) = Inr x"
  by (simp add: enc_vxlan_link_state_def dec_vxlan_link_state_def state_codec)

lemma dec_enc_node_runtime_state [simp]: "as_kw dec_node_runtime_state (enc_node_runtime_state x) = Inr x"
  by (simp add: enc_node_runtime_state_def dec_node_runtime_state_def state_codec)

lemma dec_enc_mgmt_anchor_state [simp]: "as_kw dec_mgmt_anchor_state (enc_mgmt_anchor_state x) = Inr x"
  by (simp add: enc_mgmt_anchor_state_def dec_mgmt_anchor_state_def state_codec)

lemma dec_enc_runtime_link_state [simp]: "as_kw dec_runtime_link_state (enc_runtime_link_state x) = Inr x"
  by (simp add: enc_runtime_link_state_def dec_runtime_link_state_def state_codec)

lemma dec_enc_webui_allocation [simp]: "as_kw dec_webui_allocation (enc_webui_allocation x) = Inr x"
  by (simp add: enc_webui_allocation_def dec_webui_allocation_def state_codec)

lemma dec_enc_real_net_state [simp]: "as_kw dec_real_net_state (enc_real_net_state x) = Inr x"
  by (simp add: enc_real_net_state_def dec_real_net_state_def state_codec)

lemma upgrade_realnet_new: "dict_get rn ''ospf'' = None \<Longrightarrow> dict_get rn ''ospf_area'' = None \<Longrightarrow> upgrade_realnet rn = rn"
  by (simp add: upgrade_realnet_def delete_conv' map_of_eq_None_iff [symmetric])

lemma dec_enc_realnet_upgraded: "as_kw (\<lambda>rn. dec_real_net_state (upgrade_realnet rn)) (enc_real_net_state x) = Inr x"
proof -
  obtain rn where rn: "enc_real_net_state x = VDict rn" by (simp add: enc_real_net_state_def)
  then have "dict_get rn ''ospf'' = None" "dict_get rn ''ospf_area'' = None"
    by (auto simp: enc_real_net_state_def)
  then have "upgrade_realnet rn = rn" by (rule upgrade_realnet_new)
  then show ?thesis using dec_enc_real_net_state [of x] rn by simp
qed

lemma enc_truthy:
  "truthy (enc_mgmt_state m)" "truthy (enc_jumphost_state j)" "truthy (enc_dns_state n)"
  by (simp_all add: enc_mgmt_state_def enc_jumphost_state_def enc_dns_state_def)

lemma field_true_dict:
  "(\<And>x. f (g x) = Inr x) \<Longrightarrow> dict_get doc k = Some (enc_dict g d) \<Longrightarrow> field_true k (as_dict f) [] doc = Inr d"
  using as_dict_enc [of f g d] by (auto simp: field_true_def enc_dict_def)

lemma field_true_option:
  "(\<And>x. truthy (g x) \<and> f (g x) = Inr x) \<Longrightarrow> dict_get doc k = Some (enc_option g x) \<Longrightarrow>
     field_true k (\<lambda>v. map_sum id Some (f v)) None doc = Inr x"
  by (cases x) (auto simp: field_true_def enc_option_def)

lemma from_to_dict: "from_dict (to_dict s) = Inr (upgrade_state s)"
proof -
  let ?d = "to_dict s"
  have t: "field_true ''mgmt'' (\<lambda>v. map_sum id Some (as_kw dec_mgmt_state v)) None ?d = Inr (dep_mgmt s)"
    "field_true ''jumphost'' (\<lambda>v. map_sum id Some (as_kw dec_jumphost_state v)) None ?d = Inr (dep_jumphost s)"
    "field_true ''dns'' (\<lambda>v. map_sum id Some (as_kw dec_dns_state v)) None ?d = Inr (dep_dns s)"
    by - (rule field_true_option; simp add: enc_truthy to_dict_def)+
  have e: "field_true ''mgmt_anchors'' (as_dict (as_kw dec_mgmt_anchor_state)) [] ?d = Inr (dep_mgmt_anchors s)"
    "field_true ''node_runtime'' (as_dict (as_kw dec_node_runtime_state)) [] ?d = Inr (dep_node_runtime s)"
    "field_true ''webui_allocations'' (as_dict (as_list (as_kw dec_webui_allocation))) [] ?d = Inr (dep_webui_allocations s)"
    "field_true ''mgmt_ip_reservations'' (as_dict as_str) [] ?d = Inr (dep_mgmt_ip_reservations s)"
    by - (rule field_true_dict; simp add: to_dict_def as_list_enc)+
  show ?thesis
    unfolding from_dict_def t e
    by (simp add: to_dict_def field_def field_or_def as_list_enc as_dict_enc dec_enc_realnet_upgraded)
      (cases s, simp)
qed

definition reservations_of :: "(string, node_runtime_state) dict \<Rightarrow> (string, string) dict" where
  "reservations_of nr = map (\<lambda>(node, runtime). (node, nst_mgmt_ipv4 runtime))
     (filter (\<lambda>kv. nst_mgmt_ipv4 (snd kv) \<noteq> []) nr)"

lemma upgrade_fields:
  "dep_lab_name (upgrade_state s) = dep_lab_name s"
  "dep_scheduling (upgrade_state s) = dep_scheduling s"
  "dep_node_runtime (upgrade_state s) = (if dep_node_runtime s = []
     then populate_legacy_node_runtime (dep_lab_name s) (dep_scheduling s) else dep_node_runtime s)"
  "dep_mgmt_ip_reservations (upgrade_state s) = (if dep_mgmt_ip_reservations s = []
     then reservations_of (dep_node_runtime (upgrade_state s)) else dep_mgmt_ip_reservations s)"
  "dep_runtime_mode (upgrade_state s) \<noteq> [] \<or> dep_node_runtime (upgrade_state s) = []"
  by (simp_all add: upgrade_state_def Let_def reservations_of_def)

lemma upgrade_fixed:
  assumes "dep_node_runtime s \<noteq> [] \<or> populate_legacy_node_runtime (dep_lab_name s) (dep_scheduling s) = []"
    "dep_runtime_mode s \<noteq> [] \<or> dep_node_runtime s = []"
    "dep_mgmt_ip_reservations s \<noteq> [] \<or> reservations_of (dep_node_runtime s) = []"
  shows "upgrade_state s = s"
proof -
  have 1: "(if dep_node_runtime s = []
      then s\<lparr>dep_node_runtime := populate_legacy_node_runtime (dep_lab_name s) (dep_scheduling s)\<rparr> else s) = s"
    using assms(1) by auto
  have 2: "s\<lparr>dep_mgmt_ip_reservations := reservations_of (dep_node_runtime s)\<rparr> = s" if "dep_mgmt_ip_reservations s = []"
    using that assms(3) by auto
  show ?thesis
    unfolding upgrade_state_def Let_def 1 reservations_of_def [symmetric] using assms(2) 2 by auto
qed

lemma upgrade_state_idem: "upgrade_state (upgrade_state s) = upgrade_state s"
  by (rule upgrade_fixed) (use upgrade_fields [of s] in \<open>auto split: if_splits\<close>)

lemma from_dict_upgraded:
  assumes "from_dict d = Inr s"
  shows "upgrade_state s = s"
proof -
  obtain s0 where "s = upgrade_state s0"
    using assms unfolding from_dict_def bindE_eq_Inr by blast
  then show ?thesis by (simp add: upgrade_state_idem)
qed

section \<open>Properties\<close>

text \<open>
  C10: writing a deployment state and reading it back gives the state, upgraded; and a state
  that was read from any document is already upgraded, so that writing it and reading it again
  gives exactly the same state, however old the document was.
\<close>

theorem state_roundtrip:
  "from_dict (to_dict s) = Inr (upgrade_state s) \<and> (from_dict d = Inr s \<longrightarrow> from_dict (to_dict s) = Inr s)"
  using from_to_dict from_dict_upgraded by metis

definition old_document :: "(string, yvalue) dict" where
  "old_document =
     [(''lab_name'', VStr ''lab''), (''topology_file'', VStr ''/t.yml''),
      (''scheduling'', VDict [(''master'', VDict [(''host'', VStr ''10.0.0.1''), (''topology_file'', VStr ''/m.yml''),
         (''vd'', VList [VStr ''r1''])])]),
      (''realnets'', VList [VDict [(''name'', VStr ''wan''), (''bridge'', VStr ''br''), (''vxlan_id'', VInt 7),
         (''ospf'', VBool True), (''ospf_area'', VStr ''0'')]])]"

lemma from_old_document:
  "\<exists>s. from_dict old_document = Inr s \<and> dep_runtime_mode s = ''legacy'' \<and> map rnst_bgp (dep_realnets s) = [True]
     \<and> map fst (dep_node_runtime s) = [''r1'']"
  by (simp add: old_document_def from_dict_def field_def field_or_def field_true_def dec_host_schedule_state_def
      dec_real_net_state_def check_kw_def upgrade_realnet_def upgrade_state_def populate_legacy_node_runtime_def
      legacy_runtime_def dict_of_def vd_container_name_def startswith_def)

theorem state_roundtrip_witness: "\<exists>s. from_dict old_document = Inr s \<and> from_dict (to_dict s) = Inr s"
  using from_old_document state_roundtrip by blast

text \<open>
  The runtime table that is rebuilt for a document without one has exactly the scheduled
  devices, each running on the host it is scheduled on, in the topology file of that host.
\<close>

theorem legacy_runtime_complete:
  assumes "distinct (concat (map (\<lambda>hs. hst_vd (snd hs)) scheduling))"
  shows "dict_get (populate_legacy_node_runtime lab scheduling) node = Some rt \<longleftrightarrow>
     (\<exists>host schedule. (host, schedule) \<in> set scheduling \<and> node \<in> set (hst_vd schedule)
        \<and> rt = legacy_runtime lab host schedule node)"
proof -
  let ?kvs = "concat (map (\<lambda>(host_name, schedule).
       map (\<lambda>node. (node, legacy_runtime lab host_name schedule node)) (hst_vd schedule)) scheduling)"
  have "map fst ?kvs = concat (map (\<lambda>hs. hst_vd (snd hs)) scheduling)"
    by (induction scheduling) (auto simp: comp_def)
  then have d: "distinct (map fst ?kvs)" using assms by simp
  have "dict_get (populate_legacy_node_runtime lab scheduling) node = map_of (rev ?kvs) node"
    unfolding populate_legacy_node_runtime_def dict_get_dict_of ..
  moreover have "distinct (map fst (rev ?kvs))" using d unfolding rev_map [symmetric] by (simp only: distinct_rev)
  ultimately have "dict_get (populate_legacy_node_runtime lab scheduling) node = Some rt \<longleftrightarrow> (node, rt) \<in> set (rev ?kvs)"
    by (simp only: map_of_eq_Some_iff)
  then show ?thesis by fastforce
qed

theorem legacy_runtime_complete_witness:
  "map_option nst_host (dict_get (populate_legacy_node_runtime ''lab''
     [(''w1'', \<lparr>hst_host = ''10.0.0.2'', hst_topology_file = ''/t'', hst_vd = [''r1''], hst_resources_used = []\<rparr>)]) ''r1'')
   = Some ''w1''"
proof -
  have "dict_get (populate_legacy_node_runtime ''lab''
     [(''w1'', \<lparr>hst_host = ''10.0.0.2'', hst_topology_file = ''/t'', hst_vd = [''r1''], hst_resources_used = []\<rparr>)]) ''r1''
    = Some (legacy_runtime ''lab'' ''w1'' \<lparr>hst_host = ''10.0.0.2'', hst_topology_file = ''/t'', hst_vd = [''r1''], hst_resources_used = []\<rparr> ''r1'')"
    by (subst legacy_runtime_complete) simp_all
  then show ?thesis by (simp add: legacy_runtime_def)
qed

end
