(* ===== verification/Values.thy ===== *)
theory Values
  imports State
begin

text \<open>
  What the readers of YAML and JSON documents use of Python's built-in types: \<open>str()\<close>, \<open>repr()\<close>,
  \<open>int()\<close>, \<open>or\<close>, \<open>isinstance\<close> and \<open>.get\<close> on untyped values.
  \<open>.get\<close> on a value that is not a dictionary is an \<open>AttributeError\<close>, which no caller handles.
\<close>

section \<open>Printing\<close>

definition repr_char :: "char \<Rightarrow> char \<Rightarrow> string" where
  "repr_char q c =
     (if c = q \<or> c = CHR 0x5C then [CHR 0x5C, c]
      else if c = CHR 0x09 then [CHR 0x5C, CHR ''t'']
      else if c = CHR 0x0A then [CHR 0x5C, CHR ''n'']
      else if c = CHR 0x0D then [CHR 0x5C, CHR ''r'']
      else if code c < 32 \<or> code c = 127
      then [CHR 0x5C, CHR ''x'', hex_digit (code c div 16), hex_digit (code c mod 16)]
      else [c])"

definition str_repr :: "string \<Rightarrow> string" where
  "str_repr s =
     (let q = (if CHR 0x27 \<in> set s \<and> CHR 0x22 \<notin> set s then CHR 0x22 else CHR 0x27)
      in [q] @ concat (map (repr_char q) s) @ [q])"

fun py_repr :: "yvalue \<Rightarrow> string" where
  "py_repr VNone = ''None''"
| "py_repr (VBool b) = (if b then ''True'' else ''False'')"
| "py_repr (VInt i) = show_int i"
| "py_repr (VFloat s) = s"
| "py_repr (VStr s) = str_repr s"
| "py_repr (VList vs) = ''['' @ str_join '', '' (map py_repr vs) @ '']''"
| "py_repr (VDict d) = ''{'' @ str_join '', '' (map (\<lambda>(k, v). str_repr k @ '': '' @ py_repr v) d) @ ''}''"

definition py_str :: "yvalue \<Rightarrow> string" where
  "py_str v = (case v of VStr s \<Rightarrow> s | _ \<Rightarrow> py_repr v)"

lemma py_str_simps [simp]:
  "py_str (VStr s) = s" "py_str VNone = ''None''" "py_str (VBool b) = (if b then ''True'' else ''False'')"
  "py_str (VInt i) = show_int i" "py_str (VFloat s) = s"
  by (simp_all add: py_str_def)

section \<open>Reading\<close>

definition v_or :: "yvalue \<Rightarrow> yvalue \<Rightarrow> yvalue" where
  "v_or v w = (if truthy v then v else w)"

definition get_or_none :: "(string, yvalue) dict \<Rightarrow> string \<Rightarrow> yvalue" where
  "get_or_none d k = dict_get_or d k VNone"

definition str_rstrip :: "char \<Rightarrow> string \<Rightarrow> string" where
  "str_rstrip c s = rev (dropWhile (\<lambda>x. x = c) (rev s))"

lemma str_rstrip_last: "str_rstrip c s \<noteq> [] \<Longrightarrow> List.last (str_rstrip c s) \<noteq> c"
  unfolding str_rstrip_def using hd_dropWhile [of "\<lambda>x. x = c" "rev s"] by (simp add: last_rev)

definition is_dict :: "yvalue \<Rightarrow> bool" where
  "is_dict v = (case v of VDict _ \<Rightarrow> True | _ \<Rightarrow> False)"

definition is_int :: "yvalue \<Rightarrow> bool" where
  "is_int v = (case v of VInt _ \<Rightarrow> True | VBool _ \<Rightarrow> True | _ \<Rightarrow> False)"

text \<open>
  \<open>int(v)\<close>. A float is truncated; its printed form is a mantissa and perhaps an exponent,
  or one of \<open>inf\<close>, \<open>-inf\<close>, \<open>nan\<close>.
\<close>

datatype int_exn = NotConvertible | Infinite

definition unsigned :: "string \<Rightarrow> string" where
  "unsigned s = removeprefix s ''-''"

definition float_trunc :: "string \<Rightarrow> int_exn + int" where
  "float_trunc s =
     (let b = unsigned s in
      if b = ''inf'' then Inl Infinite
      else if b = ''nan'' then Inl NotConvertible
      else (let mant = hd (str_split (CHR ''e'') b); ex = tl (str_split (CHR ''e'') b);
                ip = hd (str_split (CHR ''.'') mant); fp = concat (tl (str_split (CHR ''.'') mant));
                k = (case ex of [] \<Rightarrow> 0 | e # _ \<Rightarrow> (case py_int e of None \<Rightarrow> 0 | Some i \<Rightarrow> i)) - int (length fp);
                n = int (read_digits (ip @ fp));
                a = (if 0 \<le> k then n * 10 ^ nat k else n div 10 ^ nat (- k))
            in Inr (if startswith s ''-'' then - a else a)))"

definition to_int :: "yvalue \<Rightarrow> int_exn + int" where
  "to_int v =
     (case v of
        VInt i \<Rightarrow> Inr i
      | VBool b \<Rightarrow> Inr (if b then 1 else 0)
      | VFloat s \<Rightarrow> float_trunc s
      | VStr s \<Rightarrow> (case py_int s of None \<Rightarrow> Inl NotConvertible | Some i \<Rightarrow> Inr i)
      | _ \<Rightarrow> Inl NotConvertible)"

lemma to_int_simps [simp]:
  "to_int (VInt i) = Inr i" "to_int (VBool b) = Inr (if b then 1 else 0)" "to_int VNone = Inl NotConvertible"
  by (simp_all add: to_int_def)

lemma float_trunc_examples:
  "float_trunc ''4.7'' = Inr 4" "float_trunc ''-0.5'' = Inr 0" "float_trunc ''1e+03'' = Inr 1000"
  "float_trunc ''1.5e-07'' = Inr 0" "float_trunc ''-12.25e+01'' = Inr (-122)"
  by code_simp+

end
