(* ===== verification/Ipv4.thy ===== *)
theory Ipv4
  imports Topology
begin

text \<open>
  IPv4 addresses and networks as \<open>ipaddress.IPv4Address\<close> and
  \<open>ipaddress.IPv4Network(\<dots>, strict=False)\<close> read and print them, and the helpers of
  \<open>services/mgmt_ips.py\<close> on top of them: the addresses a management subnet reserves for the
  infrastructure and the IPv6 subnet derived from it. An address is a natural number below
  \<open>2 ^ 32\<close>.
\<close>

section \<open>Addresses\<close>

definition parse_octet :: "string \<Rightarrow> nat option" where
  "parse_octet s =
     (if s = [] \<or> \<not> list_all is_digit s \<or> length s > 3 then None
      else if s \<noteq> ''0'' \<and> hd s = CHR ''0'' then None
      else (let n = read_digits s in if n > 255 then None else Some n))"

fun parse_octets :: "string list \<Rightarrow> nat list option" where
  "parse_octets [] = Some []"
| "parse_octets (s # ss) =
     (case parse_octet s of None \<Rightarrow> None
      | Some n \<Rightarrow> map_option ((#) n) (parse_octets ss))"

definition of_octets :: "nat list \<Rightarrow> nat" where
  "of_octets ns = foldl (\<lambda>a n. 256 * a + n) 0 ns"

definition to_octets :: "nat \<Rightarrow> nat list" where
  "to_octets ip = [ip div 16777216 mod 256, ip div 65536 mod 256, ip div 256 mod 256, ip mod 256]"

definition ipv4_address :: "string \<Rightarrow> nat option" where
  "ipv4_address s =
     (let octets = str_split (CHR ''.'') s
      in if length octets \<noteq> 4 then None else map_option of_octets (parse_octets octets))"

definition show_ip :: "nat \<Rightarrow> string" where
  "show_ip ip = str_join ''.'' (map show_nat (to_octets ip))"

section \<open>Networks\<close>

record ipv4_net =
  nw_addr :: nat
  nw_prefix :: nat

definition block :: "ipv4_net \<Rightarrow> nat" where
  "block n = 2 ^ (32 - nw_prefix n)"

text \<open>\<open>_prefix_from_prefix_string\<close> and \<open>_prefix_from_ip_string\<close> (a netmask or a host mask).\<close>

definition prefix_from_string :: "string \<Rightarrow> nat option" where
  "prefix_from_string s =
     (if s = [] \<or> \<not> list_all is_digit s then None
      else (let p = read_digits s in if p \<le> 32 then Some p else None))"

fun trailing_zeros :: "nat \<Rightarrow> nat \<Rightarrow> nat" where
  "trailing_zeros 0 n = 0"
| "trailing_zeros (Suc bits) n = (if even n then Suc (trailing_zeros bits (n div 2)) else 0)"

definition prefix_from_ip_int :: "nat \<Rightarrow> nat option" where
  "prefix_from_ip_int ip =
     (let z = trailing_zeros 32 ip; p = 32 - z
      in if ip div 2 ^ z = 2 ^ p - 1 then Some p else None)"

definition prefix_from_ip_string :: "string \<Rightarrow> nat option" where
  "prefix_from_ip_string s =
     (case ipv4_address s of None \<Rightarrow> None
      | Some ip \<Rightarrow> (case prefix_from_ip_int ip of Some p \<Rightarrow> Some p
                   | None \<Rightarrow> prefix_from_ip_int (2 ^ 32 - 1 - ip)))"

definition make_prefix :: "string \<Rightarrow> nat option" where
  "make_prefix s = (case prefix_from_string s of Some p \<Rightarrow> Some p | None \<Rightarrow> prefix_from_ip_string s)"

definition network_of :: "nat \<Rightarrow> nat \<Rightarrow> ipv4_net" where
  "network_of ip p = \<lparr>nw_addr = ip div 2 ^ (32 - p) * 2 ^ (32 - p), nw_prefix = p\<rparr>"

definition ipv4_network :: "string \<Rightarrow> ipv4_net option" where
  "ipv4_network s =
     (case str_split (CHR ''/'') s of
        [a] \<Rightarrow> map_option (\<lambda>ip. network_of ip 32) (ipv4_address a)
      | [a, m] \<Rightarrow> (case ipv4_address a of None \<Rightarrow> None
                   | Some ip \<Rightarrow> map_option (network_of ip) (make_prefix m))
      | _ \<Rightarrow> None)"

definition show_net :: "ipv4_net \<Rightarrow> string" where
  "show_net n = show_ip (nw_addr n) @ ''/'' @ show_nat (nw_prefix n)"

definition broadcast :: "ipv4_net \<Rightarrow> nat" where
  "broadcast n = nw_addr n + block n - 1"

definition in_net :: "nat \<Rightarrow> ipv4_net \<Rightarrow> bool" where
  "in_net ip n \<longleftrightarrow> ip div block n * block n = nw_addr n"

definition overlaps :: "ipv4_net \<Rightarrow> ipv4_net \<Rightarrow> bool" where
  "overlaps a b \<longleftrightarrow> in_net (nw_addr a) b \<or> in_net (broadcast a) b
     \<or> in_net (nw_addr b) a \<or> in_net (broadcast b) a"

text \<open>\<open>net.hosts()\<close>: a /31 has two hosts, a /32 one, otherwise both ends are left out.\<close>

definition hosts :: "ipv4_net \<Rightarrow> nat list" where
  "hosts n = (if nw_prefix n = 32 then [nw_addr n]
              else if nw_prefix n = 31 then [nw_addr n, broadcast n]
              else [nw_addr n + 1 ..< broadcast n])"

definition net_ok :: "ipv4_net \<Rightarrow> bool" where
  "net_ok n \<longleftrightarrow> nw_prefix n \<le> 32 \<and> nw_addr n < 2 ^ 32 \<and> block n dvd nw_addr n"

section \<open>Reserved management addresses (services/mgmt\_ips.py)\<close>

record mgmt_ipv4_reservations =
  mr_docker_gw :: string
  mr_anchor :: string
  mr_dns :: string
  mr_jumphost :: string

datatype mgmt_address_error = InvalidSubnet | TooSmall

definition ipv4_reservations :: "string \<Rightarrow> mgmt_address_error + mgmt_ipv4_reservations" where
  "ipv4_reservations subnet =
     (case ipv4_network subnet of
        None \<Rightarrow> Inl InvalidSubnet
      | Some net \<Rightarrow>
          if nw_prefix net > 29 then Inl TooSmall
          else (let first = nw_addr net + 1; anchor = broadcast net - 3;
                    dns = broadcast net - 2; jumphost = broadcast net - 1
                in if card {first, anchor, dns, jumphost} \<noteq> 4 then Inl TooSmall
                   else Inr \<lparr>mr_docker_gw = show_ip first, mr_anchor = show_ip anchor,
                             mr_dns = show_ip dns, mr_jumphost = show_ip jumphost\<rparr>))"

definition derive_ipv6_subnet_from_ipv4 :: "string \<Rightarrow> mgmt_address_error + string" where
  "derive_ipv6_subnet_from_ipv4 v4_subnet =
     (case ipv4_network v4_subnet of
        None \<Rightarrow> Inl InvalidSubnet
      | Some net \<Rightarrow>
          (let octets = str_split (CHR ''.'') (show_ip (nw_addr net))
           in Inr (''3fff:'' @ octets ! 0 @ '':'' @ octets ! 1 @ '':'' @ octets ! 2 @ ''::/64'')))"

section \<open>Reading and printing addresses\<close>

lemma to_octets_range: "n \<in> set (to_octets ip) \<Longrightarrow> n < 256"
  by (auto simp: to_octets_def)

lemma length_to_octets: "length (to_octets ip) = 4"
  by (simp add: to_octets_def)

lemma to_octets_nested:
  "to_octets ip = [ip div 256 div 256 div 256 mod 256, ip div 256 div 256 mod 256, ip div 256 mod 256, ip mod 256]"
  by (simp add: to_octets_def div_mult2_eq [symmetric])

lemma of_to_octets: "ip < 2 ^ 32 \<Longrightarrow> of_octets (to_octets ip) = ip"
proof -
  assume "ip < 2 ^ 32"
  then have "ip div 256 div 256 div 256 < 256" by (simp add: div_mult2_eq [symmetric] less_mult_imp_div_less)
  then have "of_octets (to_octets ip)
      = 256 * (256 * (256 * (ip div 256 div 256 div 256) + ip div 256 div 256 mod 256) + ip div 256 mod 256) + ip mod 256"
    by (simp add: of_octets_def to_octets_nested)
  also have "\<dots> = ip" by (simp only: mult_div_mod_eq)
  finally show ?thesis .
qed

lemma to_of_octets:
  "a < 256 \<Longrightarrow> b < 256 \<Longrightarrow> c < 256 \<Longrightarrow> d < 256 \<Longrightarrow> to_octets (of_octets [a, b, c, d]) = [a, b, c, d]"
proof -
  assume r: "a < 256" "b < 256" "c < 256" "d < 256"
  have h: "(256 * x + y) div 256 = x" "(256 * x + y) mod 256 = y" if "y < 256" for x y :: nat
    using that by simp_all
  have "of_octets [a, b, c, d] = 256 * (256 * (256 * a + b) + c) + d"
    by (simp add: of_octets_def)
  then show ?thesis using r by (simp only: to_octets_nested h mod_less)
qed

lemma of_octets_less:
  "a < 256 \<Longrightarrow> b < 256 \<Longrightarrow> c < 256 \<Longrightarrow> d < 256 \<Longrightarrow> of_octets [a, b, c, d] < 2 ^ 32"
  unfolding of_octets_def by simp

lemma parse_octet_show: "n < 256 \<Longrightarrow> parse_octet (show_nat n) = Some n"
  using show_nat_length [of n 3] show_nat_hd [of n]
  by (cases "n = 0")
    (auto simp: parse_octet_def show_nat_digits show_nat.simps [of 0] is_digit_def read_digits_def [of "''0''"])

lemma parse_octet_range: "parse_octet s = Some n \<Longrightarrow> n < 256"
  by (auto simp: parse_octet_def Let_def split: if_splits)

lemma show_parse_octet: "parse_octet s = Some n \<Longrightarrow> show_nat n = s"
  using show_read_digits [of s]
  by (auto simp: parse_octet_def Let_def show_nat.simps [of 0] read_digits_def [of "''0''"] split: if_splits)

lemma dot_not_digit: "CHR ''.'' \<notin> set (show_nat n)" "CHR ''/'' \<notin> set (show_nat n)"
  using show_nat_digits [of n] by (auto simp: list_all_iff is_digit_def)

lemma parse_octets_show: "\<forall>n \<in> set ns. n < 256 \<Longrightarrow> parse_octets (map show_nat ns) = Some ns"
  by (induction ns) (simp_all add: parse_octet_show)

lemma show_parse_octets: "parse_octets ss = Some ns \<Longrightarrow> map show_nat ns = ss \<and> (\<forall>n \<in> set ns. n < 256)"
  by (induction ss arbitrary: ns) (auto simp: show_parse_octet parse_octet_range split: option.splits)

lemma split_show_ip: "str_split (CHR ''.'') (show_ip ip) = map show_nat (to_octets ip)"
  unfolding show_ip_def by (rule str_split_join) (auto simp: to_octets_def dot_not_digit)

lemma parse_show_ip [simp]: "ip < 2 ^ 32 \<Longrightarrow> ipv4_address (show_ip ip) = Some ip"
  using parse_octets_show [of "to_octets ip"] to_octets_range [of _ ip] of_to_octets [of ip]
  by (simp add: ipv4_address_def Let_def split_show_ip length_to_octets)

lemma show_parse_ip:
  assumes "ipv4_address s = Some ip"
  shows "ip < 2 ^ 32 \<and> show_ip ip = s"
proof -
  obtain ns where ns: "parse_octets (str_split (CHR ''.'') s) = Some ns" "ip = of_octets ns"
    and len: "length (str_split (CHR ''.'') s) = 4"
    using assms by (auto simp: ipv4_address_def Let_def split: if_splits)
  have m: "map show_nat ns = str_split (CHR ''.'') s" "\<forall>n \<in> set ns. n < 256"
    using show_parse_octets [OF ns(1)] by simp_all
  then have "length ns = 4" using len by (metis length_map)
  then obtain a b c d where abcd: "ns = [a, b, c, d]"
    by (auto simp: numeral_eq_Suc length_Suc_conv)
  have "to_octets ip = ns" "ip < 2 ^ 32"
    using to_of_octets [of a b c d] of_octets_less [of a b c d] m(2) abcd ns(2) by auto
  then show ?thesis using str_join_split [of "CHR ''.''" s] m(1) by (simp add: show_ip_def)
qed

lemma show_ip_inject: "a < 2 ^ 32 \<Longrightarrow> b < 2 ^ 32 \<Longrightarrow> show_ip a = show_ip b \<longleftrightarrow> a = b"
  by (metis option.inject parse_show_ip)

section \<open>Networks as intervals\<close>

lemma block_pos [simp]: "0 < block n" "block n \<noteq> 0"
  by (simp_all add: block_def)

lemma net_ok_network_of: "ip < 2 ^ 32 \<Longrightarrow> p \<le> 32 \<Longrightarrow> net_ok (network_of ip p)"
proof -
  assume "ip < 2 ^ 32" "p \<le> 32"
  moreover have "ip div 2 ^ (32 - p) * 2 ^ (32 - p) \<le> ip" by (rule div_times_less_eq_dividend)
  ultimately have "ip div 2 ^ (32 - p) * 2 ^ (32 - p) < 2 ^ 32" by linarith
  then show ?thesis using \<open>p \<le> 32\<close> by (simp add: net_ok_def network_of_def block_def)
qed

lemma trailing_zeros_le: "trailing_zeros bits n \<le> bits"
  by (induction bits arbitrary: n) auto

lemma make_prefix_le: "make_prefix s = Some p \<Longrightarrow> p \<le> 32"
  by (auto simp: make_prefix_def prefix_from_string_def prefix_from_ip_string_def prefix_from_ip_int_def
      Let_def split: option.splits if_splits)

lemma ipv4_network_ok:
  assumes "ipv4_network s = Some n"
  shows "net_ok n"
proof -
  obtain ip p where "n = network_of ip p" "ip < 2 ^ 32" "p \<le> 32"
    using assms make_prefix_le show_parse_ip
    by (fastforce simp: ipv4_network_def split: list.splits option.splits)
  then show ?thesis by (simp add: net_ok_network_of)
qed

lemma net_ok_addr: "net_ok n \<Longrightarrow> network_of (nw_addr n) (nw_prefix n) = n"
  by (auto simp: net_ok_def network_of_def block_def)

lemma slash_not_in_ip: "CHR ''/'' \<notin> set (show_ip ip)"
  using dot_not_digit(2) by (simp add: show_ip_def to_octets_def)

lemma ipv4_network_show [simp]:
  assumes "net_ok n"
  shows "ipv4_network (show_net n) = Some n"
proof -
  have "str_split (CHR ''/'') (show_net n) = [show_ip (nw_addr n), show_nat (nw_prefix n)]"
    using str_split_append [OF slash_not_in_ip] str_split_no_sep [OF dot_not_digit(2)]
    by (simp add: show_net_def)
  moreover have "make_prefix (show_nat (nw_prefix n)) = Some (nw_prefix n)"
    using assms by (simp add: make_prefix_def prefix_from_string_def show_nat_digits net_ok_def)
  ultimately show ?thesis
    using assms parse_show_ip [of "nw_addr n"] net_ok_addr [OF assms] by (simp add: ipv4_network_def net_ok_def)
qed

lemma in_net_iff:
  assumes "net_ok n"
  shows "in_net ip n \<longleftrightarrow> nw_addr n \<le> ip \<and> ip \<le> broadcast n"
proof -
  obtain k where k: "nw_addr n = k * block n" using assms by (metis net_ok_def dvdE mult.commute)
  have "in_net ip n \<longleftrightarrow> ip div block n = k" by (simp add: in_net_def k)
  also have "\<dots> \<longleftrightarrow> k * block n \<le> ip \<and> ip < Suc k * block n"
    by (metis block_pos div_nat_eqI div_times_less_eq_dividend dividend_less_div_times mult.commute mult_Suc)
  also have "\<dots> \<longleftrightarrow> nw_addr n \<le> ip \<and> ip \<le> broadcast n"
    using block_pos(1) [of n] unfolding k broadcast_def mult_Suc by arith
  finally show ?thesis .
qed

lemma addr_le_broadcast: "nw_addr n \<le> broadcast n"
  using block_pos [of n] unfolding broadcast_def by linarith

lemma broadcast_less:
  assumes "net_ok n"
  shows "broadcast n < 2 ^ 32"
proof -
  have "block n dvd 2 ^ 32" unfolding block_def by (intro le_imp_power_dvd) simp
  then obtain j k where jk: "2 ^ 32 = block n * j" "nw_addr n = block n * k"
    using assms by (auto simp: net_ok_def dvd_def)
  have "block n * k < block n * j" using assms jk by (simp add: net_ok_def)
  then have "k < j" by simp
  then have "block n * Suc k \<le> block n * j" by (intro mult_le_mono2) simp
  then have "nw_addr n + block n \<le> 2 ^ 32" using jk by simp
  then show ?thesis using block_pos [of n] by (simp add: broadcast_def)
qed

lemma in_net_less: "net_ok n \<Longrightarrow> in_net ip n \<Longrightarrow> ip < 2 ^ 32"
  using in_net_iff broadcast_less by fastforce

lemma overlaps_iff:
  assumes "net_ok a" and "net_ok b"
  shows "overlaps a b \<longleftrightarrow> (\<exists>ip. in_net ip a \<and> in_net ip b)"
  using addr_le_broadcast [of a] addr_le_broadcast [of b]
  by (auto simp: overlaps_def in_net_iff assms intro: exI [of _ "nw_addr a"] exI [of _ "broadcast a"]
      exI [of _ "nw_addr b"] exI [of _ "broadcast b"])

lemma hosts_in_net: "net_ok n \<Longrightarrow> ip \<in> set (hosts n) \<Longrightarrow> in_net ip n"
  using addr_le_broadcast [of n] by (auto simp: in_net_iff hosts_def split: if_splits)

lemma hosts_distinct: "distinct (hosts n)"
  by (auto simp: hosts_def broadcast_def block_def)

section \<open>Reservations\<close>

lemma reservations_cases:
  assumes "ipv4_network subnet = Some net"
  shows "ipv4_reservations subnet =
    (if nw_prefix net > 29 then Inl TooSmall
     else Inr \<lparr>mr_docker_gw = show_ip (nw_addr net + 1), mr_anchor = show_ip (broadcast net - 3),
               mr_dns = show_ip (broadcast net - 2), mr_jumphost = show_ip (broadcast net - 1)\<rparr>)"
proof (cases "nw_prefix net > 29")
  case False
  have "(2::nat) ^ 3 \<le> block net" unfolding block_def using False by (intro power_increasing) auto
  then have "nw_addr net + 7 \<le> broadcast net" by (simp add: broadcast_def)
  then have "nw_addr net + 1 \<notin> {broadcast net - 3, broadcast net - 2, broadcast net - 1}"
    "broadcast net - 3 \<notin> {broadcast net - 2, broadcast net - 1}"
    "broadcast net - 2 \<noteq> broadcast net - 1"
    by auto
  then have "card {nw_addr net + 1, broadcast net - 3, broadcast net - 2, broadcast net - 1} = 4"
    by (simp add: card_insert_if)
  then show ?thesis using False assms by (simp add: ipv4_reservations_def Let_def)
qed (use assms in \<open>simp add: ipv4_reservations_def\<close>)

definition derived_subnet :: "nat \<Rightarrow> string" where
  "derived_subnet ip = str_join '':'' [''3fff'', show_nat (to_octets ip ! 0), show_nat (to_octets ip ! 1),
     show_nat (to_octets ip ! 2), [], ''/64'']"

lemma derive_ipv6_show: "net_ok n \<Longrightarrow> derive_ipv6_subnet_from_ipv4 (show_net n) = Inr (derived_subnet (nw_addr n))"
  by (simp add: derive_ipv6_subnet_from_ipv4_def split_show_ip to_octets_def derived_subnet_def Let_def)

lemma octets3: "ip < 2 ^ 32 \<Longrightarrow> ip div 256 = 256 * (256 * (to_octets ip ! 0) + to_octets ip ! 1) + to_octets ip ! 2"
proof -
  assume "ip < 2 ^ 32"
  then have "ip div 256 div 256 div 256 < 256" by (simp add: div_mult2_eq [symmetric] less_mult_imp_div_less)
  then have "256 * (256 * (to_octets ip ! 0) + to_octets ip ! 1) + to_octets ip ! 2
      = 256 * (256 * (ip div 256 div 256 div 256) + ip div 256 div 256 mod 256) + ip div 256 mod 256"
    by (simp add: to_octets_nested)
  also have "\<dots> = ip div 256" by (simp only: mult_div_mod_eq)
  finally show ?thesis by simp
qed

lemma octet_of_div: "k < 3 \<Longrightarrow> to_octets ip ! k = (ip div 256) div 256 ^ (2 - k) mod 256"
  by (auto simp: to_octets_nested less_Suc_eq numeral_3_eq_3 div_mult2_eq [symmetric])

lemma derived_subnet_inject:
  assumes "a < 2 ^ 32" and "b < 2 ^ 32"
  shows "derived_subnet a = derived_subnet b \<longleftrightarrow> a div 256 = b div 256"
proof
  have split: "str_split (CHR '':'') (derived_subnet ip) = [''3fff'', show_nat (to_octets ip ! 0),
      show_nat (to_octets ip ! 1), show_nat (to_octets ip ! 2), [], ''/64'']" for ip
  proof -
    have "CHR '':'' \<notin> set (show_nat n)" for n
      using show_nat_digits [of n] by (auto simp: list_all_iff is_digit_def)
    then show ?thesis unfolding derived_subnet_def by (intro str_split_join) auto
  qed
  assume "derived_subnet a = derived_subnet b"
  then have "\<forall>k<3. to_octets a ! k = to_octets b ! k"
    using split [of a] split [of b] by (auto simp: less_Suc_eq numeral_3_eq_3 numeral_2_eq_2)
  then show "a div 256 = b div 256" using octets3 assms by simp
next
  assume "a div 256 = b div 256"
  then show "derived_subnet a = derived_subnet b" by (simp add: derived_subnet_def octet_of_div)
qed

section \<open>Properties\<close>

text \<open>
  An address text is accepted exactly when it is the canonical dotted form of an address
  below \<open>2 ^ 32\<close>; reading is the inverse of printing, and the same holds for networks that are
  printed with their prefix length.
\<close>

theorem ipv4_text_roundtrip:
  "(ipv4_address s = Some ip \<longleftrightarrow> ip < 2 ^ 32 \<and> s = show_ip ip)
   \<and> (net_ok n \<longrightarrow> ipv4_network (show_net n) = Some n)"
  using parse_show_ip show_parse_ip ipv4_network_show by metis

theorem ipv4_text_roundtrip_witness:
  "ipv4_address ''10.0.0.255'' = Some 167772415
   \<and> ipv4_network (show_net \<lparr>nw_addr = 2886995968, nw_prefix = 24\<rparr>) = Some \<lparr>nw_addr = 2886995968, nw_prefix = 24\<rparr>"
  using ipv4_text_roundtrip [of "''10.0.0.255''" 167772415 "\<lparr>nw_addr = 2886995968, nw_prefix = 24\<rparr>"]
  by (simp add: net_ok_def block_def show_ip_def to_octets_def show_nat.simps)

text \<open>
  C39: the reserved addresses of a management subnet. A subnet has them exactly when it is a valid IPv4
  subnet with at least eight addresses; a text that is no subnet and a smaller subnet are refused as
  such. The gateway of docker is then the first host address of the subnet, and the anchor, the
  name server and the jump host are the last three, in this order. They are four different ones, and at
  least two host addresses stay free.
\<close>

theorem ipv4_reservations_correct:
  "case ipv4_reservations subnet of
     Inl InvalidSubnet \<Rightarrow> ipv4_network subnet = None
   | Inl TooSmall \<Rightarrow> (\<exists>net. ipv4_network subnet = Some net \<and> 29 < nw_prefix net)
   | Inr r \<Rightarrow> (\<exists>net reserved. ipv4_network subnet = Some net \<and> nw_prefix net \<le> 29
       \<and> reserved = hd (hosts net) # drop (length (hosts net) - 3) (hosts net) \<and> distinct reserved
       \<and> map ipv4_address [mr_docker_gw r, mr_anchor r, mr_dns r, mr_jumphost r] = map Some reserved
       \<and> 2 \<le> card (set (hosts net) - set reserved))"
proof (cases "ipv4_network subnet")
  case (Some net)
  show ?thesis
  proof (cases "29 < nw_prefix net")
    case False
    define b where "b = broadcast net"
    have "(2::nat) ^ 3 \<le> block net" unfolding block_def using False by (intro power_increasing) auto
    then have b: "nw_addr net + 7 \<le> b" by (simp add: b_def broadcast_def)
    have lt: "b < 2 ^ 32" using broadcast_less [OF ipv4_network_ok [OF Some]] by (simp add: b_def)
    have h: "hosts net = [nw_addr net + 1 ..< b]" using False by (simp add: hosts_def b_def)
    have "drop (length (hosts net) - 3) (hosts net) = [nw_addr net + 1 + (b - (nw_addr net + 1) - 3) ..< b]"
      unfolding h drop_upt length_upt by (rule refl)
    also have "nw_addr net + 1 + (b - (nw_addr net + 1) - 3) = b - 3" using b by arith
    also have "[b - 3 ..< b] = [b - 3, b - 2, b - 1]"
    proof -
      have "Suc (b - 3) = b - 2" "Suc (b - 2) = b - 1" using b by simp_all
      then show ?thesis using b upt_conv_Cons [of "b - 3" b] upt_conv_Cons [of "b - 2" b] upt_conv_Cons [of "b - 1" b] by simp
    qed
    finally have r: "hd (hosts net) # drop (length (hosts net) - 3) (hosts net) = [nw_addr net + 1, b - 3, b - 2, b - 1]"
      using b by (simp add: h)
    have "set (hosts net) - {nw_addr net + 1, b - 3, b - 2, b - 1} \<supseteq> {nw_addr net + 2, nw_addr net + 3}"
      using b h by auto
    then have "2 \<le> card (set (hosts net) - {nw_addr net + 1, b - 3, b - 2, b - 1})"
      using card_mono [of "set (hosts net) - {nw_addr net + 1, b - 3, b - 2, b - 1}"
          "{nw_addr net + 2, nw_addr net + 3}"] by simp
    then show ?thesis
      using b lt False reservations_cases [OF Some] Some parse_show_ip list.inject [THEN iffD1, OF r]
      by (simp add: b_def [symmetric]) arith
  qed (use reservations_cases [OF Some] Some in auto)
qed (simp add: ipv4_reservations_def)

text \<open>
  The IPv6 subnet of a lab is derived from the first three octets of its IPv4 subnet: labs
  in different /24 blocks get different ones, but two labs whose disjoint IPv4 subnets lie in
  the same /24 block get the same one.
\<close>

theorem derive_ipv6_subnet_collision:
  assumes "net_ok a" and "net_ok b"
  shows "derive_ipv6_subnet_from_ipv4 (show_net a) = derive_ipv6_subnet_from_ipv4 (show_net b)
     \<longleftrightarrow> nw_addr a div 256 = nw_addr b div 256"
  using assms derived_subnet_inject [of "nw_addr a" "nw_addr b"]
  by (auto simp: derive_ipv6_show net_ok_def)

theorem derive_ipv6_subnet_collision_witness:
  "\<not> overlaps (network_of 2886995968 25) (network_of 2886996096 25)
   \<and> derive_ipv6_subnet_from_ipv4 (show_net (network_of 2886995968 25))
       = derive_ipv6_subnet_from_ipv4 (show_net (network_of 2886996096 25))"
  using derive_ipv6_subnet_collision [of "network_of 2886995968 25" "network_of 2886996096 25"]
  by (simp add: net_ok_def overlaps_def in_net_def broadcast_def network_of_def block_def)

end
