(* ===== verification/Pcap.thy ===== *)
theory Pcap
  imports Complex_Main Digests
begin

text \<open>
  The pcap parser of Follow the Rabbit, \<open>services/pcap_parse.py\<close>: a batch parser and an
  incremental one for a byte stream that arrives in arbitrary pieces, over the same frame
  parser (Ethernet or raw IP, IPv4 and IPv6, ICMP, TCP, UDP). Time stamps, floats in the
  source, are exact rationals here.
\<close>

section \<open>Reading integers (struct.unpack)\<close>

datatype endian = Little | Big

definition u_be :: "byte list \<Rightarrow> nat" where
  "u_be bs = foldl (\<lambda>n b. 256 * n + unat b) 0 bs"

definition unpack :: "endian \<Rightarrow> byte list \<Rightarrow> nat" where
  "unpack e bs = (case e of Big \<Rightarrow> u_be bs | Little \<Rightarrow> u_be (rev bs))"

text \<open>\<open>data[i:j]\<close> and \<open>data[i]\<close> (only used in range).\<close>

definition slice :: "nat \<Rightarrow> nat \<Rightarrow> 'a list \<Rightarrow> 'a list" where
  "slice i j xs = take (j - i) (drop i xs)"

definition byte_at :: "byte list \<Rightarrow> nat \<Rightarrow> nat" where
  "byte_at bs i = unat (bs ! i)"

section \<open>Constants\<close>

definition linktype_ethernet :: nat where "linktype_ethernet = 1"
definition linktype_raw :: nat where "linktype_raw = 101"
definition eth_p_ip :: nat where "eth_p_ip = 0x0800"
definition eth_p_ipv6 :: nat where "eth_p_ipv6 = 0x86DD"
definition eth_p_8021q :: nat where "eth_p_8021q = 0x8100"
definition ipproto_icmp :: nat where "ipproto_icmp = 1"
definition ipproto_tcp :: nat where "ipproto_tcp = 6"
definition ipproto_udp :: nat where "ipproto_udp = 17"
definition ipproto_icmpv6 :: nat where "ipproto_icmpv6 = 58"
definition ipv6_ext_headers :: "nat set" where "ipv6_ext_headers = {0, 43, 44, 60}"
definition pcap_magic_usec :: nat where "pcap_magic_usec = 0xA1B2C3D4"
definition pcap_magic_nsec :: nat where "pcap_magic_nsec = 0xA1B23C4D"

lemmas pcap_consts = linktype_ethernet_def linktype_raw_def eth_p_ip_def eth_p_ipv6_def
  eth_p_8021q_def ipproto_icmp_def ipproto_tcp_def ipproto_udp_def ipproto_icmpv6_def
  ipv6_ext_headers_def pcap_magic_usec_def pcap_magic_nsec_def

section \<open>Parsed packets\<close>

record parsed_packet =
  pp_ts :: rat
  pp_proto :: string
  pp_src_ip :: string
  pp_dst_ip :: string
  pp_ttl :: nat
  pp_ip_id :: nat
  pp_src_port :: nat
  pp_dst_port :: nat
  pp_icmp_id :: "nat option"
  pp_icmp_seq :: "nat option"
  pp_tcp_seq :: "nat option"
  pp_tcp_flags :: "nat option"
  pp_payload_len :: nat

section \<open>Addresses\<close>

definition ipv4_addr :: "byte list \<Rightarrow> string" where
  "ipv4_addr raw = str_join ''.'' (map (\<lambda>b. show_nat (unat b)) raw)"

fun show_hex :: "nat \<Rightarrow> string" where
  "show_hex n = (if n < 16 then [hex_digit n] else show_hex (n div 16) @ [hex_digit (n mod 16)])"

declare show_hex.simps [simp del]

text \<open>
  \<open>str(ipaddress.IPv6Address(raw))\<close>: the longest run of at least two zero groups, the first of
  that length, becomes a double colon; an IPv4-mapped address ends in dotted notation.
  The loop state is \<open>(index, best_start, best_len, start, len)\<close>.
\<close>

fun zero_run :: "string list \<Rightarrow> nat \<Rightarrow> nat \<times> nat \<Rightarrow> nat option \<times> nat \<Rightarrow> nat \<times> nat" where
  "zero_run [] i best cur = best"
| "zero_run (h # hs) i best (start, len) =
     (if h = ''0'' then
        (let len' = len + 1; start' = (case start of None \<Rightarrow> i | Some s \<Rightarrow> s);
             best' = (if len' > snd best then (start', len') else best)
         in zero_run hs (i + 1) best' (Some start', len'))
      else zero_run hs (i + 1) best (None, 0))"

definition compress_hextets :: "string list \<Rightarrow> string list" where
  "compress_hextets hs =
     (case zero_run hs 0 (0, 0) (None, 0) of (start, len) \<Rightarrow>
        if len > 1 then
          (let best_end = start + len;
               hs1 = (if best_end = length hs then hs @ [[]] else hs);
               hs2 = take start hs1 @ [[]] @ drop best_end hs1
           in if start = 0 then [] # hs2 else hs2)
        else hs)"

definition string_from_ip_int :: "byte list \<Rightarrow> string" where
  "string_from_ip_int raw = str_join '':''
     (compress_hextets (map (\<lambda>i. show_hex (u_be (slice (2 * i) (2 * i + 2) raw))) [0..<8]))"

definition ipv6_addr :: "byte list \<Rightarrow> string" where
  "ipv6_addr raw =
     (if take 12 raw = replicate 10 0 @ [0xFF, 0xFF]
      then string_from_ip_int (replicate 4 0 @ take 12 raw) @ '':'' @ ipv4_addr (drop 12 raw)
      else string_from_ip_int raw)"

section \<open>Layer 4 and 3\<close>

definition base_packet ::
  "rat \<Rightarrow> string \<Rightarrow> string \<Rightarrow> string \<Rightarrow> nat \<Rightarrow> nat \<Rightarrow> nat \<Rightarrow> parsed_packet" where
  "base_packet ts proto src dst ttl ip_id payload_len =
     \<lparr>pp_ts = ts, pp_proto = proto, pp_src_ip = src, pp_dst_ip = dst, pp_ttl = ttl, pp_ip_id = ip_id,
      pp_src_port = 0, pp_dst_port = 0, pp_icmp_id = None, pp_icmp_seq = None, pp_tcp_seq = None,
      pp_tcp_flags = None, pp_payload_len = payload_len\<rparr>"

definition parse_l4 ::
  "nat \<Rightarrow> byte list \<Rightarrow> rat \<Rightarrow> string \<Rightarrow> string \<Rightarrow> nat \<Rightarrow> nat \<Rightarrow> nat \<Rightarrow> parsed_packet option" where
  "parse_l4 proto_num l4 ts src_ip dst_ip ttl ip_id payload_len =
     (if proto_num = ipproto_icmp \<and> length l4 \<ge> 8 then
        Some ((base_packet ts ''icmp'' src_ip dst_ip ttl ip_id payload_len)
          \<lparr>pp_icmp_id := Some (u_be (slice 4 6 l4)), pp_icmp_seq := Some (u_be (slice 6 8 l4))\<rparr>)
      else if proto_num = ipproto_icmpv6 \<and> length l4 \<ge> 8 then
        Some ((base_packet ts ''icmp6'' src_ip dst_ip ttl ip_id payload_len)
          \<lparr>pp_icmp_id := Some (u_be (slice 4 6 l4)), pp_icmp_seq := Some (u_be (slice 6 8 l4))\<rparr>)
      else if proto_num = ipproto_tcp \<and> length l4 \<ge> 20 then
        (let data_offset = (byte_at l4 12 div 16) * 4
         in Some ((base_packet ts ''tcp'' src_ip dst_ip ttl ip_id (payload_len - data_offset))
              \<lparr>pp_src_port := u_be (slice 0 2 l4), pp_dst_port := u_be (slice 2 4 l4),
               pp_tcp_seq := Some (u_be (slice 4 8 l4)), pp_tcp_flags := Some (byte_at l4 13)\<rparr>))
      else if proto_num = ipproto_udp \<and> length l4 \<ge> 8 then
        Some ((base_packet ts ''udp'' src_ip dst_ip ttl ip_id (u_be (slice 4 6 l4) - 8))
          \<lparr>pp_src_port := u_be (slice 0 2 l4), pp_dst_port := u_be (slice 2 4 l4)\<rparr>)
      else None)"

definition parse_ipv4 :: "byte list \<Rightarrow> rat \<Rightarrow> parsed_packet option" where
  "parse_ipv4 data ts =
     (if length data < 20 then None
      else (let ihl = (byte_at data 0 mod 16) * 4
            in if ihl < 20 \<or> length data < ihl then None
               else parse_l4 (byte_at data 9) (drop ihl data) ts
                      (ipv4_addr (slice 12 16 data)) (ipv4_addr (slice 16 20 data))
                      (byte_at data 8) (u_be (slice 4 6 data)) (u_be (slice 2 4 data) - ihl)))"

text \<open>The loop over IPv6 extension headers; \<open>guard\<close> counts down from 8.\<close>

fun skip_ext :: "nat \<Rightarrow> byte list \<Rightarrow> nat \<Rightarrow> nat \<Rightarrow> nat \<times> nat" where
  "skip_ext 0 data next_header offset = (next_header, offset)"
| "skip_ext (Suc guard) data next_header offset =
     (if next_header \<in> ipv6_ext_headers \<and> offset + 2 \<le> length data
      then skip_ext guard data (byte_at data offset) (offset + (byte_at data (offset + 1) + 1) * 8)
      else (next_header, offset))"

definition parse_ipv6 :: "byte list \<Rightarrow> rat \<Rightarrow> parsed_packet option" where
  "parse_ipv6 data ts =
     (if length data < 40 then None
      else (case skip_ext 8 data (byte_at data 6) 40 of (next_header, offset) \<Rightarrow>
              parse_l4 next_header (drop offset data) ts
                (ipv6_addr (slice 8 24 data)) (ipv6_addr (slice 24 40 data))
                (byte_at data 7) 0 (u_be (slice 4 6 data))))"

section \<open>Frames\<close>

definition parse_ip :: "nat \<Rightarrow> byte list \<Rightarrow> rat \<Rightarrow> parsed_packet option" where
  "parse_ip ethertype payload ts =
     (if ethertype = eth_p_ip then parse_ipv4 payload ts
      else if ethertype = eth_p_ipv6 then parse_ipv6 payload ts
      else None)"

definition parse_frame :: "byte list \<Rightarrow> nat \<Rightarrow> rat \<Rightarrow> parsed_packet option" where
  "parse_frame frame linktype ts =
     (if linktype = linktype_ethernet then
        (if length frame < 14 then None
         else (let ethertype = u_be (slice 12 14 frame); payload = drop 14 frame
               in if ethertype = eth_p_8021q then
                    (if length payload < 4 then None
                     else parse_ip (u_be (slice 2 4 payload)) (drop 4 payload) ts)
                  else parse_ip ethertype payload ts))
      else if linktype = linktype_raw then
        (if frame = [] then None
         else parse_ip (if byte_at frame 0 div 16 = 4 then eth_p_ip else eth_p_ipv6) frame ts)
      else None)"

section \<open>Batch parser\<close>

text \<open>The file header: byte order, nanosecond flag and link type.\<close>

definition parse_magic :: "byte list \<Rightarrow> (endian \<times> bool) option" where
  "parse_magic data =
     (let magic = unpack Little (take 4 data)
      in if magic \<in> {pcap_magic_usec, pcap_magic_nsec} then Some (Little, magic = pcap_magic_nsec)
         else (let magic_be = unpack Big (take 4 data)
               in if magic_be \<notin> {pcap_magic_usec, pcap_magic_nsec} then None
                  else Some (Big, magic_be = pcap_magic_nsec)))"

definition time_stamp :: "bool \<Rightarrow> nat \<Rightarrow> nat \<Rightarrow> rat" where
  "time_stamp nanos ts_sec ts_frac =
     of_nat ts_sec + of_nat ts_frac / (if nanos then 1000000000 else 1000000)"

definition opt_cons :: "'a option \<Rightarrow> 'a list \<Rightarrow> 'a list" where
  "opt_cons x xs = (case x of None \<Rightarrow> xs | Some a \<Rightarrow> a # xs)"

function parse_at :: "endian \<Rightarrow> bool \<Rightarrow> nat \<Rightarrow> byte list \<Rightarrow> nat \<Rightarrow> parsed_packet list" where
  "parse_at e nanos linktype data offset =
     (if offset + 16 \<le> length data then
        (let hdr = slice offset (offset + 16) data;
             caplen = unpack e (slice 8 12 hdr);
             off = offset + 16
         in if off + caplen > length data then []
            else opt_cons (parse_frame (slice off (off + caplen) data) linktype
                     (time_stamp nanos (unpack e (slice 0 4 hdr)) (unpack e (slice 4 8 hdr))))
                   (parse_at e nanos linktype data (off + caplen)))
      else [])"
  by pat_completeness auto
termination
  by (relation "measure (\<lambda>(e, nanos, linktype, data, offset). length data - offset)") auto

declare parse_at.simps [simp del]

definition parse_pcap :: "byte list \<Rightarrow> parsed_packet list" where
  "parse_pcap data =
     (if length data < 24 then []
      else (case parse_magic data of
              None \<Rightarrow> []
            | Some (e, nanos) \<Rightarrow> parse_at e nanos (unpack e (slice 20 24 data)) data 24))"

section \<open>Incremental parser\<close>

record pcap_parser =
  ip_buf :: "byte list"
  ip_endian :: "endian option"
  ip_nanos :: bool
  ip_linktype :: nat
  ip_ready :: bool
  ip_invalid :: bool

definition new_parser :: pcap_parser where
  "new_parser = \<lparr>ip_buf = [], ip_endian = None, ip_nanos = False, ip_linktype = 0,
     ip_ready = False, ip_invalid = False\<rparr>"

text \<open>The record loop of \<open>feed\<close>: the packets and what stays in the buffer.\<close>

function take_records ::
  "endian \<Rightarrow> bool \<Rightarrow> nat \<Rightarrow> byte list \<Rightarrow> parsed_packet list \<times> byte list" where
  "take_records e nanos linktype buf =
     (if length buf \<ge> 16 then
        (let caplen = unpack e (slice 8 12 buf)
         in if length buf < 16 + caplen then ([], buf)
            else (case take_records e nanos linktype (drop (16 + caplen) buf) of (ps, rest) \<Rightarrow>
                   (opt_cons (parse_frame (slice 16 (16 + caplen) buf) linktype
                      (time_stamp nanos (unpack e (slice 0 4 buf)) (unpack e (slice 4 8 buf)))) ps,
                    rest)))
      else ([], buf))"
  by pat_completeness auto
termination
  by (relation "measure (\<lambda>(e, nanos, linktype, buf). length buf)") auto

declare take_records.simps [simp del]

definition drain :: "endian \<Rightarrow> pcap_parser \<Rightarrow> parsed_packet list \<times> pcap_parser" where
  "drain e st =
     (case take_records e (ip_nanos st) (ip_linktype st) (ip_buf st) of
        (ps, rest) \<Rightarrow> (ps, st\<lparr>ip_buf := rest\<rparr>))"

definition feed :: "byte list \<Rightarrow> pcap_parser \<Rightarrow> parsed_packet list \<times> pcap_parser" where
  "feed data st =
     (if ip_invalid st \<or> data = [] then ([], st)
      else (let st = st\<lparr>ip_buf := ip_buf st @ data\<rparr>
            in if ip_ready st then
                 (case ip_endian st of Some e \<Rightarrow> drain e st | None \<Rightarrow> ([], st))
               else if length (ip_buf st) < 24 then ([], st)
               else (case parse_magic (ip_buf st) of
                       None \<Rightarrow> ([], st\<lparr>ip_invalid := True, ip_buf := []\<rparr>)
                     | Some (e, nanos) \<Rightarrow>
                         drain e (st\<lparr>ip_endian := Some e, ip_nanos := nanos,
                           ip_linktype := unpack e (slice 20 24 (ip_buf st)),
                           ip_buf := drop 24 (ip_buf st), ip_ready := True\<rparr>))))"

text \<open>Feeding a sequence of pieces, in the order they arrive.\<close>

abbreviation feed_all :: "byte list list \<Rightarrow> pcap_parser \<Rightarrow> parsed_packet list \<times> pcap_parser" where
  "feed_all \<equiv> feed_list feed"

section \<open>The incremental parser is the batch parser\<close>

lemma opt_cons_append: "opt_cons x (xs @ ys) = opt_cons x xs @ ys"
  by (cases x) (simp_all add: opt_cons_def)

lemma slice_append [simp]: "j \<le> length xs \<Longrightarrow> slice i j (xs @ ys) = slice i j xs"
  by (simp add: slice_def)

lemma slice_drop: "slice i j (drop k xs) = slice (i + k) (j + k) xs"
  by (simp add: slice_def)

lemma slice_slice: "j' \<le> j \<Longrightarrow> slice i' j' (slice i (i + j) xs) = slice (i + i') (i + j') xs"
  by (simp add: slice_def drop_take min_def add.commute)

lemma length_slice: "j \<le> length xs \<Longrightarrow> length (slice i j xs) = j - i"
  by (simp add: slice_def)

lemma parse_at_take_records:
  "parse_at e nanos linktype data offset = fst (take_records e nanos linktype (drop offset data))"
proof (induction e nanos linktype data offset rule: parse_at.induct)
  case (1 e nanos linktype data offset)
  show ?case
  proof (cases "offset + 16 \<le> length data")
    case True
    define c where "c = unpack e (slice (offset + 8) (offset + 12) data)"
    have "slice 8 12 (slice offset (offset + 16) data) = slice (offset + 8) (offset + 12) data"
      "slice 4 8 (slice offset (offset + 16) data) = slice (offset + 4) (offset + 8) data"
      "slice 0 4 (slice offset (offset + 16) data) = slice (offset + 0) (offset + 4) data"
      by (rule slice_slice, simp)+
    then show ?thesis
      using True 1 [OF True refl] parse_at.simps [of e nanos linktype data offset]
        take_records.simps [of e nanos linktype "drop offset data"]
      by (auto simp: slice_drop Let_def ac_simps split: prod.splits)
  qed (use parse_at.simps [of e nanos linktype data offset]
        take_records.simps [of e nanos linktype "drop offset data"] in auto)
qed

lemma take_records_append:
  "take_records e nanos linktype (b @ d) =
     (case take_records e nanos linktype b of (ps, r) \<Rightarrow>
        case take_records e nanos linktype (r @ d) of (qs, r') \<Rightarrow> (ps @ qs, r'))"
proof (induction e nanos linktype b rule: take_records.induct)
  case (1 e nanos linktype buf)
  define c where "c = unpack e (slice 8 12 buf)"
  show ?case
  proof (cases "length buf \<ge> 16 \<and> 16 + c \<le> length buf")
    case True
    then have IH: "take_records e nanos linktype (drop (16 + c) buf @ d) =
        (case take_records e nanos linktype (drop (16 + c) buf) of (ps, r) \<Rightarrow>
           case take_records e nanos linktype (r @ d) of (qs, r') \<Rightarrow> (ps @ qs, r'))"
      using 1 [of c] by (simp add: c_def)
    show ?thesis
      using True IH take_records.simps [of e nanos linktype buf]
        take_records.simps [of e nanos linktype "buf @ d"]
      by (simp add: c_def opt_cons_append split: prod.splits)
  next
    case False
    then have "take_records e nanos linktype buf = ([], buf)"
      using take_records.simps [of e nanos linktype buf] by (auto simp: c_def Let_def)
    then show ?thesis by simp
  qed
qed

text \<open>The state of the incremental parser after a prefix of the stream.\<close>

definition parser_state :: "byte list \<Rightarrow> pcap_parser" where
  "parser_state xs =
     (if length xs < 24 then new_parser\<lparr>ip_buf := xs\<rparr>
      else (case parse_magic xs of
              None \<Rightarrow> new_parser\<lparr>ip_invalid := True\<rparr>
            | Some (e, nanos) \<Rightarrow>
                (let l = unpack e (slice 20 24 xs)
                 in \<lparr>ip_buf = snd (take_records e nanos l (drop 24 xs)), ip_endian = Some e,
                     ip_nanos = nanos, ip_linktype = l, ip_ready = True, ip_invalid = False\<rparr>)))"

lemma parse_magic_append: "4 \<le> length xs \<Longrightarrow> parse_magic (xs @ d) = parse_magic xs"
  by (simp add: parse_magic_def Let_def)

lemma parse_pcap_records:
  "24 \<le> length xs \<Longrightarrow> parse_magic xs = Some (e, nanos) \<Longrightarrow>
     parse_pcap xs = fst (take_records e nanos (unpack e (slice 20 24 xs)) (drop 24 xs))"
  by (simp add: parse_pcap_def parse_at_take_records)

lemma feed_header:
  assumes "length xs < 24"
  shows "feed d (parser_state xs) = (parse_pcap (xs @ d), parser_state (xs @ d))"
proof (cases "d = [] \<or> length (xs @ d) < 24")
  case True
  then show ?thesis using assms by (auto simp: feed_def parser_state_def new_parser_def parse_pcap_def)
next
  case False
  then show ?thesis
    using assms
    by (auto simp: feed_def parser_state_def new_parser_def parse_pcap_def drain_def Let_def
        parse_at_take_records split: option.splits prod.splits)
qed

lemma feed_ready:
  assumes "24 \<le> length xs"
  shows "\<exists>ps. feed d (parser_state xs) = (ps, parser_state (xs @ d))
           \<and> parse_pcap (xs @ d) = parse_pcap xs @ ps"
proof (cases "parse_magic xs")
  case None
  then show ?thesis
    using assms parse_magic_append [of xs d]
    by (simp add: feed_def parser_state_def new_parser_def parse_pcap_def)
next
  case (Some p)
  obtain e nanos where p: "p = (e, nanos)" by fastforce
  define l where "l = unpack e (slice 20 24 xs)"
  obtain ps r where r: "take_records e nanos l (drop 24 xs) = (ps, r)" by fastforce
  obtain qs r' where r': "take_records e nanos l (r @ d) = (qs, r')" by fastforce
  have all: "take_records e nanos l (drop 24 xs @ d) = (ps @ qs, r')"
    using take_records_append [of e nanos l "drop 24 xs" d] r r' by simp
  have m: "parse_magic (xs @ d) = Some (e, nanos)" "parse_magic xs = Some (e, nanos)"
    using parse_magic_append Some p assms by simp_all
  have l': "unpack e (slice 20 24 (xs @ d)) = l" "unpack e (slice 20 24 xs) = l"
    using assms by (simp_all add: l_def)
  have "parse_pcap xs = ps" "parse_pcap (xs @ d) = ps @ qs"
    using parse_pcap_records [of xs e nanos] parse_pcap_records [of "xs @ d" e nanos] m assms l' r all
    by simp_all
  moreover have "feed d (parser_state xs) = (qs, parser_state (xs @ d))"
    using assms m l' r r' all
    by (cases "d = []") (auto simp: feed_def parser_state_def drain_def Let_def)
  ultimately show ?thesis by simp
qed

interpretation pcap: stream_parser feed parser_state parse_pcap
proof
  fix d xs
  show "\<exists>ps. feed d (parser_state xs) = (ps, parser_state (xs @ d))
          \<and> parse_pcap (xs @ d) = parse_pcap xs @ ps"
  proof (cases "length xs < 24")
    case True
    then have "parse_pcap xs = []" by (simp add: parse_pcap_def)
    then show ?thesis using feed_header True by simp
  qed (use feed_ready in simp)
qed

lemma new_parser_state: "parser_state [] = new_parser"
  by (simp add: parser_state_def new_parser_def)

section \<open>Ranges of the parsed fields\<close>

lemma u_be_snoc: "u_be (xs @ [b]) = 256 * u_be xs + unat b"
  by (simp add: u_be_def)

lemma unat_byte: "unat (b :: byte) < 256"
  using unsigned_less [of b] by simp

lemma u_be_less: "u_be bs < 256 ^ length bs"
proof (induction bs rule: rev_induct)
  case (snoc b bs)
  then have "Suc (u_be bs) * 256 \<le> 256 ^ length bs * 256"
    by (intro mult_le_mono1) simp
  then show ?case using unat_byte [of b] by (simp add: u_be_snoc)
qed (simp add: u_be_def)

lemma length_slice_le: "length (slice i j xs) \<le> j - i"
  by (simp add: slice_def)

lemma u_be_slice: "u_be (slice i j bs) < 256 ^ (j - i)"
  using u_be_less [of "slice i j bs"] length_slice_le [of i j bs]
  by (meson less_le_trans power_increasing one_le_numeral)

lemma byte_at_less: "byte_at bs i < 256"
  by (simp add: byte_at_def unat_byte)

text \<open>
  The shape of a packet: the fields fit their width on the wire and exactly the fields of its
  protocol are present.
\<close>

definition packet_ok :: "parsed_packet \<Rightarrow> bool" where
  "packet_ok p \<longleftrightarrow>
     pp_ttl p < 256 \<and> pp_ip_id p < 65536 \<and> pp_src_port p < 65536 \<and> pp_dst_port p < 65536
     \<and> pp_payload_len p < 65536
     \<and> pred_option (\<lambda>n. n < 65536) (pp_icmp_id p) \<and> pred_option (\<lambda>n. n < 65536) (pp_icmp_seq p)
     \<and> pred_option (\<lambda>n. n < 4294967296) (pp_tcp_seq p) \<and> pred_option (\<lambda>n. n < 256) (pp_tcp_flags p)
     \<and> pp_proto p \<in> {''icmp'', ''icmp6'', ''tcp'', ''udp''}
     \<and> (pp_icmp_id p \<noteq> None \<longleftrightarrow> pp_proto p \<in> {''icmp'', ''icmp6''})
     \<and> (pp_icmp_seq p \<noteq> None \<longleftrightarrow> pp_proto p \<in> {''icmp'', ''icmp6''})
     \<and> (pp_tcp_seq p \<noteq> None \<longleftrightarrow> pp_proto p = ''tcp'')
     \<and> (pp_tcp_flags p \<noteq> None \<longleftrightarrow> pp_proto p = ''tcp'')
     \<and> (pp_proto p \<in> {''icmp'', ''icmp6''} \<longrightarrow> pp_src_port p = 0 \<and> pp_dst_port p = 0)"

lemma parse_l4_ok:
  assumes "parse_l4 proto l4 ts src dst ttl ip_id plen = Some p"
    and "ttl < 256" "ip_id < 65536" "plen < 65536"
  shows "packet_ok p"
proof -
  have b: "u_be (slice 0 2 l4) < 65536" "u_be (slice 2 4 l4) < 65536" "u_be (slice 4 6 l4) < 65536"
    "u_be (slice 6 8 l4) < 65536" "u_be (slice 4 8 l4) < 4294967296"
    using u_be_slice [of 0 2 l4] u_be_slice [of 2 4 l4] u_be_slice [of 4 6 l4] u_be_slice [of 6 8 l4]
      u_be_slice [of 4 8 l4] by simp_all
  have c: "byte_at l4 13 < 256" by (rule byte_at_less)
  from assms(1) show ?thesis
    unfolding parse_l4_def Let_def
    by (simp only: option.inject option.distinct simp_thms split: if_splits; hypsubst)
      (use assms(2-) b c in \<open>simp_all add: packet_ok_def base_packet_def\<close>)
qed

lemma parse_ip_ok: "parse_ip t data ts = Some p \<Longrightarrow> packet_ok p"
  using u_be_slice [of 2 4 data] u_be_slice [of 4 6 data]
  by (auto simp: parse_ip_def parse_ipv4_def parse_ipv6_def Let_def byte_at_less
      split: if_splits prod.splits elim!: parse_l4_ok)

lemma parse_frame_ok: "parse_frame frame linktype ts = Some p \<Longrightarrow> packet_ok p"
  by (auto simp: parse_frame_def Let_def split: if_splits elim: parse_ip_ok)

lemma take_records_ok: "p \<in> set (fst (take_records e nanos linktype buf)) \<Longrightarrow> packet_ok p"
proof (induction e nanos linktype buf rule: take_records.induct)
  case (1 e nanos linktype buf)
  then show ?case
    using take_records.simps [of e nanos linktype buf]
    by (auto simp: Let_def opt_cons_def parse_frame_ok split: if_splits prod.splits option.splits)
qed

section \<open>Reading back a written capture\<close>

text \<open>
  The libpcap file format, as a capture program writes it: a 24-byte header with magic number
  and link type, then records of a 16-byte header and the frame.
\<close>

fun pack_be :: "nat \<Rightarrow> nat \<Rightarrow> byte list" where
  "pack_be 0 n = []"
| "pack_be (Suc k) n = pack_be k (n div 256) @ [of_nat n]"

definition pack32 :: "endian \<Rightarrow> nat \<Rightarrow> byte list" where
  "pack32 e n = (case e of Big \<Rightarrow> pack_be 4 n | Little \<Rightarrow> rev (pack_be 4 n))"

record pcap_record =
  pr_sec :: nat
  pr_frac :: nat
  pr_origlen :: nat
  pr_frame :: "byte list"

definition write_record :: "endian \<Rightarrow> pcap_record \<Rightarrow> byte list" where
  "write_record e r = pack32 e (pr_sec r) @ pack32 e (pr_frac r) @ pack32 e (length (pr_frame r))
     @ pack32 e (pr_origlen r) @ pr_frame r"

definition write_pcap :: "endian \<Rightarrow> bool \<Rightarrow> byte list \<Rightarrow> nat \<Rightarrow> pcap_record list \<Rightarrow> byte list" where
  "write_pcap e nanos middle linktype rs =
     pack32 e (if nanos then pcap_magic_nsec else pcap_magic_usec) @ middle @ pack32 e linktype
       @ concat (map (write_record e) rs)"

definition record_ok :: "pcap_record \<Rightarrow> bool" where
  "record_ok r \<longleftrightarrow> pr_sec r < 2 ^ 32 \<and> pr_frac r < 2 ^ 32 \<and> length (pr_frame r) < 2 ^ 32"

definition record_packet :: "bool \<Rightarrow> nat \<Rightarrow> pcap_record \<Rightarrow> parsed_packet option" where
  "record_packet nanos linktype r =
     parse_frame (pr_frame r) linktype (time_stamp nanos (pr_sec r) (pr_frac r))"

lemma length_pack_be [simp]: "length (pack_be k n) = k"
  by (induction k arbitrary: n) simp_all

lemma length_pack32 [simp]: "length (pack32 e n) = 4"
  by (cases e) (simp_all add: pack32_def)

lemma u_be_pack_be: "n < 256 ^ k \<Longrightarrow> u_be (pack_be k n) = n"
proof (induction k arbitrary: n)
  case (Suc k)
  then have "n div 256 < 256 ^ k" by (simp add: less_mult_imp_div_less mult.commute)
  moreover have "unat (of_nat n :: byte) = n mod 256"
    by (simp add: unsigned_of_nat take_bit_eq_mod)
  ultimately show ?case using Suc.IH by (simp add: u_be_snoc)
qed (simp add: u_be_def)

lemma unpack_pack32: "n < 2 ^ 32 \<Longrightarrow> unpack e (pack32 e n) = n"
  using u_be_pack_be [of n 4] by (cases e) (simp_all add: unpack_def pack32_def)

lemma slice_skip: "i \<ge> length xs \<Longrightarrow> slice i j (xs @ ys) = slice (i - length xs) (j - length xs) ys"
  by (simp add: slice_def)

lemma slice_whole: "slice 0 (length xs) xs = xs"
  by (simp add: slice_def)

lemma record_fields:
  "slice 0 4 (write_record e r @ rest) = pack32 e (pr_sec r)"
  "slice 4 8 (write_record e r @ rest) = pack32 e (pr_frac r)"
  "slice 8 12 (write_record e r @ rest) = pack32 e (length (pr_frame r))"
  "slice 16 (16 + length (pr_frame r)) (write_record e r @ rest) = pr_frame r"
  by (simp_all add: write_record_def slice_def)

lemma take_records_write:
  assumes "record_ok r"
  shows "take_records e nanos linktype (write_record e r @ rest) =
     (case take_records e nanos linktype rest of (ps, r') \<Rightarrow>
        (opt_cons (record_packet nanos linktype r) ps, r'))"
proof -
  have "unpack e (pack32 e (pr_sec r)) = pr_sec r" "unpack e (pack32 e (pr_frac r)) = pr_frac r"
    "unpack e (pack32 e (length (pr_frame r))) = length (pr_frame r)"
    using assms by (simp_all add: record_ok_def unpack_pack32)
  moreover have "length (write_record e r @ rest) = 16 + length (pr_frame r) + length rest"
    "drop (16 + length (pr_frame r)) (write_record e r @ rest) = rest"
    by (simp_all add: write_record_def)
  ultimately show ?thesis
    using take_records.simps [of e nanos linktype "write_record e r @ rest"]
    by (simp add: record_fields Let_def record_packet_def)
qed

lemma take_records_write_all:
  "list_all record_ok rs \<Longrightarrow>
     take_records e nanos linktype (concat (map (write_record e) rs) @ rest) =
       (case take_records e nanos linktype rest of (ps, r') \<Rightarrow>
          (List.map_filter (record_packet nanos linktype) rs @ ps, r'))"
proof (induction rs)
  case (Cons r rs)
  then show ?case
    using take_records_write [of r e nanos linktype "concat (map (write_record e) rs) @ rest"]
    by (auto simp: opt_cons_def List.map_filter_simps split: prod.splits option.splits)
qed (simp add: List.map_filter_simps)

lemma take_records_partial:
  assumes "record_ok r" and "k < length (write_record e r)"
  shows "take_records e nanos linktype (take k (write_record e r)) = ([], take k (write_record e r))"
proof (cases "16 \<le> k")
  case True
  have "slice 8 12 (take k (write_record e r)) = pack32 e (length (pr_frame r))"
    using True by (simp add: write_record_def slice_def drop_take)
  then have "unpack e (slice 8 12 (take k (write_record e r))) = length (pr_frame r)"
    using assms(1) by (simp add: record_ok_def unpack_pack32)
  moreover have "length (write_record e r) = 16 + length (pr_frame r)" by (simp add: write_record_def)
  ultimately show ?thesis
    using assms(2) take_records.simps [of e nanos linktype "take k (write_record e r)"]
    by (simp add: Let_def)
qed (use take_records.simps [of e nanos linktype "take k (write_record e r)"] assms(2) in simp)

lemma pack_be_4: "pack_be 4 n = [of_nat (n div 256 div 256 div 256), of_nat (n div 256 div 256),
    of_nat (n div 256), of_nat n]"
proof -
  have "(4::nat) = Suc (Suc (Suc (Suc 0)))" by simp
  then show ?thesis by (simp only: pack_be.simps append.simps)
qed

lemma parse_magic_write:
  assumes "length middle = 16"
  shows "parse_magic (write_pcap e nanos middle linktype rs) = Some (e, nanos)"
proof -
  have t: "take 4 (write_pcap e nanos middle linktype rs)
      = pack32 e (if nanos then pcap_magic_nsec else pcap_magic_usec)"
    by (simp add: write_pcap_def)
  show ?thesis
    unfolding parse_magic_def t Let_def
    by (cases e; cases nanos)
      (simp_all add: pack32_def unpack_def u_be_def pcap_consts pack_be_4)
qed

section \<open>Properties\<close>

text \<open>
  C6: however the bytes of a capture are cut into pieces, feeding them one by one to the
  incremental parser returns exactly the packets, in order, that the batch parser finds in the
  whole capture, and leaves the parser in a state that depends on the bytes only.
\<close>

theorem feed_all_is_parse_pcap:
  "feed_all ds new_parser = (parse_pcap (concat ds), parser_state (concat ds))"
  using pcap.feed_list_batch [of ds] by (simp add: new_parser_state parse_pcap_def)

text \<open>
  C24: a capture written in either byte order and with either time resolution is read back
  record by record, in order; records whose frame is not recognised are skipped, and a last
  record that was cut off anywhere is ignored.
\<close>

theorem parse_pcap_write:
  assumes "length middle = 16" and "linktype < 2 ^ 32" and "list_all record_ok rs"
    and "record_ok tail_rec" and "k < length (write_record e tail_rec)"
  shows "parse_pcap (write_pcap e nanos middle linktype rs @ take k (write_record e tail_rec))
     = List.map_filter (record_packet nanos linktype) rs"
proof -
  let ?f = "write_pcap e nanos middle linktype rs"
  have len: "24 \<le> length ?f" using assms(1) by (simp add: write_pcap_def)
  have "slice 20 24 ?f = pack32 e linktype" using assms(1) by (simp add: write_pcap_def slice_def)
  then have l: "unpack e (slice 20 24 (?f @ take k (write_record e tail_rec))) = linktype"
    using len assms(2) by (simp add: unpack_pack32)
  have m: "parse_magic (?f @ take k (write_record e tail_rec)) = Some (e, nanos)"
    using parse_magic_append len parse_magic_write [OF assms(1)] by simp
  have d: "drop 24 (?f @ take k (write_record e tail_rec))
      = concat (map (write_record e) rs) @ take k (write_record e tail_rec)"
    using assms(1) by (simp add: write_pcap_def)
  show ?thesis
    using parse_pcap_records [OF _ m] len l d
      take_records_write_all [OF assms(3)] take_records_partial [OF assms(4,5)] by simp
qed

theorem parse_pcap_write_witness:
  "map pp_icmp_seq (parse_pcap (write_pcap Big True (replicate 16 0) linktype_raw
      [\<lparr>pr_sec = 7, pr_frac = 5, pr_origlen = 28, pr_frame =
          [0x45, 0, 0, 28, 0, 1, 0, 0, 64, 1, 0, 0, 10, 0, 0, 1, 10, 0, 0, 2, 8, 0, 0, 0, 0, 3, 0, 4]\<rparr>,
       \<lparr>pr_sec = 8, pr_frac = 5, pr_origlen = 0, pr_frame = []\<rparr>]
      @ take 9 (write_record Big \<lparr>pr_sec = 8, pr_frac = 0, pr_origlen = 0, pr_frame = []\<rparr>))) = [Some 4]"
  by (subst parse_pcap_write)
    (simp_all add: record_ok_def write_record_def record_packet_def List.map_filter_simps
      parse_frame_def parse_ip_def parse_ipv4_def parse_l4_def base_packet_def byte_at_def slice_def
      u_be_def Let_def pcap_consts)

text \<open>
  Every packet either parser returns carries values that fit their fields on the wire, a
  known protocol, and exactly the fields of that protocol.
\<close>

theorem parse_pcap_packets_ok: "list_all packet_ok (parse_pcap data)"
  by (auto simp: list_all_iff parse_pcap_def parse_at_take_records
      split: option.splits if_splits elim: take_records_ok)

end
