(* ===== verification/IpAddr.thy ===== *)
theory IpAddr
  imports Ipv4 Pcap "HOL-Library.Code_Target_Nat"
begin

text \<open>
  Addresses and networks of either family, as \<open>ipaddress.ip_address\<close>, \<open>IPv6Network\<close> and
  \<open>ip_network(\<dots>, strict=False)\<close> of the standard library read and print them.
\<close>

section \<open>IPv6 addresses\<close>

fun hex_value :: "char \<Rightarrow> nat option" where
  "hex_value c =
     (if is_digit c then Some (code c - 48)
      else if 97 \<le> code c \<and> code c \<le> 102 then Some (code c - 87)
      else if 65 \<le> code c \<and> code c \<le> 70 then Some (code c - 55) else None)"

definition parse_hextet :: "string \<Rightarrow> nat option" where
  "parse_hextet s =
     (if s = [] \<or> length s > 4 \<or> \<not> list_all (\<lambda>c. hex_value c \<noteq> None) s then None
      else Some (foldl (\<lambda>n c. 16 * n + the (hex_value c)) 0 s))"

fun parse_hextets :: "string list \<Rightarrow> nat option" where
  "parse_hextets ss = foldl (\<lambda>n s. Option.bind n (\<lambda>a. map_option (\<lambda>h. 65536 * a + h) (parse_hextet s))) (Some 0) ss"

text \<open>The last group may be an IPv4 address, which stands for two groups.\<close>

definition expand_ipv4_tail :: "string list \<Rightarrow> string list option" where
  "expand_ipv4_tail parts =
     (if CHR ''.'' \<in> set (List.last parts)
      then map_option (\<lambda>ip. butlast parts @ [show_hex (ip div 65536), show_hex (ip mod 65536)])
             (ipv4_address (List.last parts))
      else Some parts)"

text \<open>The inner empty groups; at most one is allowed, and it stands for the zeros left out.\<close>

definition inner_empty :: "string list \<Rightarrow> nat list" where
  "inner_empty parts = filter (\<lambda>i. parts ! i = []) [1..<length parts - 1]"

definition ipv6_from_groups :: "string list \<Rightarrow> nat option" where
  "ipv6_from_groups parts =
     (case inner_empty parts of
        [] \<Rightarrow> if length parts \<noteq> 8 then None else parse_hextets parts
      | [k] \<Rightarrow>
          (let hi = (if hd parts = [] then k - 1 else k);
               lo = (if List.last parts = [] then length parts - k - 2 else length parts - k - 1);
               skipped = 8 - (hi + lo)
           in if hd parts = [] \<and> hi \<noteq> 0 \<or> List.last parts = [] \<and> lo \<noteq> 0 \<or> hi + lo \<ge> 8 then None
              else (case (parse_hextets (take hi parts), parse_hextets (drop (length parts - lo) parts)) of
                      (Some a, Some b) \<Rightarrow> Some (a * 65536 ^ (8 - hi) + b)
                    | _ \<Rightarrow> None))
      | _ \<Rightarrow> None)"

definition ipv6_int :: "string \<Rightarrow> nat option" where
  "ipv6_int s =
     (let parts = str_split (CHR '':'') s in
      if s = [] \<or> length parts < 3 then None
      else (case expand_ipv4_tail parts of
              None \<Rightarrow> None
            | Some ps \<Rightarrow> if length ps > 9 then None else ipv6_from_groups ps))"

text \<open>\<open>IPv6Address(s)\<close>: the number and the scope, which follows a percent sign.\<close>

definition ipv6_address :: "string \<Rightarrow> (nat \<times> string option) option" where
  "ipv6_address s =
     (if CHR ''/'' \<in> set s then None
      else (case str_split1 (CHR ''%'') s of
              [a, scope] \<Rightarrow>
                if scope = [] \<or> CHR ''%'' \<in> set scope then None
                else map_option (\<lambda>n. (n, Some scope)) (ipv6_int a)
            | _ \<Rightarrow> map_option (\<lambda>n. (n, None)) (ipv6_int s)))"

definition ip_bytes :: "nat \<Rightarrow> byte list" where
  "ip_bytes n = map (\<lambda>i. word_of_nat (n div 256 ^ (15 - i) mod 256)) [0..<16]"

definition show_ipv6 :: "nat \<Rightarrow> string" where
  "show_ipv6 n = ipv6_addr (ip_bytes n)"

section \<open>Addresses and networks of either family\<close>

datatype ip = V4 nat | V6 nat "string option"

definition ip_address :: "string \<Rightarrow> ip option" where
  "ip_address s =
     (case ipv4_address s of
        Some n \<Rightarrow> Some (V4 n)
      | None \<Rightarrow> map_option (\<lambda>(n, scope). V6 n scope) (ipv6_address s))"

fun ip_str :: "ip \<Rightarrow> string" where
  "ip_str (V4 n) = show_ip n"
| "ip_str (V6 n None) = show_ipv6 n"
| "ip_str (V6 n (Some scope)) = show_ipv6 n @ ''%'' @ scope"

record ipv6_net =
  n6_addr :: nat
  n6_prefix :: nat

definition prefix6_from_string :: "string \<Rightarrow> nat option" where
  "prefix6_from_string s =
     (if s = [] \<or> \<not> list_all is_digit s then None
      else (let p = read_digits s in if p \<le> 128 then Some p else None))"

definition network6_of :: "nat \<Rightarrow> nat \<Rightarrow> ipv6_net" where
  "network6_of n p = \<lparr>n6_addr = n div 2 ^ (128 - p) * 2 ^ (128 - p), n6_prefix = p\<rparr>"

text \<open>\<open>IPv6Network(s, strict=False)\<close>; the scope of an address that is itself the network's is left out.\<close>

definition ipv6_network :: "string \<Rightarrow> ipv6_net option" where
  "ipv6_network s =
     (case str_split (CHR ''/'') s of
        [a] \<Rightarrow> map_option (\<lambda>(n, _). network6_of n 128) (ipv6_address a)
      | [a, m] \<Rightarrow> (case ipv6_address a of None \<Rightarrow> None
                   | Some (n, _) \<Rightarrow> map_option (network6_of n) (prefix6_from_string m))
      | _ \<Rightarrow> None)"

definition show_net6 :: "ipv6_net \<Rightarrow> string" where
  "show_net6 n = show_ipv6 (n6_addr n) @ ''/'' @ show_nat (n6_prefix n)"

datatype ip_net = Net4 ipv4_net | Net6 ipv6_net

definition ip_network :: "string \<Rightarrow> ip_net option" where
  "ip_network s =
     (case ipv4_network s of
        Some n \<Rightarrow> Some (Net4 n)
      | None \<Rightarrow> map_option Net6 (ipv6_network s))"

text \<open>\<open>ip in net\<close>: an address of the other family is in no network.\<close>

fun ip_in_net :: "ip \<Rightarrow> ip_net \<Rightarrow> bool" where
  "ip_in_net (V4 i) (Net4 n) = in_net i n"
| "ip_in_net (V6 i _) (Net6 n) = (i div 2 ^ (128 - n6_prefix n) * 2 ^ (128 - n6_prefix n) = n6_addr n)"
| "ip_in_net _ _ = False"

fun ip_version :: "ip \<Rightarrow> nat" where
  "ip_version (V4 _) = 4"
| "ip_version (V6 _ _) = 6"

fun ip_int :: "ip \<Rightarrow> nat" where
  "ip_int (V4 n) = n"
| "ip_int (V6 n _) = n"

lemma ip_address_examples:
  "ip_address ''::'' = Some (V6 0 None)"
  "ip_address ''fe80::1%eth0'' = Some (V6 (0xfe80 * 2 ^ 112 + 1) (Some ''eth0''))"
  "ip_address ''1:2:3:4:5:6:7::'' = Some (V6 0x00010002000300040005000600070000 None)"
  "ip_address ''::ffff:1.2.3.4'' = Some (V6 0xffff01020304 None)"
  "ip_address ''10.0.0.1'' = Some (V4 0x0a000001)"
  "ip_address '':::'' = None" "ip_address ''1::2::3'' = None" "ip_address '':1:2:3:4:5:6:7'' = None"
  "ip_address ''1:2:3:4:5:6:7:8::'' = None"
  by code_simp+

lemma ip_str_examples:
  "ip_str (V6 0 None) = ''::''" "ip_str (V6 (0x20010db8 * 2 ^ 96 + 5) (Some ''x'')) = ''2001:db8::5%x''"
  by code_simp+

end
