(* ===== verification/WebUIPorts.thy ===== *)
theory WebUIPorts
  imports State
begin

text \<open>
  Host ports for the web interfaces of devices: the allocator of \<open>services/webui_ports.py\<close>
  (range text, ports that \<open>docker ps\<close> shows as published, first free port, sticky reuse) and
  the two loops that draw from it, \<open>DeployController._allocate_webui_ports\<close> and
  \<open>NodeLifecycleController._allocate_node_webui\<close>. The answer of \<open>docker ps\<close> on the master is a
  parameter: return code and output.
\<close>

section \<open>The allocator\<close>

datatype webui_error = BadRange | RangeExhausted

definition parse_port_range :: "string \<Rightarrow> webui_error + nat \<times> nat" where
  "parse_port_range spec =
     (case str_split (CHR ''-'') spec of
        [a, b] \<Rightarrow>
          if a \<noteq> [] \<and> b \<noteq> [] \<and> list_all is_digit a \<and> list_all is_digit b then
            (let low = read_digits a; high = read_digits b
             in if 1 \<le> low \<and> low \<le> high \<and> high \<le> 65535 then Inr (low, high) else Inl BadRange)
          else Inl BadRange
      | _ \<Rightarrow> Inl BadRange)"

text \<open>\<open>chunk.split("->", 1)[0]\<close>.\<close>

fun before_arrow :: "string \<Rightarrow> string" where
  "before_arrow [] = []"
| "before_arrow (c # s) = (if startswith (c # s) ''->'' then [] else c # before_arrow s)"

definition chunk_port :: "string \<Rightarrow> string \<Rightarrow> int option" where
  "chunk_port bind_ip chunk =
     (let chunk = str_strip chunk in
      if \<not> str_in ''->'' chunk then None
      else (let lhs = before_arrow chunk in
            if CHR '':'' \<notin> set lhs then None
            else (case str_rpartition (CHR '':'') lhs of (ip_part, port_part) \<Rightarrow>
                    if ip_part \<noteq> bind_ip \<and> \<not> (ip_part = ''0.0.0.0'' \<or> bind_ip = ''0.0.0.0'') then None
                    else py_int port_part)))"

definition line_ports :: "string \<Rightarrow> string \<Rightarrow> int list" where
  "line_ports bind_ip line =
     (case str_split1 (CHR 0x09) line of
        [name, ports] \<Rightarrow>
          (let ports_str = str_strip ports
           in if ports_str = [] then []
              else List.map_filter (chunk_port bind_ip) (str_split (CHR '','') ports_str))
      | _ \<Rightarrow> [])"

definition ports_in_use_for_webui :: "int \<times> string \<Rightarrow> string \<Rightarrow> int set" where
  "ports_in_use_for_webui docker_ps bind_ip =
     (case docker_ps of (rc, out) \<Rightarrow>
        if rc \<noteq> 0 \<or> out = [] then {}
        else set (concat (map (line_ports bind_ip) (str_splitlines out))))"

definition pick_port :: "nat \<Rightarrow> nat \<Rightarrow> int set \<Rightarrow> int option \<Rightarrow> int option" where
  "pick_port low high used preferred =
     (case preferred of
        Some p \<Rightarrow> if int low \<le> p \<and> p \<le> int high \<and> p \<notin> used then Some p
                  else List.find (\<lambda>port. port \<notin> used) [int low .. int high]
      | None \<Rightarrow> List.find (\<lambda>port. port \<notin> used) [int low .. int high])"

definition allocate_webui_port ::
  "int \<times> string \<Rightarrow> string \<Rightarrow> string \<Rightarrow> int set \<Rightarrow> int option \<Rightarrow> webui_error + int" where
  "allocate_webui_port docker_ps bind_ip port_range used_extra preferred =
     (case parse_port_range port_range of
        Inl e \<Rightarrow> Inl e
      | Inr (low, high) \<Rightarrow>
          (case pick_port low high (ports_in_use_for_webui docker_ps bind_ip \<union> used_extra) preferred of
             Some port \<Rightarrow> Inr port
           | None \<Rightarrow> Inl RangeExhausted))"

section \<open>Allocating for a whole deployment\<close>

text \<open>
  The requested container ports of each node, in order (\<open>int(w.get("container_port") or 0)\<close>),
  and the allocations of the previous state. The loop state is the set of ports used in this
  deployment and the entries so far.
\<close>

definition alloc_entry ::
  "int \<times> string \<Rightarrow> string \<Rightarrow> string \<Rightarrow> (int, int) dict \<Rightarrow> int \<Rightarrow> int set \<times> webui_allocation list
     \<Rightarrow> webui_error + int set \<times> webui_allocation list" where
  "alloc_entry docker_ps bind_ip port_range previous cport st =
     (case st of (used, entries) \<Rightarrow>
        if cport \<le> 0 then Inr st
        else (case allocate_webui_port docker_ps bind_ip port_range used (dict_get previous cport) of
                Inl e \<Rightarrow> Inl e
              | Inr hport \<Rightarrow> Inr (insert hport used,
                  entries @ [\<lparr>wst_container_port = cport, wst_host_port = hport, wst_bind_ip = bind_ip, wst_proto = ''tcp''\<rparr>])))"

definition previous_ports :: "webui_allocation list \<Rightarrow> (int, int) dict" where
  "previous_ports allocs = dict_of (map (\<lambda>a. (wst_container_port a, wst_host_port a)) allocs)"

definition alloc_node ::
  "int \<times> string \<Rightarrow> string \<Rightarrow> string \<Rightarrow> (string, webui_allocation list) dict \<Rightarrow> string \<times> int list
     \<Rightarrow> int set \<times> (string, webui_allocation list) dict \<Rightarrow> webui_error + int set \<times> (string, webui_allocation list) dict" where
  "alloc_node docker_ps bind_ip port_range prev nw st =
     (case (nw, st) of ((node, wishlist), (used, allocs)) \<Rightarrow>
        bindE (foldE (alloc_entry docker_ps bind_ip port_range (previous_ports (dict_get_or prev node []))) wishlist (used, []))
          (\<lambda>(used', entries). Inr (used', if entries \<noteq> [] then dict_set node entries allocs else allocs)))"

definition allocate_webui_ports ::
  "int \<times> string \<Rightarrow> string \<Rightarrow> string \<Rightarrow> (string, webui_allocation list) dict \<Rightarrow> (string \<times> int list) list
     \<Rightarrow> webui_error + (string, webui_allocation list) dict" where
  "allocate_webui_ports docker_ps bind_ip port_range prev webui_wishlist =
     bindE (foldE (alloc_node docker_ps bind_ip port_range prev) webui_wishlist ({}, []))
       (\<lambda>(used, allocs). Inr allocs)"

text \<open>\<open>_allocate_node_webui\<close>: adding one node to a running lab.\<close>

definition allocate_node_webui ::
  "int \<times> string \<Rightarrow> string \<Rightarrow> string \<Rightarrow> string \<Rightarrow> int list \<Rightarrow> (string, webui_allocation list) dict
     \<Rightarrow> webui_error + (string, webui_allocation list) dict" where
  "allocate_node_webui docker_ps bind_ip port_range node wishlist allocations =
     (if wishlist = [] then Inr allocations
      else
        (let existing = set (map wst_host_port (concat (dict_values allocations)));
             previous = previous_ports (dict_get_or allocations node [])
         in bindE (foldE (alloc_entry docker_ps bind_ip port_range previous) wishlist (existing, []))
              (\<lambda>(used, allocated). Inr (if allocated \<noteq> [] then dict_set node allocated allocations else allocations))))"

section \<open>Lemmas\<close>

lemma pick_port_sound:
  "pick_port low high used preferred = Some p \<Longrightarrow> int low \<le> p \<and> p \<le> int high \<and> p \<notin> used"
  by (auto simp: pick_port_def find_Some_iff in_set_conv_nth [symmetric] split: option.splits if_splits dest!: nth_mem)

lemma pick_port_complete:
  "pick_port low high used preferred = None \<longleftrightarrow> (\<forall>p. int low \<le> p \<longrightarrow> p \<le> int high \<longrightarrow> p \<in> used)"
  by (auto simp: pick_port_def find_None_iff split: option.splits)

interpretation webui_pool: pool_allocator "{int low .. int high}" "\<lambda>used. pick_port low high used preferred"
proof
  show "finite {int low .. int high}" by simp
  show "pick_port low high used preferred = Some x \<Longrightarrow> x \<in> {int low .. int high} \<and> x \<notin> used" for used x
    using pick_port_sound by auto
  show "pick_port low high used preferred = None \<Longrightarrow> {int low .. int high} \<subseteq> used" for used
    by (auto simp: pick_port_complete)
qed

lemma allocate_cases:
  assumes "parse_port_range port_range = Inr (low, high)"
  shows "allocate_webui_port docker_ps bind_ip port_range used_extra preferred =
    (case pick_port low high (ports_in_use_for_webui docker_ps bind_ip \<union> used_extra) preferred of
       Some port \<Rightarrow> Inr port | None \<Rightarrow> Inl RangeExhausted)"
  using assms by (simp add: allocate_webui_port_def)

text \<open>What the loops keep: the host ports handed out so far are different, free and in range.\<close>

definition entries_ok :: "int \<times> string \<Rightarrow> string \<Rightarrow> nat \<Rightarrow> nat \<Rightarrow> int set \<Rightarrow> webui_allocation list \<Rightarrow> bool" where
  "entries_ok docker_ps bind_ip low high avoid es \<longleftrightarrow>
     distinct (map wst_host_port es)
     \<and> set (map wst_host_port es) \<subseteq> {int low .. int high} - (ports_in_use_for_webui docker_ps bind_ip \<union> avoid)"

lemma entries_ok_append:
  "entries_ok docker_ps bind_ip low high avoid es \<Longrightarrow>
   entries_ok docker_ps bind_ip low high (avoid \<union> set (map wst_host_port es)) es' \<Longrightarrow>
   entries_ok docker_ps bind_ip low high avoid (es @ es')"
  unfolding entries_ok_def map_append distinct_append set_append by blast

lemma alloc_entry_pos:
  "0 < c \<Longrightarrow> parse_port_range port_range = Inr (low, high) \<Longrightarrow>
   alloc_entry docker_ps bind_ip port_range previous c (used, es) =
     (case pick_port low high (ports_in_use_for_webui docker_ps bind_ip \<union> used) (dict_get previous c) of
        Some h \<Rightarrow> Inr (insert h used, es @ [\<lparr>wst_container_port = c, wst_host_port = h, wst_bind_ip = bind_ip, wst_proto = ''tcp''\<rparr>])
      | None \<Rightarrow> Inl RangeExhausted)"
  by (simp add: alloc_entry_def allocate_cases split: option.splits)

lemma alloc_node_pair:
  "alloc_node docker_ps bind_ip port_range prev (n, cs) (used, allocs) =
     bindE (foldE (alloc_entry docker_ps bind_ip port_range (previous_ports (dict_get_or prev n []))) cs (used, []))
       (\<lambda>(used', es). Inr (used', if es \<noteq> [] then dict_set n es allocs else allocs))"
  by (simp add: alloc_node_def)

lemma alloc_entries:
  assumes "foldE (alloc_entry docker_ps bind_ip port_range previous) cports (used, es) = Inr (used', es')"
    "parse_port_range port_range = Inr (low, high)"
    "entries_ok docker_ps bind_ip low high avoid es" "used = avoid \<union> set (map wst_host_port es)"
  shows "entries_ok docker_ps bind_ip low high avoid es' \<and> used' = avoid \<union> set (map wst_host_port es')
     \<and> map wst_container_port es' = map wst_container_port es @ filter (\<lambda>c. 0 < c) cports"
  using assms
proof (induction cports arbitrary: used es)
  case (Cons c cports)
  show ?case
  proof (cases "c \<le> 0")
    case True
    then have "alloc_entry docker_ps bind_ip port_range previous c (used, es) = Inr (used, es)"
      by (simp add: alloc_entry_def)
    then show ?thesis using Cons True by simp
  next
    case False
    let ?U = "ports_in_use_for_webui docker_ps bind_ip \<union> used"
    obtain h where h: "pick_port low high ?U (dict_get previous c) = Some h"
      and rest: "foldE (alloc_entry docker_ps bind_ip port_range previous) cports
        (insert h used, es @ [\<lparr>wst_container_port = c, wst_host_port = h, wst_bind_ip = bind_ip, wst_proto = ''tcp''\<rparr>]) = Inr (used', es')"
      using Cons.prems(1,2) False
      by (cases "pick_port low high ?U (dict_get previous c)") (simp_all add: alloc_entry_pos)
    have "entries_ok docker_ps bind_ip low high avoid
        (es @ [\<lparr>wst_container_port = c, wst_host_port = h, wst_bind_ip = bind_ip, wst_proto = ''tcp''\<rparr>])"
      using pick_port_sound [OF h] Cons.prems(3,4) by (auto simp: entries_ok_def)
    then show ?thesis using Cons.IH [OF rest Cons.prems(2)] Cons.prems(4) False by auto
  qed
qed simp

lemma alloc_nodes:
  assumes "foldE (alloc_node docker_ps bind_ip port_range prev) wl (used, allocs) = Inr (used', allocs')"
    "parse_port_range port_range = Inr (low, high)" "dict_ok wl" "\<forall>n \<in> fst ` set wl. n \<notin> fst ` set allocs"
    "entries_ok docker_ps bind_ip low high {} (concat (dict_values allocs))"
    "used = set (map wst_host_port (concat (dict_values allocs)))"
  shows "entries_ok docker_ps bind_ip low high {} (concat (dict_values allocs'))
     \<and> map (\<lambda>(n, es). (n, map wst_container_port es)) allocs'
       = map (\<lambda>(n, es). (n, map wst_container_port es)) allocs
         @ filter (\<lambda>nc. snd nc \<noteq> []) (map (\<lambda>(n, cs). (n, filter (\<lambda>c. 0 < c) cs)) wl)"
  using assms
proof (induction wl arbitrary: used allocs)
  case (Cons nw wl)
  obtain n cs where nw: "nw = (n, cs)" by fastforce
  obtain used1 es where f: "foldE (alloc_entry docker_ps bind_ip port_range (previous_ports (dict_get_or prev n []))) cs (used, []) = Inr (used1, es)"
    and rest: "foldE (alloc_node docker_ps bind_ip port_range prev) wl
      (used1, if es \<noteq> [] then dict_set n es allocs else allocs) = Inr (used', allocs')"
    using Cons.prems(1) nw
    by (cases "foldE (alloc_entry docker_ps bind_ip port_range (previous_ports (dict_get_or prev n []))) cs (used, [])")
      (auto simp: alloc_node_pair simp del: if_split split: prod.splits)
  have e: "entries_ok docker_ps bind_ip low high used es" "used1 = used \<union> set (map wst_host_port es)"
    "map wst_container_port es = filter (\<lambda>c. 0 < c) cs"
    using alloc_entries [OF f Cons.prems(2)] by (auto simp: entries_ok_def)
  define al where "al = (if es \<noteq> [] then allocs @ [(n, es)] else allocs)"
  have new: "n \<notin> fst ` set allocs" using Cons.prems(4) nw by simp
  then have al: "(if es \<noteq> [] then dict_set n es allocs else allocs) = al" by (simp add: al_def dict_set_new)
  have v: "concat (dict_values al) = concat (dict_values allocs) @ es" by (simp add: al_def)
  have "entries_ok docker_ps bind_ip low high {} (concat (dict_values al))"
    unfolding v using e(1) Cons.prems(5,6) by (intro entries_ok_append) simp_all
  moreover have "used1 = set (map wst_host_port (concat (dict_values al)))"
    unfolding v using e(2) Cons.prems(6) by auto
  moreover have "\<forall>m \<in> fst ` set wl. m \<notin> fst ` set al"
    using Cons.prems(3,4) nw by (auto simp: al_def)
  moreover have "es = [] \<longleftrightarrow> filter (\<lambda>c. 0 < c) cs = []" using e(3) by (metis map_is_Nil_conv)
  ultimately show ?case
    using Cons.IH [OF rest [unfolded al] Cons.prems(2)] Cons.prems(3) nw e(3) by (auto simp: al_def)
qed simp

section \<open>Reading the output of docker ps\<close>

text \<open>A container with its published ports \<open>(host ip, host port, container side)\<close> as docker prints it.\<close>

definition render_mapping :: "string \<times> nat \<times> string \<Rightarrow> string" where
  "render_mapping m = (case m of (ip, port, target) \<Rightarrow> ip @ '':'' @ show_nat port @ ''->'' @ target)"

definition render_line :: "string \<times> (string \<times> nat \<times> string) list \<Rightarrow> string" where
  "render_line c = fst c @ [CHR 0x09] @ str_join '', '' (map render_mapping (snd c))"

definition plain_text :: "string \<Rightarrow> bool" where
  "plain_text s \<longleftrightarrow> list_all (\<lambda>c. \<not> is_space c \<and> c \<noteq> CHR '','' \<and> c \<noteq> CHR ''-'') s"

definition container_ok :: "string \<times> (string \<times> nat \<times> string) list \<Rightarrow> bool" where
  "container_ok c \<longleftrightarrow> CHR 0x09 \<notin> set (fst c)
     \<and> list_all (\<lambda>(ip, port, target). plain_text ip \<and> plain_text target) (snd c)"

lemma before_arrow_append: "CHR ''-'' \<notin> set a \<Longrightarrow> before_arrow (a @ ''->'' @ b) = a"
  by (induction a) (auto simp: startswith_def)

lemma rpartition_last: "CHR '':'' \<notin> set w \<Longrightarrow> str_rpartition (CHR '':'') (a @ '':'' @ w) = (a, w)"
proof -
  assume "CHR '':'' \<notin> set w"
  then have "takeWhile (\<lambda>x. x \<noteq> CHR '':'') (rev w @ CHR '':'' # rev a) = rev w"
    "dropWhile (\<lambda>x. x \<noteq> CHR '':'') (rev w @ CHR '':'' # rev a) = CHR '':'' # rev a"
    by (subst takeWhile_append2 dropWhile_append2; auto)+
  then show ?thesis by (simp add: str_rpartition_def)
qed

lemma plain_no_space: "plain_text s \<Longrightarrow> c \<in> set s \<Longrightarrow> \<not> is_space c \<and> c \<noteq> CHR '','' \<and> c \<noteq> CHR ''-''"
  by (simp add: plain_text_def list_all_iff)

lemma mapping_chars:
  assumes "plain_text ip" "plain_text target" "c \<in> set (render_mapping (ip, port, target))"
  shows "\<not> is_space c \<and> c \<noteq> CHR '',''"
proof -
  have "c \<in> set ip \<or> c = CHR '':'' \<or> c \<in> set (show_nat port) \<or> c = CHR ''-'' \<or> c = CHR ''>'' \<or> c \<in> set target"
    using assms(3) by (auto simp: render_mapping_def)
  moreover have "\<not> is_space c \<and> c \<noteq> CHR '',''" if "c \<in> set (show_nat port)"
    using show_nat_digits [of port] that by (auto simp: list_all_iff is_digit_def is_space_def)
  ultimately show ?thesis
    using plain_no_space [OF assms(1), of c] plain_no_space [OF assms(2), of c]
    by (elim disjE) (simp_all add: is_space_def)
qed

lemma strip_spaced:
  assumes "\<forall>c \<in> set s. \<not> is_space c"
  shows "str_strip ('' '' @ s) = s" "str_strip s = s"
proof -
  show "str_strip s = s" unfolding str_strip_def by (rule strip_none) (use assms in auto)
  then show "str_strip ('' '' @ s) = s" by (simp add: str_strip_def strip_by_def is_space_def)
qed

lemma chunk_port_mapping:
  assumes "plain_text ip" "plain_text target" "str_strip chunk = render_mapping (ip, port, target)"
  shows "chunk_port bind_ip chunk =
     (if ip = bind_ip \<or> ip = ''0.0.0.0'' \<or> bind_ip = ''0.0.0.0'' then Some (int port) else None)"
proof -
  have d: "CHR ''-'' \<notin> set (show_nat port)" "CHR '':'' \<notin> set (show_nat port)"
    using show_nat_digits [of port] by (auto simp: list_all_iff is_digit_def)
  have "CHR ''-'' \<notin> set (ip @ '':'' @ show_nat port)" using plain_no_space [OF assms(1)] d by auto
  from before_arrow_append [OF this, of target]
  have b: "before_arrow (render_mapping (ip, port, target)) = ip @ '':'' @ show_nat port"
    by (simp add: render_mapping_def)
  have "str_in ''->'' (render_mapping (ip, port, target))"
    unfolding str_in_iff render_mapping_def by (auto intro: exI [of _ "ip @ '':'' @ show_nat port"])
  then show ?thesis
    using b rpartition_last [OF d(2), of ip] assms(3) by (auto simp: chunk_port_def Let_def)
qed

lemma split_join_spaced:
  "\<forall>w \<in> set ws. CHR '','' \<notin> set w \<Longrightarrow> ws \<noteq> [] \<Longrightarrow>
     str_split (CHR '','') (str_join '', '' ws) = hd ws # map ((@) '' '') (tl ws)"
proof (induction ws)
  case (Cons w ws)
  show ?case
  proof (cases ws)
    case Nil
    then show ?thesis using Cons.prems by (simp add: str_split_no_sep)
  next
    case (Cons v vs)
    then have "str_split (CHR '','') (str_join '', '' (w # ws)) = w # str_split (CHR '','') ('' '' @ str_join '', '' ws)"
      using Cons.prems str_split_append [of "CHR '',''" w "'' '' @ str_join '', '' ws"] by simp
    also have "\<dots> = w # ('' '' @ hd ws) # map ((@) '' '') (tl ws)"
      using Cons.IH Cons.prems Cons by simp
    finally show ?thesis using Cons by simp
  qed
qed simp

lemma join_ends:
  assumes "ws \<noteq> []" "\<forall>w \<in> set ws. w \<noteq> [] \<and> (\<forall>c \<in> set w. \<not> is_space c)"
  shows "str_join '', '' ws \<noteq> [] \<and> \<not> is_space (hd (str_join '', '' ws)) \<and> \<not> is_space (last (str_join '', '' ws))"
  using assms
proof (induction ws)
  case (Cons w ws)
  then show ?case by (cases ws) auto
qed simp

lemma strip_ends: "s \<noteq> [] \<Longrightarrow> \<not> is_space (hd s) \<Longrightarrow> \<not> is_space (last s) \<Longrightarrow> str_strip s = s"
proof -
  assume h: "s \<noteq> []" "\<not> is_space (hd s)" "\<not> is_space (last s)"
  have "dropWhile is_space s = s" using h by (simp only: dropWhile_eq_self_iff) simp
  moreover have "dropWhile is_space (rev s) = rev s"
    using h by (simp only: dropWhile_eq_self_iff hd_rev) simp
  ultimately show ?thesis by (simp add: str_strip_def strip_by_def)
qed

lemma map_filter_chunks:
  assumes "list_all (\<lambda>(ip, port, target). plain_text ip \<and> plain_text target) ms"
    "list_all2 (\<lambda>chunk m. str_strip chunk = render_mapping m) pieces ms"
  shows "List.map_filter (chunk_port bind_ip) pieces = map (\<lambda>(ip, port, target). int port)
     (filter (\<lambda>(ip, port, target). ip = bind_ip \<or> ip = ''0.0.0.0'' \<or> bind_ip = ''0.0.0.0'') ms)"
  using assms(2,1)
proof (induction rule: list_all2_induct)
  case (Cons chunk pieces m ms)
  obtain ip port target where "m = (ip, port, target)" by (metis prod_cases3)
  then show ?case using Cons chunk_port_mapping [of ip target chunk port bind_ip]
    by (simp add: List.map_filter_simps)
qed (simp add: List.map_filter_simps)

lemma line_ports_render:
  assumes "container_ok c"
  shows "line_ports bind_ip (render_line c) = map (\<lambda>(ip, port, target). int port)
     (filter (\<lambda>(ip, port, target). ip = bind_ip \<or> ip = ''0.0.0.0'' \<or> bind_ip = ''0.0.0.0'') (snd c))"
proof -
  obtain name ms where c: "c = (name, ms)" by fastforce
  let ?ws = "map render_mapping ms"
  have ok: "list_all (\<lambda>(ip, port, target). plain_text ip \<and> plain_text target) ms" "CHR 0x09 \<notin> set name"
    using assms c by (simp_all add: container_ok_def)
  have split: "str_split1 (CHR 0x09) (render_line c) = [name, str_join '', '' ?ws]"
  proof -
    have "takeWhile (\<lambda>x. x \<noteq> CHR 0x09) (name @ CHR 0x09 # str_join '', '' ?ws) = name"
      "dropWhile (\<lambda>x. x \<noteq> CHR 0x09) (name @ CHR 0x09 # str_join '', '' ?ws) = CHR 0x09 # str_join '', '' ?ws"
      using ok(2) by (subst takeWhile_append2 dropWhile_append2; auto)+
    then show ?thesis by (simp add: str_split1_def render_line_def c)
  qed
  show ?thesis
  proof (cases "ms = []")
    case True
    then show ?thesis using split c by (simp add: line_ports_def str_strip_def strip_by_def)
  next
    case False
    have chars: "w \<noteq> [] \<and> (\<forall>ch \<in> set w. \<not> is_space ch \<and> ch \<noteq> CHR '','')" if w: "w \<in> set ?ws" for w
    proof -
      obtain x where x: "x \<in> set ms" "w = render_mapping x" using w unfolding set_map by blast
      obtain ip port target where "x = (ip, port, target)" by (metis prod_cases3)
      with x have m: "(ip, port, target) \<in> set ms" "w = render_mapping (ip, port, target)" by blast+
      then have "plain_text ip" "plain_text target" using ok(1) by (auto simp: list_all_iff)
      then show ?thesis using mapping_chars [of ip target _ port] m(2) by (auto simp: render_mapping_def)
    qed
    have s: "str_strip (str_join '', '' ?ws) = str_join '', '' ?ws" "str_join '', '' ?ws \<noteq> []"
      using join_ends [of ?ws] chars False strip_ends by auto
    have "str_split (CHR '','') (str_join '', '' ?ws) = hd ?ws # map ((@) '' '') (tl ?ws)"
      using split_join_spaced [of ?ws] chars False by auto
    moreover have "list_all2 (\<lambda>chunk m. str_strip chunk = render_mapping m) (hd ?ws # map ((@) '' '') (tl ?ws)) ms"
    proof (cases ms)
      case (Cons m ms')
      have "str_strip ('' '' @ render_mapping x) = render_mapping x" "str_strip (render_mapping x) = render_mapping x"
        if "x \<in> set ms" for x
        using strip_spaced [of "render_mapping x"] chars that by auto
      then show ?thesis using Cons by (auto simp: list_all2_map1 list_all2_same)
    qed (use False in simp)
    ultimately obtain ps where "str_split (CHR '','') (str_join '', '' ?ws) = ps"
      "list_all2 (\<lambda>chunk m. str_strip chunk = render_mapping m) ps ms" by blast
    then show ?thesis using split s map_filter_chunks [OF ok(1), of ps] c by (simp add: line_ports_def)
  qed
qed

section \<open>Properties\<close>

text \<open>
  The allocator returns a port of the configured range that neither \<open>docker ps\<close> shows
  nor the caller excludes; the preferred port when that is possible. It reports an exhausted
  range exactly when every port of the range is taken, and a bad range exactly when the text is
  not two numbers with \<open>1 <= low <= high <= 65535\<close>.
\<close>

theorem allocate_webui_port_correct:
  "case parse_port_range port_range of
     Inl e \<Rightarrow> allocate_webui_port docker_ps bind_ip port_range used_extra preferred = Inl BadRange
   | Inr (low, high) \<Rightarrow>
       1 \<le> low \<and> low \<le> high \<and> high \<le> 65535 \<and>
       (let used = ports_in_use_for_webui docker_ps bind_ip \<union> used_extra
        in case allocate_webui_port docker_ps bind_ip port_range used_extra preferred of
             Inr p \<Rightarrow> p \<in> {int low .. int high} - used
               \<and> (case preferred of Some q \<Rightarrow> q \<in> {int low .. int high} - used \<longrightarrow> p = q | None \<Rightarrow> True)
           | Inl e \<Rightarrow> e = RangeExhausted \<and> {int low .. int high} \<subseteq> used)"
proof (cases "parse_port_range port_range")
  case (Inl e)
  then have "e = BadRange" by (auto simp: parse_port_range_def Let_def split: list.splits if_splits)
  then show ?thesis using Inl by (simp add: allocate_webui_port_def)
next
  case (Inr r)
  obtain low high where r: "r = (low, high)" by fastforce
  have range: "1 \<le> low \<and> low \<le> high \<and> high \<le> 65535"
    using Inr r by (auto simp: parse_port_range_def Let_def split: list.splits if_splits)
  let ?U = "ports_in_use_for_webui docker_ps bind_ip \<union> used_extra"
  show ?thesis
  proof (cases "pick_port low high ?U preferred")
    case None
    then have "{int low .. int high} \<subseteq> ?U" using webui_pool.alloc_complete by blast
    then show ?thesis using range None Inr r by (simp add: allocate_cases [OF Inr [unfolded r]] Let_def)
  next
    case (Some p)
    then have "p \<in> {int low .. int high} - ?U" using webui_pool.alloc_sound by blast
    moreover have "case preferred of Some q \<Rightarrow> q \<in> {int low .. int high} - ?U \<longrightarrow> p = q | None \<Rightarrow> True"
      using Some by (auto simp: pick_port_def split: option.splits if_splits)
    ultimately show ?thesis using range Some Inr r by (simp add: allocate_cases [OF Inr [unfolded r]] Let_def)
  qed
qed

theorem allocate_webui_port_correct_witness:
  "allocate_webui_port (1, []) ''127.0.0.1'' ''8443-8444'' {8443} (Some 8444) = Inr 8444"
proof -
  have "parse_port_range ''8443-8444'' = Inr (8443, 8444)"
    by (simp add: parse_port_range_def is_digit_def read_digits_def)
  moreover have "\<not> {8443 .. 8444} \<subseteq> {8443 :: int}"
  proof -
    have "(8444 :: int) \<in> {8443 .. 8444} \<and> 8444 \<notin> {8443 :: int}" by simp
    then show ?thesis by blast
  qed
  ultimately show ?thesis
    using allocate_webui_port_correct [where port_range = "''8443-8444''" and docker_ps = "(1, [])"
        and bind_ip = "''127.0.0.1''" and used_extra = "{8443}" and preferred = "Some 8444"]
    by (auto simp: ports_in_use_for_webui_def Let_def split: sum.splits)
qed

text \<open>
  What \<open>docker ps\<close> prints is understood: for a listing of containers with published
  ports, the ports in use are exactly the host ports published on the bind address, on all
  addresses, or on any address when the bind address stands for all of them.
\<close>

theorem ports_in_use_rendered:
  assumes "list_all container_ok cs" and "str_splitlines out = map render_line cs" and "out \<noteq> []"
  shows "ports_in_use_for_webui (0, out) bind_ip =
     {int port |ip port target c. c \<in> set cs \<and> (ip, port, target) \<in> set (snd c)
        \<and> (ip = bind_ip \<or> ip = ''0.0.0.0'' \<or> bind_ip = ''0.0.0.0'')}"
proof -
  have "set (concat (map (line_ports bind_ip) (map render_line cs)))
      = (\<Union>c \<in> set cs. set (line_ports bind_ip (render_line c)))" by simp
  also have "\<dots> = (\<Union>c \<in> set cs. set (map (\<lambda>(ip, port, target). int port)
      (filter (\<lambda>(ip, port, target). ip = bind_ip \<or> ip = ''0.0.0.0'' \<or> bind_ip = ''0.0.0.0'') (snd c))))"
    using assms(1) line_ports_render by (simp add: list_all_iff)
  also have "\<dots> = {int port |ip port target c. c \<in> set cs \<and> (ip, port, target) \<in> set (snd c)
        \<and> (ip = bind_ip \<or> ip = ''0.0.0.0'' \<or> bind_ip = ''0.0.0.0'')}"
  proof -
    have "set (map (\<lambda>(ip, port, target). int port)
        (filter (\<lambda>(ip, port, target). ip = bind_ip \<or> ip = ''0.0.0.0'' \<or> bind_ip = ''0.0.0.0'') ms))
      = {int port |ip port target. (ip, port, target) \<in> set ms \<and> (ip = bind_ip \<or> ip = ''0.0.0.0'' \<or> bind_ip = ''0.0.0.0'')}"
      for ms :: "(string \<times> nat \<times> string) list"
      by force
    then show ?thesis by blast
  qed
  finally show ?thesis using assms(2,3) by (simp add: ports_in_use_for_webui_def)
qed

lemma example_line: "render_line (''clab-a'', [(''0.0.0.0'', 84, ''443/tcp'')]) = ''clab-a'' @ [CHR 0x09] @ ''0.0.0.0:84->443/tcp''"
  by (simp add: render_line_def render_mapping_def show_nat.simps)

theorem ports_in_use_rendered_witness:
  "84 \<in> ports_in_use_for_webui (0, ''clab-a'' @ [CHR 0x09] @ ''0.0.0.0:84->443/tcp'') ''127.0.0.1''"
proof -
  have "str_splitlines (''clab-a'' @ [CHR 0x09] @ ''0.0.0.0:84->443/tcp'')
      = map render_line [(''clab-a'', [(''0.0.0.0'', 84, ''443/tcp'')])]"
    unfolding list.map example_line by (simp add: str_splitlines_def is_newline_def)
  then show ?thesis
    by (subst ports_in_use_rendered [of "[(''clab-a'', [(''0.0.0.0'', 84, ''443/tcp'')])]"])
      (auto simp: container_ok_def plain_text_def is_space_def)
qed

text \<open>
  C28: a deployment gives every requested web port of every node its own host port: all of them
  are in range, different from each other and from everything that is published, and the result
  lists the nodes and their positive container ports in the order of the request.
\<close>

theorem allocate_webui_ports_distinct:
  assumes "allocate_webui_ports docker_ps bind_ip port_range prev wishlist = Inr allocs"
    and "parse_port_range port_range = Inr (low, high)" and "dict_ok wishlist"
  shows "distinct (map wst_host_port (concat (dict_values allocs)))
     \<and> set (map wst_host_port (concat (dict_values allocs)))
         \<subseteq> {int low .. int high} - ports_in_use_for_webui docker_ps bind_ip
     \<and> map (\<lambda>(n, es). (n, map wst_container_port es)) allocs
         = filter (\<lambda>nc. snd nc \<noteq> []) (map (\<lambda>(n, cs). (n, filter (\<lambda>c. 0 < c) cs)) wishlist)"
proof -
  obtain used where "foldE (alloc_node docker_ps bind_ip port_range prev) wishlist ({}, []) = Inr (used, allocs)"
    using assms(1) by (auto simp: allocate_webui_ports_def bindE_eq_Inr)
  from alloc_nodes [OF this assms(2,3)]
  show ?thesis by (simp add: entries_ok_def)
qed

lemma range_8443: "parse_port_range ''8443-8444'' = Inr (8443, 8444)"
  by (simp add: parse_port_range_def is_digit_def read_digits_def)

lemmas alloc_eval = alloc_node_pair alloc_entry_pos [OF _ range_8443] pick_port_def ports_in_use_for_webui_def
  previous_ports_def dict_get_or_def dict_of_def upto.simps

lemma deploy_example:
  "allocate_webui_ports (1, []) ''127.0.0.1'' ''8443-8444'' [(''b'', [\<lparr>wst_container_port = 443, wst_host_port = 8443,
     wst_bind_ip = ''127.0.0.1'', wst_proto = ''tcp''\<rparr>])] [(''a'', [443]), (''b'', [443])]
   = Inr [(''a'', [\<lparr>wst_container_port = 443, wst_host_port = 8443, wst_bind_ip = ''127.0.0.1'', wst_proto = ''tcp''\<rparr>]),
          (''b'', [\<lparr>wst_container_port = 443, wst_host_port = 8444, wst_bind_ip = ''127.0.0.1'', wst_proto = ''tcp''\<rparr>])]"
  by (simp add: allocate_webui_ports_def alloc_eval)

theorem allocate_webui_ports_distinct_witness:
  "distinct (map wst_host_port [\<lparr>wst_container_port = 443, wst_host_port = 8443, wst_bind_ip = ''127.0.0.1'', wst_proto = ''tcp''\<rparr>,
     \<lparr>wst_container_port = 443, wst_host_port = 8444, wst_bind_ip = ''127.0.0.1'', wst_proto = ''tcp''\<rparr>])"
  using allocate_webui_ports_distinct [OF deploy_example range_8443] by simp

text \<open>
  Reuse of a port is not guaranteed. A node that comes earlier in the request may be given
  the port another node had, which then has to move, although no other lab uses it; and when a
  node is added to a running lab its own previous ports count as taken, so that it never gets
  one of them back.
\<close>

theorem webui_ports_not_sticky:
  "allocate_webui_ports (1, []) ''127.0.0.1'' ''8443-8444'' [(''b'', [\<lparr>wst_container_port = 443, wst_host_port = 8443,
     wst_bind_ip = ''127.0.0.1'', wst_proto = ''tcp''\<rparr>])] [(''a'', [443]), (''b'', [443])]
   = Inr [(''a'', [\<lparr>wst_container_port = 443, wst_host_port = 8443, wst_bind_ip = ''127.0.0.1'', wst_proto = ''tcp''\<rparr>]),
          (''b'', [\<lparr>wst_container_port = 443, wst_host_port = 8444, wst_bind_ip = ''127.0.0.1'', wst_proto = ''tcp''\<rparr>])]
   \<and> (allocate_node_webui docker_ps bind_ip port_range node wishlist allocations = Inr allocations'
       \<and> parse_port_range port_range = Inr (low, high) \<and> allocations' \<noteq> allocations
       \<and> dict_get allocations node = Some old \<and> dict_get allocations' node = Some new
      \<longrightarrow> set (map wst_host_port old) \<inter> set (map wst_host_port new) = {})"
proof -
  have "set (map wst_host_port old) \<inter> set (map wst_host_port new) = {}"
    if h: "allocate_node_webui docker_ps bind_ip port_range node wishlist allocations = Inr allocations'"
      "parse_port_range port_range = Inr (low, high)" "allocations' \<noteq> allocations"
      "dict_get allocations node = Some old" "dict_get allocations' node = Some new"
  proof -
    let ?ex = "set (map wst_host_port (concat (dict_values allocations)))"
    let ?pr = "previous_ports (dict_get_or allocations node [])"
    obtain used es where f: "foldE (alloc_entry docker_ps bind_ip port_range ?pr) wishlist (?ex, []) = Inr (used, es)"
      and a: "allocations' = (if es \<noteq> [] then dict_set node es allocations else allocations)"
      using h(1,3) by (auto simp: allocate_node_webui_def bindE_eq_Inr Let_def split: if_splits)
    have "new = es" using a h(3,5) by (auto split: if_splits)
    moreover have "entries_ok docker_ps bind_ip low high ?ex es"
      using alloc_entries [OF f h(2), of ?ex] by (simp add: entries_ok_def)
    moreover have "old \<in> set (dict_values allocations)" using dict_get_values [OF h(4)] .
    ultimately show ?thesis by (auto simp: entries_ok_def)
  qed
  then show ?thesis using deploy_example by blast
qed

theorem webui_ports_not_sticky_witness:
  "\<exists>new. allocate_node_webui (1, []) ''127.0.0.1'' ''8443-8444'' ''a'' [443]
       [(''a'', [\<lparr>wst_container_port = 443, wst_host_port = 8443, wst_bind_ip = ''127.0.0.1'', wst_proto = ''tcp''\<rparr>])]
     = Inr [(''a'', new)] \<and> 8443 \<notin> set (map wst_host_port new)"
proof -
  let ?old = "[\<lparr>wst_container_port = 443, wst_host_port = 8443, wst_bind_ip = ''127.0.0.1'', wst_proto = ''tcp''\<rparr>]"
  let ?new = "[\<lparr>wst_container_port = 443, wst_host_port = 8444, wst_bind_ip = ''127.0.0.1'', wst_proto = ''tcp''\<rparr>]"
  have a: "allocate_node_webui (1, []) ''127.0.0.1'' ''8443-8444'' ''a'' [443] [(''a'', ?old)] = Inr [(''a'', ?new)]"
    by (simp add: allocate_node_webui_def alloc_eval)
  have "set (map wst_host_port ?old) \<inter> set (map wst_host_port ?new) = {}"
    using webui_ports_not_sticky [where docker_ps = "(1, [])" and bind_ip = "''127.0.0.1''"
        and port_range = "''8443-8444''" and node = "''a''" and wishlist = "[443]" and allocations = "[(''a'', ?old)]"
        and allocations' = "[(''a'', ?new)]" and old = ?old and new = ?new and low = 8443 and high = 8444] a range_8443
    by simp
  then show ?thesis using a by auto
qed

end
