(* ===== verification/HostsConfig.thy ===== *)
theory HostsConfig
  imports Values IpAddr WebUIPorts
begin

text \<open>
  The site-wide host inventory, \<open>services/hosts_config.py\<close>, and the image names of
  \<open>services/images.py\<close> that it falls back to. Reading the file and parsing its YAML
  is a parameter; the environment, the home directory and the configured paths are a \<open>site\<close>.
  Besides \<open>HostsConfigError\<close> the code can raise exceptions that nobody expects, for a section that
  is not a mapping or a number that is not one: they are \<open>Uncaught\<close>. A field that Python stores
  with another type than its annotation is \<open>Mistyped\<close>.
\<close>

section \<open>The configuration\<close>

record mgmt_defaults =
  md_ipv4_subnet :: string
  md_ipv4_gw :: string

record jumphost_net =
  jn_network :: string
  jn_bridge :: string
  jn_ipv4_subnet :: string
  jn_ipv4_gw :: string
  jn_ssh_port_range :: string
  jn_ssh_bind_ip :: string

record webui_ports_config =
  wp_port_range :: string
  wp_bind_ip :: string

record realnet_config =
  rc_network :: string
  rc_bridge :: string
  rc_ipv4_subnet :: string
  rc_ipv4_gw :: string
  rc_image :: string
  rc_wan_iface :: string
  rc_rr_as :: int
  rc_rr_ip :: string
  rc_host_net :: string
  rc_router_as_pool :: string
  rc_router_ip_pool :: string
  rc_realnet_network_pool :: string
  rc_rr_password :: string

record image_sync_config =
  ic_enabled :: bool
  ic_include :: "string list"
  ic_exclude :: "string list"
  ic_interval_seconds :: int

record lab_cleanup_config =
  lc_enabled :: bool
  lc_interval_seconds :: int
  lc_grace_seconds :: int
  lc_dry_run :: bool

record cephfs_config =
  cf_mountpoint :: string
  cf_expected_fstype :: string
  cf_marker :: string
  cf_require_shared_marker :: bool

record persistence_config =
  pc_backend :: string
  pc_root :: string
  pc_allow_migration_fallback :: bool
  pc_cephfs :: cephfs_config

record hosts_config =
  hc_master :: infra_host
  hc_workers :: "(string, infra_host) dict"
  hc_underlay_iface :: string
  hc_mgmt_defaults :: mgmt_defaults
  hc_image_sync :: image_sync_config
  hc_lab_cleanup :: lab_cleanup_config
  hc_jumphost_net :: jumphost_net
  hc_webui_ports :: webui_ports_config
  hc_realnet :: realnet_config
  hc_max_sessions :: int
  hc_persistence :: persistence_config
  hc_jumphost_image :: "string option"

record site =
  st_getenv :: "string \<Rightarrow> string option"
  st_expanduser :: "string \<Rightarrow> string"
  st_persist_root :: string
  st_hosts_file :: string

section \<open>Image names (services/images.py)\<close>

definition env_or :: "site \<Rightarrow> string \<Rightarrow> string \<Rightarrow> string" where
  "env_or st k d = (case st_getenv st k of None \<Rightarrow> d | Some v \<Rightarrow> if v = [] then d else v)"

definition dnlab_version :: "site \<Rightarrow> string" where
  "dnlab_version st = str_strip (env_or st ''DNLAB_VERSION'' ''latest'')"

definition dnlab_image_prefix :: "site \<Rightarrow> string" where
  "dnlab_image_prefix st =
     (let runtime_prefix = str_strip (env_or st ''DNLAB_RUNTIME_IMAGE_PREFIX'' []);
          image_prefix = str_strip (env_or st ''DNLAB_IMAGE_PREFIX'' [])
      in if runtime_prefix \<noteq> [] then runtime_prefix
         else if image_prefix \<noteq> [] then image_prefix @ ''dnlab-'' else ''dnlab-'')"

definition image_components :: "string list" where
  "image_components = [''jumphost'', ''dns'', ''runtime-relay'', ''realnet-router'', ''realnet-rr'', ''mgmt-anchor'']"

text \<open>Every component is named like its key; \<^const>\<open>None\<close> is the \<open>ValueError\<close>.\<close>

definition image_for :: "site \<Rightarrow> string \<Rightarrow> string option" where
  "image_for st component =
     (if component \<in> set image_components
      then Some (dnlab_image_prefix st @ component @ '':'' @ dnlab_version st) else None)"

definition default_image :: "site \<Rightarrow> string \<Rightarrow> string" where
  "default_image st component = (case image_for st component of None \<Rightarrow> [] | Some i \<Rightarrow> i)"

section \<open>Reading a section\<close>

datatype hosts_error =
    FileNotFound | InvalidYaml | NotAMapping string | Missing string | WorkerWithoutHost string
  | BadBindIp string | BadPortRange string | BadRealnet string | BadBackend | NotAnInteger string
  | OutOfBounds string | Uncaught | Mistyped

definition mget_or :: "yvalue \<Rightarrow> string \<Rightarrow> yvalue \<Rightarrow> hosts_error + yvalue" where
  "mget_or m k d = (case m of VDict kv \<Rightarrow> Inr (dict_get_or kv k d) | _ \<Rightarrow> Inl Uncaught)"

definition mget :: "yvalue \<Rightarrow> string \<Rightarrow> hosts_error + yvalue" where
  "mget m k = mget_or m k VNone"

definition typed_str :: "yvalue \<Rightarrow> hosts_error + string" where
  "typed_str v = (case v of VStr s \<Rightarrow> Inr s | _ \<Rightarrow> Inl Mistyped)"

definition str_field :: "yvalue \<Rightarrow> string \<Rightarrow> string \<Rightarrow> hosts_error + string" where
  "str_field m k d = bindE (mget_or m k (VStr d)) typed_str"

definition bool_field :: "yvalue \<Rightarrow> string \<Rightarrow> bool \<Rightarrow> hosts_error + bool" where
  "bool_field m k d = bindE (mget_or m k (VBool d)) (\<lambda>v. Inr (truthy v))"

text \<open>\<open>m.get(k) or {}\<close>; \<open>list(m.get(k) or d)\<close>.\<close>

definition section_of :: "yvalue \<Rightarrow> string \<Rightarrow> hosts_error + yvalue" where
  "section_of m k = bindE (mget m k) (\<lambda>v. Inr (v_or v (VDict [])))"

definition str_list_field :: "yvalue \<Rightarrow> string \<Rightarrow> string list \<Rightarrow> hosts_error + string list" where
  "str_list_field m k d = bindE (mget m k) (\<lambda>v.
     if \<not> truthy v then Inr d else (case v of VList vs \<Rightarrow> mapE typed_str vs | _ \<Rightarrow> Inl Mistyped))"

text \<open>\<open>int(v)\<close> where nobody handles the exception, and under \<open>except (TypeError, ValueError)\<close>.\<close>

definition plain_int :: "yvalue \<Rightarrow> hosts_error + int" where
  "plain_int v = (case to_int v of Inr i \<Rightarrow> Inr i | Inl _ \<Rightarrow> Inl Uncaught)"

definition checked_int :: "string \<Rightarrow> yvalue \<Rightarrow> hosts_error + int" where
  "checked_int what v =
     (case to_int v of Inr i \<Rightarrow> Inr i | Inl Infinite \<Rightarrow> Inl Uncaught | Inl NotConvertible \<Rightarrow> Inl (NotAnInteger what))"

definition guard :: "bool \<Rightarrow> hosts_error \<Rightarrow> hosts_error + unit" where
  "guard b e = (if b then Inr () else Inl e)"

section \<open>The sections\<close>

definition parse_host :: "site \<Rightarrow> hosts_error \<Rightarrow> string \<Rightarrow> bool \<Rightarrow> yvalue \<Rightarrow> hosts_error + infra_host" where
  "parse_host st e name is_master cfg =
     (if \<not> truthy cfg then Inl e
      else bindE (mget cfg ''host'') (\<lambda>h.
        if \<not> truthy h then Inl e
        else bindE (typed_str h) (\<lambda>host.
          bindE (str_field cfg ''ssh_user'' ''root'') (\<lambda>user.
          bindE (str_field cfg ''ssh_key'' ''~/.ssh/id_ed25519'') (\<lambda>key.
          Inr \<lparr>ih_name = name, ih_host = host, ih_ssh_user = user, ih_ssh_key = st_expanduser st key,
               ih_is_master = is_master\<rparr>)))))"

definition add_worker ::
  "site \<Rightarrow> string \<times> yvalue \<Rightarrow> (string, infra_host) dict \<Rightarrow> hosts_error + (string, infra_host) dict" where
  "add_worker st kv workers =
     bindE (parse_host st (WorkerWithoutHost (fst kv)) (fst kv) False (snd kv))
       (\<lambda>h. Inr (dict_set (fst kv) h workers))"

definition parse_workers :: "site \<Rightarrow> yvalue \<Rightarrow> hosts_error + (string, infra_host) dict" where
  "parse_workers st infra =
     bindE (section_of infra ''workers'') (\<lambda>ws.
       case ws of VDict kvs \<Rightarrow> foldE (add_worker st) kvs [] | _ \<Rightarrow> Inl Uncaught)"

definition range_digits :: "string \<Rightarrow> (nat \<times> nat) option" where
  "range_digits s =
     (case str_split (CHR ''-'') s of
        [a, b] \<Rightarrow> if a \<noteq> [] \<and> b \<noteq> [] \<and> list_all is_digit a \<and> list_all is_digit b
                  then Some (read_digits a, read_digits b) else None
      | _ \<Rightarrow> None)"

definition port_range_field :: "string \<Rightarrow> yvalue \<Rightarrow> string \<Rightarrow> string \<Rightarrow> hosts_error + string" where
  "port_range_field what m k d =
     bindE (mget_or m k (VStr d)) (\<lambda>v.
       case range_digits (py_str v) of
         None \<Rightarrow> Inl (BadPortRange what)
       | Some (low, high) \<Rightarrow>
           if 1 \<le> low \<and> low \<le> high \<and> high \<le> 65535 then Inr (py_str v) else Inl (BadPortRange what))"

definition bind_ip_field :: "string \<Rightarrow> yvalue \<Rightarrow> string \<Rightarrow> string \<Rightarrow> hosts_error + string" where
  "bind_ip_field what m k d =
     bindE (str_field m k d) (\<lambda>s. if ip_address s = None then Inl (BadBindIp what) else Inr s)"

definition parse_jumphost_net :: "yvalue \<Rightarrow> hosts_error + jumphost_net" where
  "parse_jumphost_net infra =
     bindE (section_of infra ''jumphost_net'') (\<lambda>m.
     bindE (bind_ip_field ''jumphost_net'' m ''ssh_bind_ip'' ''0.0.0.0'') (\<lambda>bind_ip.
     bindE (port_range_field ''jumphost_net'' m ''ssh_port_range'' ''2200-2299'') (\<lambda>ports.
     bindE (str_field m ''network'' ''dnlab-jumphost'') (\<lambda>network.
     bindE (str_field m ''bridge'' ''br-dnlab-jh'') (\<lambda>bridge.
     bindE (str_field m ''ipv4_subnet'' ''192.168.100.0/24'') (\<lambda>subnet.
     bindE (str_field m ''ipv4_gw'' ''192.168.100.1'') (\<lambda>gw.
     Inr \<lparr>jn_network = network, jn_bridge = bridge, jn_ipv4_subnet = subnet, jn_ipv4_gw = gw,
          jn_ssh_port_range = ports, jn_ssh_bind_ip = bind_ip\<rparr>)))))))"

definition parse_webui_ports :: "yvalue \<Rightarrow> hosts_error + webui_ports_config" where
  "parse_webui_ports infra =
     bindE (section_of infra ''webui_ports'') (\<lambda>m.
     bindE (bind_ip_field ''webui_ports'' m ''bind_ip'' ''127.0.0.1'') (\<lambda>bind_ip.
     bindE (port_range_field ''webui_ports'' m ''port_range'' ''8443-8999'') (\<lambda>ports.
     Inr \<lparr>wp_port_range = ports, wp_bind_ip = bind_ip\<rparr>)))"

text \<open>\<open>_validate_realnet_bgp\<close>.\<close>

definition private_as :: "int \<Rightarrow> bool" where
  "private_as asn \<longleftrightarrow> 64512 \<le> asn \<and> asn \<le> 65534 \<or> 4200000000 \<le> asn \<and> asn \<le> 4294967294"

definition as_pool :: "string \<Rightarrow> (int \<times> int) option" where
  "as_pool s =
     (case str_split1 (CHR ''-'') s of
        [low, high] \<Rightarrow> (case (py_int low, py_int high) of (Some l, Some h) \<Rightarrow> Some (l, h) | _ \<Rightarrow> None)
      | _ \<Rightarrow> None)"

definition in_one_range :: "int \<times> int \<Rightarrow> bool" where
  "in_one_range p = (case p of (low, high) \<Rightarrow>
     64512 \<le> low \<and> low \<le> high \<and> high \<le> 65534 \<or> 4200000000 \<le> low \<and> low \<le> high \<and> high \<le> 4294967294)"

definition rr_ip_ok :: "string \<Rightarrow> string \<Rightarrow> bool" where
  "rr_ip_ok rr_ip host_net =
     (case (ip_address rr_ip, ip_network host_net) of (Some ip, Some net) \<Rightarrow> ip_in_net ip net | _ \<Rightarrow> False)"

definition ip_pool_ok :: "string \<Rightarrow> bool" where
  "ip_pool_ok s =
     (if CHR ''/'' \<in> set s then ip_network s \<noteq> None
      else (case map (\<lambda>p. ip_address (str_strip p)) (str_split1 (CHR ''-'') s) of
              [Some low, Some high] \<Rightarrow> ip_version low = ip_version high \<and> ip_int low \<le> ip_int high
            | _ \<Rightarrow> False))"

definition network_pool_ok :: "string \<Rightarrow> bool" where
  "network_pool_ok s = (case ip_network s of Some (Net4 n) \<Rightarrow> nw_prefix n \<le> 24 | _ \<Rightarrow> False)"

definition validate_realnet_bgp :: "realnet_config \<Rightarrow> hosts_error + unit" where
  "validate_realnet_bgp r =
     bindE (guard (private_as (rc_rr_as r)) (BadRealnet ''rr_as'')) (\<lambda>_.
     bindE (case as_pool (rc_router_as_pool r) of
              None \<Rightarrow> Inl (BadRealnet ''router_as_pool'')
            | Some (low, high) \<Rightarrow>
                if low > high \<or> \<not> private_as low \<or> \<not> private_as high then Inl (BadRealnet ''router_as_pool'')
                else guard (in_one_range (low, high)) (BadRealnet ''router_as_pool'')) (\<lambda>_.
     bindE (guard (rc_rr_ip r = [] \<and> rc_host_net r = [] \<or> rr_ip_ok (rc_rr_ip r) (rc_host_net r))
              (BadRealnet ''rr_ip'')) (\<lambda>_.
     bindE (guard (rc_router_ip_pool r = [] \<or> ip_pool_ok (rc_router_ip_pool r)) (BadRealnet ''router_ip_pool'')) (\<lambda>_.
     bindE (guard (network_pool_ok (rc_realnet_network_pool r)) (BadRealnet ''realnet_network_pool'')) (\<lambda>_.
     guard (rc_rr_password r = [] \<or> length (rc_rr_password r) \<le> 80 \<and> \<not> list_ex is_space (rc_rr_password r))
       (BadRealnet ''rr_password''))))))"

definition realnet_fields :: "site \<Rightarrow> yvalue \<Rightarrow> hosts_error + realnet_config" where
  "realnet_fields st m =
     bindE (str_field m ''network'' ''dnlab-realnet'') (\<lambda>network.
     bindE (str_field m ''bridge'' ''br-dnlab-rn'') (\<lambda>bridge.
     bindE (str_field m ''ipv4_subnet'' ''192.168.101.0/24'') (\<lambda>subnet.
     bindE (str_field m ''ipv4_gw'' ''192.168.101.1'') (\<lambda>gw.
     bindE (str_field m ''image'' (default_image st ''realnet-router'')) (\<lambda>img.
     bindE (str_field m ''wan_iface'' []) (\<lambda>wan.
     bindE (bindE (mget m ''rr_as'') (\<lambda>a. bindE (mget m ''bgp_as'') (\<lambda>b. plain_int (v_or a (v_or b (VInt 64512)))))) (\<lambda>rr_as.
     bindE (str_field m ''rr_ip'' []) (\<lambda>rr_ip.
     bindE (str_field m ''host_net'' []) (\<lambda>host_net.
     bindE (bindE (mget m ''router_as_pool'') (\<lambda>a. bindE (mget m ''lab_as_pool'') (\<lambda>b.
              typed_str (v_or a (v_or b (VStr ''64513-65534'')))))) (\<lambda>as_pool.
     bindE (str_field m ''router_ip_pool'' []) (\<lambda>ip_pool.
     bindE (str_field m ''realnet_network_pool'' ''100.64.0.0/10'') (\<lambda>net_pool.
     bindE (str_field m ''rr_password'' []) (\<lambda>password.
     Inr \<lparr>rc_network = network, rc_bridge = bridge, rc_ipv4_subnet = subnet, rc_ipv4_gw = gw,
          rc_image = img, rc_wan_iface = wan, rc_rr_as = rr_as, rc_rr_ip = rr_ip,
          rc_host_net = host_net, rc_router_as_pool = as_pool, rc_router_ip_pool = ip_pool,
          rc_realnet_network_pool = net_pool, rc_rr_password = password\<rparr>)))))))))))))"

definition parse_realnet :: "site \<Rightarrow> yvalue \<Rightarrow> hosts_error + realnet_config" where
  "parse_realnet st infra =
     bindE (section_of infra ''realnet'') (\<lambda>m.
     bindE (realnet_fields st m) (\<lambda>r.
     bindE (guard (ip_network (rc_ipv4_subnet r) \<noteq> None \<and> ip_address (rc_ipv4_gw r) \<noteq> None) (BadRealnet ''subnet'')) (\<lambda>_.
     bindE (validate_realnet_bgp r) (\<lambda>_. Inr r))))"

text \<open>\<open>str(v).rstrip("/") or base\<close>.\<close>

definition dir_or :: "string \<Rightarrow> yvalue \<Rightarrow> string" where
  "dir_or base v = (let d = str_rstrip (CHR ''/'') (py_str v) in if d = [] then base else d)"

definition parse_cephfs :: "string \<Rightarrow> yvalue \<Rightarrow> hosts_error + cephfs_config" where
  "parse_cephfs base m =
     (if \<not> is_dict m then Inl (NotAMapping ''cephfs'')
      else
        bindE (mget_or m ''mountpoint'' (VStr base)) (\<lambda>mountpoint.
        bindE (mget_or m ''expected_fstype'' (VStr ''ceph'')) (\<lambda>fstype.
        bindE (mget_or m ''marker'' (VStr ''.dnlab-cephfs'')) (\<lambda>marker.
        bindE (bool_field m ''require_shared_marker'' True) (\<lambda>shared.
        Inr \<lparr>cf_mountpoint = dir_or base mountpoint, cf_expected_fstype = py_str fstype,
             cf_marker = py_str marker, cf_require_shared_marker = shared\<rparr>)))))"

definition backend_of :: "yvalue \<Rightarrow> string" where
  "backend_of v = (let b = str_strip (py_str v) in if b = [] then ''local-sticky'' else b)"

definition parse_persistence :: "site \<Rightarrow> yvalue \<Rightarrow> hosts_error + persistence_config" where
  "parse_persistence st m =
     (if \<not> is_dict m then Inl (NotAMapping ''persistence'')
      else
        bindE (mget_or m ''backend'' (VStr ''local-sticky'')) (\<lambda>backend.
        bindE (guard (backend_of backend \<in> {''local-sticky'', ''cephfs''}) BadBackend) (\<lambda>_.
        bindE (mget_or m ''root'' (VStr (st_persist_root st))) (\<lambda>base.
        bindE (bool_field m ''allow_migration_fallback'' True) (\<lambda>fallback.
        bindE (section_of m ''cephfs'') (\<lambda>c.
        bindE (parse_cephfs (dir_or (st_persist_root st) base) c) (\<lambda>ceph.
        Inr \<lparr>pc_backend = backend_of backend, pc_root = dir_or (st_persist_root st) base,
             pc_allow_migration_fallback = fallback, pc_cephfs = ceph\<rparr>)))))))"

definition parse_image_sync :: "yvalue \<Rightarrow> hosts_error + image_sync_config" where
  "parse_image_sync raw =
     bindE (section_of raw ''image_sync'') (\<lambda>m.
     bindE (bool_field m ''enabled'' True) (\<lambda>enabled.
     bindE (str_list_field m ''include'' [''*'']) (\<lambda>included.
     bindE (str_list_field m ''exclude''
       [''dnlab-jumphost'', ''dnlab-dns'', ''dnlab-realnet-router'', ''dnlab-realnet-rr'', ''postgres'',
        ''<none>:<none>'']) (\<lambda>excluded.
     bindE (bindE (mget_or m ''interval_seconds'' (VInt 300)) plain_int) (\<lambda>interval.
     Inr \<lparr>ic_enabled = enabled, ic_include = included, ic_exclude = excluded, ic_interval_seconds = interval\<rparr>)))))"

definition parse_lab_cleanup :: "yvalue \<Rightarrow> hosts_error + lab_cleanup_config" where
  "parse_lab_cleanup raw =
     bindE (section_of raw ''lab_cleanup'') (\<lambda>m.
     if \<not> is_dict m then Inl (NotAMapping ''lab_cleanup'')
     else
       bindE (bindE (mget_or m ''interval_seconds'' (VInt 300)) (checked_int ''lab_cleanup'')) (\<lambda>interval.
       bindE (bindE (mget_or m ''grace_seconds'' (VInt 600)) (checked_int ''lab_cleanup'')) (\<lambda>grace.
       bindE (guard (30 \<le> interval) (OutOfBounds ''interval_seconds'')) (\<lambda>_.
       bindE (guard (0 \<le> grace) (OutOfBounds ''grace_seconds'')) (\<lambda>_.
       bindE (bool_field m ''enabled'' True) (\<lambda>enabled.
       bindE (bool_field m ''dry_run'' False) (\<lambda>dry_run.
       Inr \<lparr>lc_enabled = enabled, lc_interval_seconds = interval, lc_grace_seconds = grace, lc_dry_run = dry_run\<rparr>)))))))"

text \<open>The section may still be inside \<open>plus\<close>, where older versions had it.\<close>

definition parse_max_sessions :: "yvalue \<Rightarrow> hosts_error + int" where
  "parse_max_sessions raw =
     bindE (mget raw ''follow_the_rabbit'') (\<lambda>cfg.
     bindE (if cfg \<noteq> VNone then Inr cfg
            else bindE (section_of raw ''plus'') (\<lambda>plus.
              if \<not> is_dict plus then Inl (NotAMapping ''plus'') else mget plus ''follow_the_rabbit'')) (\<lambda>cfg.
     (let m = v_or cfg (VDict []) in
      if \<not> is_dict m then Inl (NotAMapping ''follow_the_rabbit'')
      else
        bindE (bindE (mget_or m ''max_sessions'' (VInt 1)) (checked_int ''max_sessions'')) (\<lambda>n.
        bindE (guard (0 \<le> n) (OutOfBounds ''max_sessions'')) (\<lambda>_. Inr n)))))"

definition parse_jumphost_image :: "site \<Rightarrow> yvalue \<Rightarrow> hosts_error + string option" where
  "parse_jumphost_image st raw =
     bindE (mget raw ''jumphost'') (\<lambda>jh.
     if truthy jh then bindE (str_field jh ''image'' (default_image st ''jumphost'')) (\<lambda>i. Inr (Some i))
     else Inr None)"

definition parse_mgmt_defaults :: "yvalue \<Rightarrow> hosts_error + mgmt_defaults" where
  "parse_mgmt_defaults raw =
     bindE (section_of raw ''defaults'') (\<lambda>d.
     bindE (section_of d ''mgmt'') (\<lambda>m.
     bindE (str_field m ''ipv4_subnet'' ''172.20.0.0/24'') (\<lambda>subnet.
     bindE (str_field m ''ipv4_gw'' ''172.20.0.1'') (\<lambda>gw.
     Inr \<lparr>md_ipv4_subnet = subnet, md_ipv4_gw = gw\<rparr>))))"

section \<open>The whole inventory\<close>

definition parse_hosts_dict :: "site \<Rightarrow> yvalue \<Rightarrow> hosts_error + hosts_config" where
  "parse_hosts_dict st raw =
     bindE (mget raw ''infrastructure'') (\<lambda>infra.
     if \<not> truthy infra then Inl (Missing ''infrastructure'')
     else
       bindE (bindE (mget infra ''master'') (parse_host st (Missing ''infrastructure.master'') ''master'' True)) (\<lambda>master.
       bindE (parse_workers st infra) (\<lambda>workers.
       bindE (str_field infra ''underlay_iface'' ''eth0'') (\<lambda>underlay.
       bindE (parse_jumphost_net infra) (\<lambda>jumphost_net.
       bindE (parse_webui_ports infra) (\<lambda>webui_ports.
       bindE (parse_realnet st infra) (\<lambda>realnet.
       bindE (bindE (mget infra ''persistence'') (\<lambda>a. bindE (mget raw ''persistence'') (\<lambda>b.
                parse_persistence st (v_or a (v_or b (VDict [])))))) (\<lambda>persistence.
       bindE (parse_jumphost_image st raw) (\<lambda>jumphost_image.
       bindE (parse_mgmt_defaults raw) (\<lambda>mgmt_defaults.
       bindE (parse_image_sync raw) (\<lambda>image_sync.
       bindE (parse_lab_cleanup raw) (\<lambda>lab_cleanup.
       bindE (parse_max_sessions raw) (\<lambda>max_sessions.
       Inr \<lparr>hc_master = master, hc_workers = workers, hc_underlay_iface = underlay,
            hc_mgmt_defaults = mgmt_defaults, hc_image_sync = image_sync, hc_lab_cleanup = lab_cleanup,
            hc_jumphost_net = jumphost_net, hc_webui_ports = webui_ports, hc_realnet = realnet,
            hc_max_sessions = max_sessions, hc_persistence = persistence,
            hc_jumphost_image = jumphost_image\<rparr>)))))))))))))"

definition resolve_hosts_file :: "site \<Rightarrow> string option \<Rightarrow> string" where
  "resolve_hosts_file st explicit =
     (case explicit of
        Some p \<Rightarrow> st_expanduser st p
      | None \<Rightarrow> (let env = env_or st ''DNLAB_MULTINODE_HOSTS'' []
                in if env \<noteq> [] then st_expanduser st env else st_hosts_file st))"

text \<open>What is at a path: nothing, a file that is not YAML, or a document.\<close>

datatype document = NoFile | NotYaml | Document yvalue

definition load_hosts_config :: "site \<Rightarrow> (string \<Rightarrow> document) \<Rightarrow> string option \<Rightarrow> hosts_error + hosts_config" where
  "load_hosts_config st read path =
     (case read (resolve_hosts_file st path) of
        NoFile \<Rightarrow> Inl FileNotFound
      | NotYaml \<Rightarrow> Inl InvalidYaml
      | Document v \<Rightarrow>
          (let raw = v_or v (VDict [])
           in if \<not> is_dict raw then Inl (NotAMapping ''root'') else parse_hosts_dict st raw))"

definition hosts_config_from_legacy_topology :: "site \<Rightarrow> yvalue \<Rightarrow> hosts_error + hosts_config" where
  "hosts_config_from_legacy_topology st raw =
     bindE (section_of raw ''infrastructure'') (\<lambda>infra.
     bindE (section_of raw ''jumphost'') (\<lambda>jumphost.
     parse_hosts_dict st (VDict [(''infrastructure'', infra), (''jumphost'', jumphost)])))"

definition hosts_all :: "hosts_config \<Rightarrow> (string, infra_host) dict" where
  "hosts_all c = fold (\<lambda>(k, v). dict_set k v) (hc_workers c) [(''master'', hc_master c)]"

section \<open>What an accepted inventory satisfies\<close>

lemma guard_Inr [simp]: "guard b e = Inr u \<longleftrightarrow> b"
  by (simp add: guard_def)

lemma range_digits_port_range:
  "range_digits s = Some (low, high) \<Longrightarrow> 1 \<le> low \<Longrightarrow> low \<le> high \<Longrightarrow> high \<le> 65535 \<Longrightarrow> parse_port_range s = Inr (low, high)"
  by (auto simp: range_digits_def parse_port_range_def Let_def split: list.splits if_splits)

lemma port_range_field_ok:
  assumes "port_range_field what m k d = Inr s"
  shows "\<exists>low high. parse_port_range s = Inr (low, high)"
proof -
  obtain v where v: "mget_or m k (VStr d) = Inr v"
    "(case range_digits (py_str v) of None \<Rightarrow> Inl (BadPortRange what)
      | Some (low, high) \<Rightarrow> if 1 \<le> low \<and> low \<le> high \<and> high \<le> 65535 then Inr (py_str v) else Inl (BadPortRange what)) = Inr s"
    using assms by (auto simp: port_range_field_def bindE_eq_Inr)
  then obtain low high where "range_digits s = Some (low, high)" "1 \<le> low" "low \<le> high" "high \<le> 65535"
    by (auto split: option.splits prod.splits if_splits)
  then show ?thesis using range_digits_port_range by blast
qed

lemma bind_ip_field_ok: "bind_ip_field what m k d = Inr s \<Longrightarrow> \<exists>ip. ip_address s = Some ip"
  by (auto simp: bind_ip_field_def bindE_eq_Inr split: if_splits)

definition host_ok :: "string \<Rightarrow> bool \<Rightarrow> infra_host \<Rightarrow> bool" where
  "host_ok name is_master h \<longleftrightarrow> ih_name h = name \<and> ih_host h \<noteq> [] \<and> ih_is_master h = is_master"

lemma parse_host_ok: "parse_host st e name is_master cfg = Inr h \<Longrightarrow> host_ok name is_master h"
  by (auto simp: parse_host_def host_ok_def bindE_eq_Inr typed_str_def split: if_splits yvalue.splits)

definition workers_ok :: "(string, infra_host) dict \<Rightarrow> bool" where
  "workers_ok ws \<longleftrightarrow> dict_ok ws \<and> (\<forall>n h. dict_get ws n = Some h \<longrightarrow> host_ok n False h)"

lemma parse_workers_ok:
  assumes "parse_workers st infra = Inr ws"
  shows "workers_ok ws"
proof -
  obtain v where "(case v of VDict kvs \<Rightarrow> foldE (add_worker st) kvs [] | _ \<Rightarrow> Inl Uncaught) = Inr ws"
    using assms unfolding parse_workers_def by (elim bindE_InrE)
  then obtain kvs where "foldE (add_worker st) kvs [] = Inr ws" by (cases v) auto
  then show ?thesis
  proof (rule foldE_invariant)
    show "workers_ok []" by (simp add: workers_ok_def)
    show "workers_ok t'" if ok: "workers_ok t" and add: "add_worker st kv t = Inr t'" for kv t t'
    proof -
      obtain h where h: "parse_host st (WorkerWithoutHost (fst kv)) (fst kv) False (snd kv) = Inr h"
        "t' = dict_set (fst kv) h t"
        using add by (auto simp: add_worker_def bindE_eq_Inr)
      then show ?thesis using ok parse_host_ok [OF h(1)] by (simp add: workers_ok_def)
    qed
  qed
qed

definition ports_ok :: "string \<Rightarrow> string \<Rightarrow> bool" where
  "ports_ok ports bind_ip \<longleftrightarrow>
     (\<exists>low high. parse_port_range ports = Inr (low, high)) \<and> (\<exists>ip. ip_address bind_ip = Some ip)"

lemma parse_jumphost_net_ok:
  "parse_jumphost_net infra = Inr j \<Longrightarrow> ports_ok (jn_ssh_port_range j) (jn_ssh_bind_ip j)"
  by (auto simp: parse_jumphost_net_def ports_ok_def bindE_eq_Inr dest: port_range_field_ok bind_ip_field_ok)

lemma parse_webui_ports_ok:
  "parse_webui_ports infra = Inr w \<Longrightarrow> ports_ok (wp_port_range w) (wp_bind_ip w)"
  by (auto simp: parse_webui_ports_def ports_ok_def bindE_eq_Inr dest: port_range_field_ok bind_ip_field_ok)

definition bgp_ok :: "realnet_config \<Rightarrow> bool" where
  "bgp_ok r \<longleftrightarrow> private_as (rc_rr_as r)
     \<and> (\<exists>low high. as_pool (rc_router_as_pool r) = Some (low, high) \<and> low \<le> high
          \<and> (\<forall>asn. low \<le> asn \<and> asn \<le> high \<longrightarrow> private_as asn))
     \<and> (rc_rr_ip r = [] \<and> rc_host_net r = [] \<or>
          (\<exists>ip net. ip_address (rc_rr_ip r) = Some ip \<and> ip_network (rc_host_net r) = Some net \<and> ip_in_net ip net))
     \<and> (\<exists>n. ip_network (rc_realnet_network_pool r) = Some (Net4 n) \<and> nw_prefix n \<le> 24)"

lemma in_one_range_private: "in_one_range (low, high) \<Longrightarrow> low \<le> asn \<Longrightarrow> asn \<le> high \<Longrightarrow> private_as asn"
  by (auto simp: in_one_range_def private_as_def)

lemma validate_realnet_bgp_ok:
  assumes "validate_realnet_bgp r = Inr u"
  shows "bgp_ok r"
proof -
  have g: "private_as (rc_rr_as r)" "rc_rr_ip r = [] \<and> rc_host_net r = [] \<or> rr_ip_ok (rc_rr_ip r) (rc_host_net r)"
    "network_pool_ok (rc_realnet_network_pool r)"
    using assms by (auto simp: validate_realnet_bgp_def bindE_eq_Inr)
  obtain low high where p: "as_pool (rc_router_as_pool r) = Some (low, high)" "low \<le> high" "in_one_range (low, high)"
    using assms by (auto simp: validate_realnet_bgp_def bindE_eq_Inr in_one_range_def split: option.splits if_splits)
  have "\<exists>n. ip_network (rc_realnet_network_pool r) = Some (Net4 n) \<and> nw_prefix n \<le> 24"
    using g(3) by (auto simp: network_pool_ok_def split: option.splits ip_net.splits)
  moreover have "rc_rr_ip r = [] \<and> rc_host_net r = [] \<or>
      (\<exists>ip net. ip_address (rc_rr_ip r) = Some ip \<and> ip_network (rc_host_net r) = Some net \<and> ip_in_net ip net)"
    using g(2) by (auto simp: rr_ip_ok_def split: option.splits)
  ultimately show ?thesis unfolding bgp_ok_def using g(1) p in_one_range_private [OF p(3)] by blast
qed

lemma parse_realnet_ok: "parse_realnet st infra = Inr r \<Longrightarrow> bgp_ok r"
  unfolding parse_realnet_def by (elim bindE_InrE) (simp add: validate_realnet_bgp_ok)

lemma dir_or_slash: "List.last (dir_or base v) = CHR ''/'' \<Longrightarrow> dir_or base v = base"
  using str_rstrip_last [of "CHR ''/''" "py_str v"] by (simp add: dir_or_def Let_def split: if_splits)

lemma parse_persistence_ok:
  "parse_persistence st m = Inr p \<Longrightarrow> pc_backend p \<in> {''local-sticky'', ''cephfs''}
     \<and> (pc_root p = st_persist_root st \<or> List.last (pc_root p) \<noteq> CHR ''/'')"
  unfolding parse_persistence_def
  by (simp split: if_splits, elim bindE_InrE) (auto dest: dir_or_slash)

lemma parse_lab_cleanup_ok: "parse_lab_cleanup raw = Inr l \<Longrightarrow> 30 \<le> lc_interval_seconds l \<and> 0 \<le> lc_grace_seconds l"
  by (auto simp: parse_lab_cleanup_def bindE_eq_Inr split: if_splits)

lemma parse_max_sessions_ok: "parse_max_sessions raw = Inr n \<Longrightarrow> 0 \<le> n"
  by (auto simp: parse_max_sessions_def bindE_eq_Inr Let_def split: if_splits)

text \<open>All of it: what the later components rely on.\<close>

definition config_ok :: "hosts_config \<Rightarrow> bool" where
  "config_ok c \<longleftrightarrow>
     host_ok ''master'' True (hc_master c) \<and> workers_ok (hc_workers c)
   \<and> ports_ok (jn_ssh_port_range (hc_jumphost_net c)) (jn_ssh_bind_ip (hc_jumphost_net c))
   \<and> ports_ok (wp_port_range (hc_webui_ports c)) (wp_bind_ip (hc_webui_ports c))
   \<and> bgp_ok (hc_realnet c)
   \<and> pc_backend (hc_persistence c) \<in> {''local-sticky'', ''cephfs''}
   \<and> 30 \<le> lc_interval_seconds (hc_lab_cleanup c) \<and> 0 \<le> lc_grace_seconds (hc_lab_cleanup c)
   \<and> 0 \<le> hc_max_sessions c"

lemma parse_hosts_dict_ok:
  assumes "parse_hosts_dict st raw = Inr c"
  shows "config_ok c"
  using assms unfolding parse_hosts_dict_def
  by (elim bindE_InrE, simp split: if_splits, elim bindE_InrE)
    (auto simp: config_ok_def dest!: parse_host_ok parse_workers_ok parse_jumphost_net_ok parse_webui_ports_ok
       parse_realnet_ok parse_persistence_ok parse_lab_cleanup_ok parse_max_sessions_ok)

section \<open>Properties\<close>

text \<open>
  C25: an inventory that is accepted, from the hosts file or from a topology of the old layout, has
  the form the rest of the program relies on. The master and all workers have an address and are
  named like their keys; the port ranges can be read by the allocators and the addresses they
  bind can be parsed; the BGP numbers are private and the pool of them is one private range, the
  route reflector is in its network, the pool of networks is IPv4 and contains a /24; the cleanup
  interval is at least 30 seconds.
\<close>

theorem hosts_config_typed:
  assumes "load_hosts_config st read path = Inr c \<or> hosts_config_from_legacy_topology st raw = Inr c"
  shows "config_ok c"
proof -
  consider "load_hosts_config st read path = Inr c" | "hosts_config_from_legacy_topology st raw = Inr c"
    using assms by blast
  then show ?thesis
  proof cases
    case 1
    then show ?thesis
      by (auto simp: load_hosts_config_def Let_def parse_hosts_dict_ok split: document.splits if_splits)
  next
    case 2
    then show ?thesis
      unfolding hosts_config_from_legacy_topology_def by (elim bindE_InrE) (rule parse_hosts_dict_ok)
  qed
qed

text \<open>With an accepted inventory the allocator of web ports fails only for a full range.\<close>

lemma accepted_range_never_bad:
  assumes "load_hosts_config st read path = Inr c"
  shows "allocate_webui_port docker_ps (wp_bind_ip (hc_webui_ports c)) (wp_port_range (hc_webui_ports c)) used preferred
     \<noteq> Inl BadRange"
proof -
  have "config_ok c"
    using assms by (auto simp: load_hosts_config_def Let_def parse_hosts_dict_ok split: document.splits if_splits)
  then show ?thesis by (auto simp: config_ok_def ports_ok_def allocate_webui_port_def Let_def split: option.splits)
qed

definition plain_site :: site where
  "plain_site = \<lparr>st_getenv = (\<lambda>_. None), st_expanduser = (\<lambda>p. p), st_persist_root = ''/var/lib/docker/dnlab-backups'',
     st_hosts_file = ''/etc/dnlab/hosts.yml''\<rparr>"

definition small_inventory :: yvalue where
  "small_inventory = VDict [(''infrastructure'', VDict
     [(''master'', VDict [(''host'', VStr ''10.0.0.1'')]),
      (''workers'', VDict [(''w1'', VDict [(''host'', VStr ''10.0.0.2''), (''ssh_user'', VStr ''lab'')])])])]"

lemma small_inventory_accepted:
  "\<exists>c. load_hosts_config plain_site (\<lambda>_. Document small_inventory) None = Inr c
     \<and> dict_keys (hosts_all c) = [''master'', ''w1''] \<and> wp_port_range (hc_webui_ports c) = ''8443-8999''
     \<and> rc_image (hc_realnet c) = ''dnlab-realnet-router:latest'' \<and> hc_max_sessions c = 1"
proof -
  have "(case load_hosts_config plain_site (\<lambda>_. Document small_inventory) None of Inl _ \<Rightarrow> False | Inr c \<Rightarrow>
      dict_keys (hosts_all c) = [''master'', ''w1''] \<and> wp_port_range (hc_webui_ports c) = ''8443-8999''
     \<and> rc_image (hc_realnet c) = ''dnlab-realnet-router:latest'' \<and> hc_max_sessions c = 1)"
    by code_simp
  then show ?thesis by (simp split: sum.splits)
qed

theorem hosts_config_typed_witness:
  "\<exists>c. load_hosts_config plain_site (\<lambda>_. Document small_inventory) None = Inr c \<and> config_ok c"
  using small_inventory_accepted hosts_config_typed by meson

end
