(* ===== verification/MgmtIps.thy ===== *)
theory MgmtIps
  imports Ipv4
begin

text \<open>
  The management address plan of a lab, \<open>services/config.py\<close>: the choice of a subnet that no
  other deployed lab uses (\<open>_resolve_mgmt_config\<close>) and the assignment of an address to every
  node, sticky across redeployments (\<open>assign_sticky_mgmt_ipv4\<close>) or by plain filling in
  (\<open>_auto_assign_mgmt_ipv4\<close>).
\<close>

section \<open>Choosing the subnet\<close>

datatype config_error =
    InvalidMgmtSubnet | SubnetOverlaps ipv4_net ipv4_net | SubnetTooSmall | AddressSpaceEnd
  | ExplicitInvalid string | ExplicitOutside string nat | ExplicitReserved string nat
  | ExplicitDuplicate nat string string | PoolExhausted string

text \<open>
  \<open>ip_network\<close> also accepts IPv6 text, but an IPv6 network never overlaps an IPv4 one and
  \<open>ipv4_reservations\<close> refuses it, so only the IPv4 networks among the active ones matter.
\<close>

definition active_networks :: "string list \<Rightarrow> ipv4_net list" where
  "active_networks subnets = List.map_filter ipv4_network (filter (\<lambda>s. s \<noteq> []) subnets)"

text \<open>
  The networks of the other labs: \<open>(lab_name, mgmt subnet)\<close> of each readable state file.
\<close>

definition active_mgmt_networks :: "(string \<times> string) list \<Rightarrow> string \<Rightarrow> ipv4_net list" where
  "active_mgmt_networks states current_lab =
     active_networks (map snd (filter (\<lambda>st. fst st \<noteq> current_lab) states))"

definition next_mgmt_subnet :: "ipv4_net \<Rightarrow> ipv4_net option" where
  "next_mgmt_subnet n =
     (let next_addr = nw_addr n + block n
      in if next_addr < 2 ^ 32 then Some (network_of next_addr (nw_prefix n)) else None)"

lemma next_mgmt_subnet_greater:
  assumes "next_mgmt_subnet n = Some m"
  shows "nw_addr n < nw_addr m \<and> nw_addr m < 2 ^ 32 \<and> nw_prefix m = nw_prefix n"
proof -
  have m: "m = network_of (nw_addr n + block n) (nw_prefix n)" "nw_addr n + block n < 2 ^ 32"
    using assms by (simp_all add: next_mgmt_subnet_def Let_def split: if_splits)
  have "nw_addr m = nw_addr n div block n * block n + block n"
    by (simp add: m(1) network_of_def block_def [symmetric] div_add_self2 [OF block_pos(2)])
  moreover have "nw_addr n < nw_addr n div block n * block n + block n"
    by (metis add.commute block_pos(1) dividend_less_div_times)
  moreover have "nw_addr n div block n * block n \<le> nw_addr n" by (rule div_times_less_eq_dividend)
  moreover have "nw_prefix m = nw_prefix n" by (simp add: m(1) network_of_def)
  ultimately show ?thesis using m(2) by (intro conjI) linarith+
qed

function find_subnet :: "ipv4_net list \<Rightarrow> ipv4_net \<Rightarrow> config_error + ipv4_net" where
  "find_subnet active n =
     (if \<exists>used \<in> set active. overlaps n used
      then (case next_mgmt_subnet n of None \<Rightarrow> Inl AddressSpaceEnd | Some m \<Rightarrow> find_subnet active m)
      else Inr n)"
  by pat_completeness auto
termination
proof (relation "measure (\<lambda>(active, n). 2 ^ 32 - nw_addr n)")
  fix active n m
  assume "next_mgmt_subnet n = Some m"
  then show "((active, m), active, n) \<in> measure (\<lambda>(active, n). 2 ^ 32 - nw_addr n)"
    using next_mgmt_subnet_greater by fastforce
qed simp

declare find_subnet.simps [simp del]

text \<open>
  \<open>_resolve_mgmt_config\<close>, the IPv4 part of the result: subnet, jumphost and Docker gateway.
  The empty text stands for a missing \<open>ipv4-subnet\<close>.
\<close>

definition subnet_result :: "ipv4_net \<Rightarrow> config_error + (string \<times> string \<times> string)" where
  "subnet_result n =
     (case ipv4_reservations (show_net n) of
        Inl _ \<Rightarrow> Inl SubnetTooSmall
      | Inr r \<Rightarrow> Inr (show_net n, mr_jumphost r, mr_docker_gw r))"

definition resolve_mgmt_config ::
  "string \<Rightarrow> string \<Rightarrow> ipv4_net list \<Rightarrow> config_error + (string \<times> string \<times> string)" where
  "resolve_mgmt_config requested_subnet default_subnet active =
     (if requested_subnet \<noteq> [] then
        (case ipv4_network requested_subnet of
           None \<Rightarrow> Inl InvalidMgmtSubnet
         | Some n \<Rightarrow>
             (case List.find (overlaps n) active of
                Some used \<Rightarrow> Inl (SubnetOverlaps n used)
              | None \<Rightarrow> subnet_result n))
      else
        (case ipv4_network default_subnet of
           None \<Rightarrow> Inl InvalidMgmtSubnet
         | Some n \<Rightarrow> bindE (find_subnet active n) subnet_result))"

section \<open>Assigning addresses\<close>

type_synonym ledger = "(string, string) dict"
type_synonym owners = "(nat, string) dict"
type_synonym node_map = "(string, vdnode) dict"

definition reserved_of :: "mgmt_ipv4_reservations \<Rightarrow> nat set" where
  "reserved_of r = set (List.map_filter ipv4_address
     [mr_docker_gw r, mr_anchor r, mr_dns r, mr_jumphost r])"

text \<open>First loop: the valid, unreserved entries of the stored ledger, first come first served.\<close>

definition seed_sticky :: "ipv4_net \<Rightarrow> nat set \<Rightarrow> string \<times> string \<Rightarrow> ledger \<times> owners \<Rightarrow> ledger \<times> owners" where
  "seed_sticky net reserved ov st =
     (case (ov, st) of ((owner, value), (sticky, ip_owner)) \<Rightarrow>
        (case ipv4_address value of
           None \<Rightarrow> st
         | Some ip \<Rightarrow>
             if \<not> in_net ip net then st
             else if ip \<in> reserved then st
             else if dict_get ip_owner ip \<noteq> None then st
             else (dict_set owner (show_ip ip) sticky, dict_set ip owner ip_owner)))"

text \<open>Second loop: explicit addresses win; the third component is \<open>explicit_seen\<close>.\<close>

definition explicit_step ::
  "ipv4_net \<Rightarrow> nat set \<Rightarrow> string \<times> vdnode \<Rightarrow> ledger \<times> owners \<times> owners
     \<Rightarrow> config_error + (ledger \<times> owners \<times> owners)" where
  "explicit_step net reserved nn st =
     (case (nn, st) of ((name, node), (sticky, ip_owner, explicit_seen)) \<Rightarrow>
        if \<not> nd_mgmt_ipv4_explicit node then Inr st
        else
          (case ipv4_address (nd_mgmt_ipv4 node) of
             None \<Rightarrow> Inl (ExplicitInvalid name)
           | Some ip \<Rightarrow>
               if \<not> in_net ip net then Inl (ExplicitOutside name ip)
               else if ip \<in> reserved then Inl (ExplicitReserved name ip)
               else (case dict_get explicit_seen ip of
                       Some other \<Rightarrow> Inl (ExplicitDuplicate ip name other)
                     | None \<Rightarrow>
                         (let sticky1 = (case dict_get ip_owner ip of
                                Some previous \<Rightarrow>
                                  if previous \<noteq> [] \<and> previous \<noteq> name then dict_pop previous sticky else sticky
                              | None \<Rightarrow> sticky)
                          in Inr (dict_set name (show_ip ip) sticky1, dict_set ip name ip_owner,
                                  dict_set ip name explicit_seen)))))"

definition first_free :: "ipv4_net \<Rightarrow> nat set \<Rightarrow> nat option" where
  "first_free net used = List.find (\<lambda>ip. ip \<notin> used) (hosts net)"

definition set_ip :: "string \<Rightarrow> nat \<Rightarrow> node_map \<Rightarrow> node_map" where
  "set_ip name ip nodes =
     (case dict_get nodes name of None \<Rightarrow> nodes
      | Some node \<Rightarrow> dict_set name (node\<lparr>nd_mgmt_ipv4 := show_ip ip\<rparr>) nodes)"

text \<open>Third loop, over the node names in order: keep the previous address or take the next free one.\<close>

definition kept_ip :: "ledger \<Rightarrow> owners \<Rightarrow> string \<Rightarrow> nat option" where
  "kept_ip sticky ip_owner name =
     (case dict_get sticky name of
        None \<Rightarrow> None
      | Some previous \<Rightarrow>
          if previous = [] then None
          else (case ipv4_address previous of
                  None \<Rightarrow> None
                | Some ip \<Rightarrow> if dict_get ip_owner ip = Some name then Some ip else None))"

definition auto_step ::
  "ipv4_net \<Rightarrow> nat set \<Rightarrow> string \<Rightarrow> node_map \<times> ledger \<times> owners
     \<Rightarrow> config_error + (node_map \<times> ledger \<times> owners)" where
  "auto_step net reserved name st =
     (case st of (nodes, sticky, ip_owner) \<Rightarrow>
        if (case dict_get nodes name of None \<Rightarrow> False | Some node \<Rightarrow> nd_mgmt_ipv4_explicit node) then Inr st
        else
          (case kept_ip sticky ip_owner name of
             Some ip \<Rightarrow> Inr (set_ip name ip nodes, dict_set name (show_ip ip) sticky, ip_owner)
           | None \<Rightarrow>
               (case first_free net (reserved \<union> set (dict_keys ip_owner)) of
                  None \<Rightarrow> Inl (PoolExhausted name)
                | Some ip \<Rightarrow> Inr (set_ip name ip nodes, dict_set name (show_ip ip) sticky,
                                  dict_set ip name ip_owner))))"

definition assign_sticky_mgmt_ipv4 ::
  "node_map \<Rightarrow> string \<Rightarrow> ledger \<Rightarrow> config_error + (node_map \<times> ledger)" where
  "assign_sticky_mgmt_ipv4 nodes subnet reservations =
     (case ipv4_network subnet of
        None \<Rightarrow> Inl InvalidMgmtSubnet
      | Some net \<Rightarrow>
          (case ipv4_reservations subnet of
             Inl _ \<Rightarrow> Inl SubnetTooSmall
           | Inr r \<Rightarrow>
               (let reserved = reserved_of r;
                    (sticky, ip_owner) = fold (seed_sticky net reserved) reservations ([], [])
                in bindE (foldE (explicit_step net reserved) nodes (sticky, ip_owner, []))
                     (\<lambda>(sticky, ip_owner, _).
                        bindE (foldE (auto_step net reserved) (sort (dict_keys nodes)) (nodes, sticky, ip_owner))
                          (\<lambda>(nodes, sticky, _). Inr (nodes, sticky))))))"

text \<open>
  \<open>_auto_assign_mgmt_ipv4\<close>: fills in the nodes without an address. The iterator over the pool
  is the list of its remaining elements; an exhausted pool ends the loop with a warning.
\<close>

definition collect_static :: "nat set \<Rightarrow> string \<times> vdnode \<Rightarrow> nat set \<Rightarrow> config_error + nat set" where
  "collect_static reserved nn used =
     (case ipv4_address (nd_mgmt_ipv4 (snd nn)) of
        None \<Rightarrow> Inr used
      | Some ip \<Rightarrow> if ip \<in> reserved then Inl (ExplicitReserved (nd_name (snd nn)) ip) else Inr (insert ip used))"

fun fill_pool :: "string list \<Rightarrow> nat list \<Rightarrow> node_map \<Rightarrow> node_map" where
  "fill_pool [] pool nodes = nodes"
| "fill_pool (name # names) pool nodes =
     (if (case dict_get nodes name of None \<Rightarrow> True | Some node \<Rightarrow> nd_mgmt_ipv4 node \<noteq> [])
      then fill_pool names pool nodes
      else (case pool of [] \<Rightarrow> nodes | ip # pool' \<Rightarrow> fill_pool names pool' (set_ip name ip nodes)))"

definition auto_assign_mgmt_ipv4 :: "node_map \<Rightarrow> string \<Rightarrow> config_error + node_map" where
  "auto_assign_mgmt_ipv4 nodes subnet =
     (case ipv4_network subnet of
        None \<Rightarrow> Inr nodes
      | Some net \<Rightarrow>
          (let reserved = (case ipv4_reservations subnet of Inl _ \<Rightarrow> {} | Inr r \<Rightarrow> reserved_of r)
           in bindE (foldE (collect_static reserved) nodes reserved)
                (\<lambda>used. Inr (fill_pool (sort (dict_keys nodes))
                               (filter (\<lambda>ip. ip \<notin> used) (hosts net)) nodes))))"

section \<open>The subnet search\<close>

lemma next_mgmt_subnet_ok:
  assumes "net_ok n" and "next_mgmt_subnet n = Some m"
  shows "net_ok m \<and> nw_addr m = nw_addr n + block n \<and> block m = block n"
proof -
  have m: "m = network_of (nw_addr n + block n) (nw_prefix n)" "nw_addr n + block n < 2 ^ 32"
    using assms(2) by (simp_all add: next_mgmt_subnet_def Let_def split: if_splits)
  have "net_ok m" using net_ok_network_of m assms(1) by (simp add: net_ok_def)
  moreover have "block n dvd nw_addr n + block n" using assms(1) by (simp add: net_ok_def)
  ultimately show ?thesis using m by (auto simp: network_of_def block_def)
qed

lemma next_mgmt_subnet_adjacent:
  assumes "net_ok n" "net_ok m'" "nw_prefix m' = nw_prefix n" "nw_addr n \<le> nw_addr m'"
    "nw_addr m' < nw_addr n + block n"
  shows "m' = n"
proof -
  obtain j k where j: "nw_addr n = block n * j" and k: "nw_addr m' = block n * k"
    using assms(1,2,3) by (auto simp: net_ok_def dvd_def block_def)
  have "block n * k < block n * Suc j" "block n * j \<le> block n * k" using assms(4,5) j k by simp_all
  then have "k < Suc j" "j \<le> k" by (simp_all only: mult_less_cancel1 mult_le_cancel1 block_pos(1) simp_thms)
  then have "nw_addr m' = nw_addr n" using j k by (simp add: less_Suc_eq_le)
  then show ?thesis using assms(3) by simp
qed

text \<open>All subnets of the same size from the start up to a bound are taken.\<close>

definition taken_from :: "ipv4_net list \<Rightarrow> ipv4_net \<Rightarrow> nat \<Rightarrow> bool" where
  "taken_from active n bound \<longleftrightarrow>
     (\<forall>m. net_ok m \<longrightarrow> nw_prefix m = nw_prefix n \<longrightarrow> nw_addr n \<le> nw_addr m \<longrightarrow> nw_addr m < bound
        \<longrightarrow> (\<exists>used \<in> set active. overlaps m used))"

lemma taken_step:
  assumes "net_ok n" "\<exists>used \<in> set active. overlaps n used" "next_mgmt_subnet n = Some m"
    "taken_from active m bound"
  shows "taken_from active n bound"
  unfolding taken_from_def
proof (intro allI impI)
  fix m' assume m': "net_ok m'" "nw_prefix m' = nw_prefix n" "nw_addr n \<le> nw_addr m'" "nw_addr m' < bound"
  show "\<exists>used \<in> set active. overlaps m' used"
  proof (cases "nw_addr m' < nw_addr n + block n")
    case True
    then show ?thesis using next_mgmt_subnet_adjacent [OF assms(1) m'(1,2,3)] assms(2) by simp
  next
    case False
    then show ?thesis
      using assms(4) m' next_mgmt_subnet_ok [OF assms(1,3)] next_mgmt_subnet_greater [OF assms(3)]
      by (simp add: taken_from_def)
  qed
qed

lemma find_subnet_correct:
  "net_ok n \<Longrightarrow>
   (case find_subnet active n of
      Inr m \<Rightarrow> net_ok m \<and> nw_prefix m = nw_prefix n \<and> nw_addr n \<le> nw_addr m
        \<and> (\<forall>used \<in> set active. \<not> overlaps m used) \<and> taken_from active n (nw_addr m)
    | Inl e \<Rightarrow> e = AddressSpaceEnd \<and> taken_from active n (2 ^ 32))"
proof (induction active n rule: find_subnet.induct)
  case (1 active n)
  show ?case
  proof (cases "\<exists>used \<in> set active. overlaps n used")
    case False
    then have "find_subnet active n = Inr n" by (simp add: find_subnet.simps)
    then show ?thesis using False "1.prems" by (auto simp: taken_from_def)
  next
    case True
    show ?thesis
    proof (cases "next_mgmt_subnet n")
      case None
      have "find_subnet active n = Inl AddressSpaceEnd"
        using True None by (subst find_subnet.simps) simp
      moreover have "taken_from active n (2 ^ 32)"
        using None True next_mgmt_subnet_adjacent [OF "1.prems"]
        by (fastforce simp: taken_from_def next_mgmt_subnet_def Let_def split: if_splits)
      ultimately show ?thesis by simp
    next
      case (Some m)
      have eq: "find_subnet active n = find_subnet active m"
        using True Some by (subst find_subnet.simps) simp
      have m: "net_ok m" "nw_addr n < nw_addr m" "nw_prefix m = nw_prefix n"
        using next_mgmt_subnet_ok [OF "1.prems" Some] next_mgmt_subnet_greater [OF Some] by simp_all
      show ?thesis
        using "1.IH" [OF True Some m(1)] taken_step [OF "1.prems" True Some] m eq
        by (auto split: sum.splits)
    qed
  qed
qed

lemma active_networks_ok: "list_all net_ok (active_networks subnets)"
  by (auto simp: active_networks_def list_all_iff List.map_filter_def intro: ipv4_network_ok)

lemma subnet_result_Inr:
  assumes "net_ok n" "subnet_result n = Inr (s, jump, gw)"
  shows "s = show_net n \<and> nw_prefix n \<le> 29 \<and> jump = show_ip (broadcast n - 1) \<and> gw = show_ip (nw_addr n + 1)"
  using assms(2) reservations_cases [OF ipv4_network_show [OF assms(1)]]
  by (auto simp: subnet_result_def split: sum.splits if_splits)

section \<open>The assignment\<close>

interpretation mgmt_pool: pool_allocator "set (hosts net)" "first_free net"
proof
  fix used x
  show "finite (set (hosts net))" by simp
  show "first_free net used = Some x \<Longrightarrow> x \<in> set (hosts net) \<and> x \<notin> used"
    by (auto simp: first_free_def find_Some_iff)
  show "first_free net used = None \<Longrightarrow> set (hosts net) \<subseteq> used"
    by (auto simp: first_free_def find_None_iff)
qed

text \<open>Every owned address is a usable one.\<close>

definition owners_ok :: "ipv4_net \<Rightarrow> nat set \<Rightarrow> owners \<Rightarrow> bool" where
  "owners_ok net reserved ip_owner \<longleftrightarrow> (\<forall>ip \<in> fst ` set ip_owner. in_net ip net \<and> ip \<notin> reserved)"

lemma owners_okD: "owners_ok net reserved ip_owner \<Longrightarrow> dict_get ip_owner ip = Some x \<Longrightarrow> in_net ip net \<and> ip \<notin> reserved"
  by (metis fst_conv image_eqI map_of_SomeD owners_ok_def)

lemma owners_ok_set: "owners_ok net reserved d \<Longrightarrow> in_net ip net \<Longrightarrow> ip \<notin> reserved \<Longrightarrow> owners_ok net reserved (dict_set ip x d)"
  by (simp add: owners_ok_def dict_keys_set)

text \<open>First loop: the ledger and the owners mirror each other.\<close>

definition mirrored :: "ledger \<Rightarrow> owners \<Rightarrow> bool" where
  "mirrored sticky ip_owner \<longleftrightarrow>
     (\<forall>x s. dict_get sticky x = Some s \<longrightarrow> (\<exists>ip < 2 ^ 32. s = show_ip ip \<and> dict_get ip_owner ip = Some x))
     \<and> (\<forall>ip x. dict_get ip_owner ip = Some x \<longrightarrow> dict_get sticky x = Some (show_ip ip))"

lemma seed_step_mirrored:
  assumes "mirrored sticky ip_owner" "owners_ok net reserved ip_owner" "net_ok net"
    "dict_get sticky owner = None"
    "seed_sticky net reserved (owner, value) (sticky, ip_owner) = (sticky', ip_owner')"
  shows "mirrored sticky' ip_owner' \<and> owners_ok net reserved ip_owner'
     \<and> (\<forall>x. x \<noteq> owner \<longrightarrow> dict_get sticky' x = dict_get sticky x)
     \<and> (\<forall>ip x. dict_get ip_owner ip = Some x \<longrightarrow> dict_get ip_owner' ip = Some x)"
proof (cases "sticky' = sticky \<and> ip_owner' = ip_owner")
  case False
  then obtain ip where ip: "ipv4_address value = Some ip" "in_net ip net" "ip \<notin> reserved"
    "dict_get ip_owner ip = None" "sticky' = dict_set owner (show_ip ip) sticky"
    "ip_owner' = dict_set ip owner ip_owner"
    using assms(5) by (auto simp: seed_sticky_def split: option.splits if_splits)
  have lt: "ip < 2 ^ 32" using in_net_less assms(3) ip(2) .
  have new: "dict_get ip_owner j \<noteq> Some owner" for j
    using assms(1,4) by (auto simp: mirrored_def)
  show ?thesis
    using assms(1,2,4) ip lt new owners_ok_set
    by (auto simp: mirrored_def split: if_splits; metis option.distinct(1))
qed (use assms in auto)

lemma seed_fold:
  assumes "fold (seed_sticky net reserved) rs (sticky, ip_owner) = (sticky', ip_owner')"
    "mirrored sticky ip_owner" "owners_ok net reserved ip_owner" "net_ok net"
    "dict_ok rs" "\<forall>x \<in> fst ` set rs. dict_get sticky x = None"
  shows "mirrored sticky' ip_owner' \<and> owners_ok net reserved ip_owner'
     \<and> (\<forall>ip x. dict_get ip_owner ip = Some x \<longrightarrow> dict_get ip_owner' ip = Some x)"
  using assms
proof (induction rs arbitrary: sticky ip_owner)
  case (Cons r rs)
  obtain owner v where r: "r = (owner, v)" by fastforce
  obtain sticky1 ip_owner1 where st: "seed_sticky net reserved r (sticky, ip_owner) = (sticky1, ip_owner1)"
    by fastforce
  have step: "mirrored sticky1 ip_owner1" "owners_ok net reserved ip_owner1"
    "\<forall>x. x \<noteq> owner \<longrightarrow> dict_get sticky1 x = dict_get sticky x"
    "\<forall>ip x. dict_get ip_owner ip = Some x \<longrightarrow> dict_get ip_owner1 ip = Some x"
    using seed_step_mirrored [of sticky ip_owner net reserved owner v sticky1 ip_owner1]
      Cons.prems st r by simp_all
  have "\<forall>x \<in> fst ` set rs. dict_get sticky1 x = None"
  proof
    fix x assume x: "x \<in> fst ` set rs"
    then have "x \<noteq> owner" using Cons.prems(5) r by auto
    then show "dict_get sticky1 x = None" using step(3) Cons.prems(6) x by auto
  qed
  moreover have "fold (seed_sticky net reserved) rs (sticky1, ip_owner1) = (sticky', ip_owner')"
    using Cons.prems(1) st by simp
  ultimately show ?case using Cons.IH [of sticky1 ip_owner1] step Cons.prems(4,5) r by auto
qed simp

text \<open>Second loop: an explicit address is owned by its node.\<close>

lemma explicit_fold:
  assumes "foldE (explicit_step net reserved) nodes (sticky, ip_owner, seen) = Inr (sticky', ip_owner', seen')"
    "owners_ok net reserved ip_owner" "\<forall>ip x. dict_get seen ip = Some x \<longrightarrow> dict_get ip_owner ip = Some x"
  shows "owners_ok net reserved ip_owner'
     \<and> (\<forall>ip x. dict_get seen' ip = Some x \<longrightarrow> dict_get ip_owner' ip = Some x)
     \<and> (\<forall>ip x. dict_get seen ip = Some x \<longrightarrow> dict_get seen' ip = Some x)
     \<and> (\<forall>name node. (name, node) \<in> set nodes \<longrightarrow> nd_mgmt_ipv4_explicit node
          \<longrightarrow> (\<exists>ip. ipv4_address (nd_mgmt_ipv4 node) = Some ip \<and> dict_get seen' ip = Some name))"
  using assms
proof (induction nodes arbitrary: sticky ip_owner seen)
  case (Cons nn nodes)
  obtain name node where nn: "nn = (name, node)" by fastforce
  obtain sticky1 ip_owner1 seen1
    where st: "explicit_step net reserved nn (sticky, ip_owner, seen) = Inr (sticky1, ip_owner1, seen1)"
      and rest: "foldE (explicit_step net reserved) nodes (sticky1, ip_owner1, seen1) = Inr (sticky', ip_owner', seen')"
    using Cons.prems(1) by (auto split: sum.splits)
  show ?case
  proof (cases "nd_mgmt_ipv4_explicit node")
    case False
    then have "sticky1 = sticky" "ip_owner1 = ip_owner" "seen1 = seen"
      using st nn by (simp_all add: explicit_step_def)
    then show ?thesis using Cons.IH [OF rest] Cons.prems(2,3) nn False by auto
  next
    case True
    then obtain ip where ip: "ipv4_address (nd_mgmt_ipv4 node) = Some ip" "in_net ip net" "ip \<notin> reserved"
      "dict_get seen ip = None" "ip_owner1 = dict_set ip name ip_owner" "seen1 = dict_set ip name seen"
      using st nn by (auto simp: explicit_step_def Let_def split: option.splits if_splits)
    have ok: "owners_ok net reserved ip_owner1" "\<forall>ip x. dict_get seen1 ip = Some x \<longrightarrow> dict_get ip_owner1 ip = Some x"
      "\<forall>ip x. dict_get seen ip = Some x \<longrightarrow> dict_get seen1 ip = Some x" "dict_get seen1 ip = Some name"
      using ip Cons.prems(2,3) owners_ok_set by auto
    have IH: "owners_ok net reserved ip_owner'" "\<forall>ip x. dict_get seen' ip = Some x \<longrightarrow> dict_get ip_owner' ip = Some x"
      "\<forall>ip x. dict_get seen1 ip = Some x \<longrightarrow> dict_get seen' ip = Some x"
      "\<forall>name node. (name, node) \<in> set nodes \<longrightarrow> nd_mgmt_ipv4_explicit node
          \<longrightarrow> (\<exists>ip. ipv4_address (nd_mgmt_ipv4 node) = Some ip \<and> dict_get seen' ip = Some name)"
      using Cons.IH [OF rest ok(1,2)] by blast+
    have "ipv4_address (nd_mgmt_ipv4 node) = Some ip \<and> dict_get seen' ip = Some name"
      using ip(1) IH(3) ok(4) by blast
    then show ?thesis using IH ok(3) nn by auto
  qed
qed simp

text \<open>Third loop: every node without an explicit address owns the one it gets.\<close>

definition is_auto :: "node_map \<Rightarrow> string \<Rightarrow> bool" where
  "is_auto nodes name \<longleftrightarrow> (\<exists>node. dict_get nodes name = Some node \<and> \<not> nd_mgmt_ipv4_explicit node)"

lemma set_ip_get:
  "dict_get (set_ip name ip nodes) x =
     (if x = name then map_option (\<lambda>node. node\<lparr>nd_mgmt_ipv4 := show_ip ip\<rparr>) (dict_get nodes name) else dict_get nodes x)"
  by (auto simp: set_ip_def split: option.splits)

lemma set_ip_keys: "dict_keys (set_ip name ip nodes) = dict_keys nodes"
proof (cases "dict_get nodes name")
  case (Some node)
  then have "name \<in> set (dict_keys nodes)" by (metis fst_conv image_eqI map_of_SomeD set_map)
  then show ?thesis using Some by (simp add: set_ip_def update_keys)
qed (simp add: set_ip_def)

lemma kept_ip_Some:
  "kept_ip sticky ip_owner name = Some ip \<longleftrightarrow>
     (\<exists>s. dict_get sticky name = Some s \<and> ipv4_address s = Some ip \<and> dict_get ip_owner ip = Some name)"
proof -
  have "ipv4_address [] = None" by (simp add: ipv4_address_def)
  then show ?thesis by (auto simp: kept_ip_def split: option.splits)
qed

lemma auto_step_explicit:
  assumes "name \<in> fst ` set nodes" and "\<not> is_auto nodes name"
  shows "auto_step net reserved name (nodes, sticky, ip_owner) = Inr (nodes, sticky, ip_owner)"
proof -
  obtain node where "dict_get nodes name = Some node" using assms(1) by (metis map_of_eq_None_iff not_None_eq)
  then show ?thesis using assms(2) by (simp add: auto_step_def is_auto_def)
qed

lemma auto_step_auto:
  assumes "auto_step net reserved name (nodes, sticky, ip_owner) = Inr (nodes', sticky', ip_owner')"
    "is_auto nodes name" "owners_ok net reserved ip_owner" "net_ok net"
  shows "\<exists>ip. nodes' = set_ip name ip nodes \<and> sticky' = dict_set name (show_ip ip) sticky
     \<and> dict_get ip_owner' ip = Some name \<and> owners_ok net reserved ip_owner'
     \<and> (\<forall>jp x. dict_get ip_owner jp = Some x \<longrightarrow> dict_get ip_owner' jp = Some x)
     \<and> (\<forall>jp. kept_ip sticky ip_owner name = Some jp \<longrightarrow> jp = ip)
     \<and> (\<forall>jp x. dict_get ip_owner' jp = Some x \<longrightarrow> dict_get ip_owner jp = Some x \<or> x = name)"
proof (cases "kept_ip sticky ip_owner name")
  case (Some ip)
  then have "dict_get ip_owner ip = Some name" by (auto simp: kept_ip_Some)
  then show ?thesis
    using assms Some by (auto simp: auto_step_def is_auto_def)
next
  case None
  have "auto_step net reserved name (nodes, sticky, ip_owner) =
      (case first_free net (reserved \<union> set (dict_keys ip_owner)) of None \<Rightarrow> Inl (PoolExhausted name)
       | Some ip \<Rightarrow> Inr (set_ip name ip nodes, dict_set name (show_ip ip) sticky, dict_set ip name ip_owner))"
    using assms(2) None by (auto simp: auto_step_def is_auto_def)
  then obtain ip where ip: "first_free net (reserved \<union> set (dict_keys ip_owner)) = Some ip"
    "nodes' = set_ip name ip nodes" "sticky' = dict_set name (show_ip ip) sticky" "ip_owner' = dict_set ip name ip_owner"
    using assms(1) by (cases "first_free net (reserved \<union> set (dict_keys ip_owner))") simp_all
  then have "in_net ip net" "ip \<notin> reserved" "ip \<notin> fst ` set ip_owner"
    using mgmt_pool.alloc_sound [OF ip(1)] hosts_in_net [OF assms(4)] by auto
  then show ?thesis
    using ip None assms(3) owners_ok_set by (auto simp: map_of_eq_None_iff [symmetric])
qed

lemma auto_fold:
  assumes "foldE (auto_step net reserved) names (nodes, sticky, ip_owner) = Inr (nodes', sticky', ip_owner')"
    "owners_ok net reserved ip_owner" "net_ok net" "distinct names" "set names \<subseteq> fst ` set nodes"
  shows "owners_ok net reserved ip_owner' \<and> dict_keys nodes' = dict_keys nodes
     \<and> (\<forall>ip x. dict_get ip_owner ip = Some x \<longrightarrow> dict_get ip_owner' ip = Some x)
     \<and> (\<forall>x. x \<notin> set names \<or> \<not> is_auto nodes x
          \<longrightarrow> dict_get nodes' x = dict_get nodes x \<and> dict_get sticky' x = dict_get sticky x)
     \<and> (\<forall>x \<in> set names. is_auto nodes x \<longrightarrow>
          (\<exists>ip. dict_get nodes' x = dict_get (set_ip x ip nodes) x \<and> dict_get ip_owner' ip = Some x
             \<and> dict_get sticky' x = Some (show_ip ip)
             \<and> (\<forall>jp. kept_ip sticky ip_owner x = Some jp \<longrightarrow> jp = ip)))"
  using assms
proof (induction names arbitrary: nodes sticky ip_owner)
  case (Cons name names)
  obtain nodes1 sticky1 ip_owner1
    where st: "auto_step net reserved name (nodes, sticky, ip_owner) = Inr (nodes1, sticky1, ip_owner1)"
      and rest: "foldE (auto_step net reserved) names (nodes1, sticky1, ip_owner1) = Inr (nodes', sticky', ip_owner')"
    using Cons.prems(1) by (auto split: sum.splits)
  show ?case
  proof (cases "is_auto nodes name")
    case False
    then have "nodes1 = nodes" "sticky1 = sticky" "ip_owner1 = ip_owner"
      using st auto_step_explicit [of name nodes net reserved sticky ip_owner] Cons.prems(5) by auto
    then show ?thesis using Cons.IH [OF rest] Cons.prems(2-) False by auto
  next
    case True
    then obtain ip where ip: "nodes1 = set_ip name ip nodes" "sticky1 = dict_set name (show_ip ip) sticky"
      "dict_get ip_owner1 ip = Some name" "owners_ok net reserved ip_owner1"
      "\<forall>jp x. dict_get ip_owner jp = Some x \<longrightarrow> dict_get ip_owner1 jp = Some x"
      "\<forall>jp. kept_ip sticky ip_owner name = Some jp \<longrightarrow> jp = ip"
      using auto_step_auto [OF st] Cons.prems(2,3) by blast
    have keys: "dict_keys nodes1 = dict_keys nodes" using ip(1) set_ip_keys by simp
    have sub: "set names \<subseteq> fst ` set nodes1" using Cons.prems(5) keys by (metis set_map set_subset_Cons subset_trans)
    note IH = Cons.IH [OF rest ip(4) Cons.prems(3) _ sub]
    have d: "distinct names" "name \<notin> set names" using Cons.prems(4) by simp_all
    have auto1: "is_auto nodes1 x = is_auto nodes x" if "x \<noteq> name" for x
      using that by (simp add: is_auto_def ip(1) set_ip_get)
    have kept1: "kept_ip sticky1 ip_owner1 x = Some jp" if "kept_ip sticky ip_owner x = Some jp" "x \<noteq> name" for x jp
      using that ip(2,5) by (auto simp: kept_ip_Some)
    have n1: "dict_get (set_ip x jp nodes1) x = dict_get (set_ip x jp nodes) x" if "x \<noteq> name" for x jp
      using that by (simp add: set_ip_get ip(1))
    show ?thesis
    proof (intro conjI)
      show "owners_ok net reserved ip_owner'" "dict_keys nodes' = dict_keys nodes"
        "\<forall>ip x. dict_get ip_owner ip = Some x \<longrightarrow> dict_get ip_owner' ip = Some x"
        using IH [OF d(1)] keys ip(5) by auto
      show "\<forall>x. x \<notin> set (name # names) \<or> \<not> is_auto nodes x
          \<longrightarrow> dict_get nodes' x = dict_get nodes x \<and> dict_get sticky' x = dict_get sticky x"
      proof (intro allI impI)
        fix x assume x: "x \<notin> set (name # names) \<or> \<not> is_auto nodes x"
        then have ne: "x \<noteq> name" using True by auto
        then have "x \<notin> set names \<or> \<not> is_auto nodes1 x" using x auto1 by auto
        then have "dict_get nodes' x = dict_get nodes1 x \<and> dict_get sticky' x = dict_get sticky1 x"
          using IH [OF d(1)] by blast
        then show "dict_get nodes' x = dict_get nodes x \<and> dict_get sticky' x = dict_get sticky x"
          using ne by (simp add: ip(1,2) set_ip_get)
      qed
      show "\<forall>x \<in> set (name # names). is_auto nodes x \<longrightarrow>
          (\<exists>ip. dict_get nodes' x = dict_get (set_ip x ip nodes) x \<and> dict_get ip_owner' ip = Some x
             \<and> dict_get sticky' x = Some (show_ip ip)
             \<and> (\<forall>jp. kept_ip sticky ip_owner x = Some jp \<longrightarrow> jp = ip))"
      proof (intro ballI impI)
        fix x assume x: "x \<in> set (name # names)" "is_auto nodes x"
        show "\<exists>ip. dict_get nodes' x = dict_get (set_ip x ip nodes) x \<and> dict_get ip_owner' ip = Some x
             \<and> dict_get sticky' x = Some (show_ip ip)
             \<and> (\<forall>jp. kept_ip sticky ip_owner x = Some jp \<longrightarrow> jp = ip)"
        proof (cases "x = name")
          case True
          have "dict_get nodes' x = dict_get nodes1 x" "dict_get sticky' x = dict_get sticky1 x"
            "dict_get ip_owner' ip = Some x"
            using IH [OF d(1)] d(2) ip(3) True by auto
          then show ?thesis using ip(1,2,6) True by (intro exI [of _ ip]) simp
        next
          case False
          then have "x \<in> set names" "is_auto nodes1 x" using x auto1 by auto
          then obtain jp where "dict_get nodes' x = dict_get (set_ip x jp nodes1) x" "dict_get ip_owner' jp = Some x"
             "dict_get sticky' x = Some (show_ip jp)" "\<forall>kp. kept_ip sticky1 ip_owner1 x = Some kp \<longrightarrow> kp = jp"
            using IH [OF d(1)] by blast
          then show ?thesis using n1 [OF False] kept1 False by (intro exI [of _ jp]) auto
        qed
      qed
    qed
  qed
qed simp

text \<open>
  What the second loop keeps for a node \<open>n\<close> that has no explicit address itself: if it owns
  exactly the address of its ledger entry and no explicit node takes that address, both stay.
\<close>

definition holds_ip :: "ledger \<Rightarrow> owners \<Rightarrow> string \<Rightarrow> nat \<Rightarrow> bool" where
  "holds_ip sticky ip_owner n ip \<longleftrightarrow> dict_get sticky n = Some (show_ip ip)
     \<and> (\<forall>jp. dict_get ip_owner jp = Some n \<longleftrightarrow> jp = ip)"

lemma explicit_step_holds:
  assumes "explicit_step net reserved (name, node) (sticky, ip_owner, seen) = Inr (sticky', ip_owner', seen')"
    "holds_ip sticky ip_owner n ip"
    "nd_mgmt_ipv4_explicit node \<longrightarrow> name \<noteq> n \<and> ipv4_address (nd_mgmt_ipv4 node) \<noteq> Some ip"
  shows "holds_ip sticky' ip_owner' n ip"
proof (cases "nd_mgmt_ipv4_explicit node")
  case True
  then obtain jp where jp: "ipv4_address (nd_mgmt_ipv4 node) = Some jp" "ip_owner' = dict_set jp name ip_owner"
    "sticky' = dict_set name (show_ip jp) (case dict_get ip_owner jp of
       Some previous \<Rightarrow> if previous \<noteq> [] \<and> previous \<noteq> name then dict_pop previous sticky else sticky | None \<Rightarrow> sticky)"
    using assms(1) by (simp add: explicit_step_def Let_def split: option.splits if_splits)
  have ne: "jp \<noteq> ip" "name \<noteq> n" using True assms(3) jp(1) by auto
  then have "dict_get ip_owner jp \<noteq> Some n" using assms(2) by (simp add: holds_ip_def)
  then have "dict_get sticky' n = dict_get sticky n" using ne jp(3) by (auto split: option.splits)
  moreover have "dict_get ip_owner' kp = Some n \<longleftrightarrow> dict_get ip_owner kp = Some n" for kp
    using ne jp(2) \<open>dict_get ip_owner jp \<noteq> Some n\<close> by auto
  ultimately show ?thesis using assms(2) by (simp add: holds_ip_def)
qed (use assms in \<open>simp add: explicit_step_def\<close>)

lemma explicit_fold_holds:
  assumes "foldE (explicit_step net reserved) nodes (sticky, ip_owner, seen) = Inr (sticky', ip_owner', seen')"
    "holds_ip sticky ip_owner n ip"
    "\<forall>name node. (name, node) \<in> set nodes \<longrightarrow> nd_mgmt_ipv4_explicit node
       \<longrightarrow> name \<noteq> n \<and> ipv4_address (nd_mgmt_ipv4 node) \<noteq> Some ip"
  shows "holds_ip sticky' ip_owner' n ip"
  using assms
proof (induction nodes arbitrary: sticky ip_owner seen)
  case (Cons nn nodes)
  obtain name node where nn: "nn = (name, node)" by fastforce
  obtain sticky1 ip_owner1 seen1
    where st: "explicit_step net reserved nn (sticky, ip_owner, seen) = Inr (sticky1, ip_owner1, seen1)"
      and rest: "foldE (explicit_step net reserved) nodes (sticky1, ip_owner1, seen1) = Inr (sticky', ip_owner', seen')"
    using Cons.prems(1) by (auto split: sum.splits)
  have "holds_ip sticky1 ip_owner1 n ip"
    using explicit_step_holds [of net reserved name node] st nn Cons.prems(2,3) by auto
  then show ?case using Cons.IH [OF rest] Cons.prems(3) by auto
qed simp

lemma mirrored_holds:
  assumes "mirrored sticky ip_owner" "dict_get ip_owner ip = Some n" "owners_ok net reserved ip_owner" "net_ok net"
  shows "holds_ip sticky ip_owner n ip"
proof -
  have s: "dict_get sticky n = Some (show_ip ip)" using assms(1,2) by (simp add: mirrored_def)
  have lt: "jp < 2 ^ 32" if "dict_get ip_owner jp = Some n" for jp
    using owners_okD [OF assms(3) that] in_net_less [OF assms(4)] by simp
  have "jp = ip" if "dict_get ip_owner jp = Some n" for jp
  proof -
    have "dict_get sticky n = Some (show_ip jp)" using assms(1) that by (simp add: mirrored_def)
    then show ?thesis using s show_ip_inject [OF lt [OF that] lt [OF assms(2)]] by simp
  qed
  then show ?thesis using s assms(2) unfolding holds_ip_def by blast
qed

lemma reserved_of_eq:
  assumes "ipv4_network subnet = Some net" "ipv4_reservations subnet = Inr r"
  shows "reserved_of r = {nw_addr net + 1, broadcast net - 3, broadcast net - 2, broadcast net - 1}
    \<and> nw_prefix net \<le> 29"
proof -
  have ok: "net_ok net" using ipv4_network_ok assms(1) .
  have p: "nw_prefix net \<le> 29" using assms reservations_cases by (auto split: if_splits)
  have "(2::nat) ^ 3 \<le> block net" unfolding block_def using p by (intro power_increasing) auto
  then have "nw_addr net + 1 < 2 ^ 32" using broadcast_less [OF ok] by (simp add: broadcast_def)
  then show ?thesis
    using p assms(2) reservations_cases [OF assms(1)] broadcast_less [OF ok]
    by (auto simp: reserved_of_def List.map_filter_simps parse_show_ip less_imp_diff_less)
qed

text \<open>The phases of a successful run.\<close>

lemma assign_phases:
  assumes "assign_sticky_mgmt_ipv4 nodes subnet reservations = Inr (nodes', ledger)"
  obtains net r sticky1 owner1 sticky2 owner2 seen2 owner3
  where "ipv4_network subnet = Some net" "net_ok net" "ipv4_reservations subnet = Inr r"
    "fold (seed_sticky net (reserved_of r)) reservations ([], []) = (sticky1, owner1)"
    "foldE (explicit_step net (reserved_of r)) nodes (sticky1, owner1, []) = Inr (sticky2, owner2, seen2)"
    "foldE (auto_step net (reserved_of r)) (sort (dict_keys nodes)) (nodes, sticky2, owner2) = Inr (nodes', ledger, owner3)"
  using assms ipv4_network_ok
  by (auto simp: assign_sticky_mgmt_ipv4_def bindE_eq_Inr Let_def split: option.splits sum.splits prod.splits)

text \<open>A plan: every node has a canonical, usable address of the subnet, no two the same.\<close>

definition usable :: "ipv4_net \<Rightarrow> nat \<Rightarrow> bool" where
  "usable net ip \<longleftrightarrow> in_net ip net \<and> ip \<notin> {nw_addr net + 1, broadcast net - 3, broadcast net - 2, broadcast net - 1}"

definition address_plan :: "ipv4_net \<Rightarrow> node_map \<Rightarrow> bool" where
  "address_plan net nodes \<longleftrightarrow>
     list_all (\<lambda>(name, node). case ipv4_address (nd_mgmt_ipv4 node) of None \<Rightarrow> False | Some ip \<Rightarrow> usable net ip) nodes
     \<and> distinct (map (\<lambda>(name, node). ipv4_address (nd_mgmt_ipv4 node)) nodes)"

lemma address_planI:
  assumes "dict_ok nodes"
    and "\<And>name node. dict_get nodes name = Some node \<Longrightarrow>
       \<exists>ip. ipv4_address (nd_mgmt_ipv4 node) = Some ip \<and> dict_get ip_owner ip = Some name \<and> usable net ip"
  shows "address_plan net nodes"
proof -
  have mem: "\<exists>ip. ipv4_address (nd_mgmt_ipv4 node) = Some ip \<and> dict_get ip_owner ip = Some name \<and> usable net ip"
    if "(name, node) \<in> set nodes" for name node
    using assms that by (simp add: map_of_eq_Some_iff)
  have "inj_on (\<lambda>(name, node). ipv4_address (nd_mgmt_ipv4 node)) (set nodes)"
  proof (rule inj_onI, clarify)
    fix a n b m
    assume h: "(a, n) \<in> set nodes" "(b, m) \<in> set nodes"
      "ipv4_address (nd_mgmt_ipv4 n) = ipv4_address (nd_mgmt_ipv4 m)"
    then have "a = b" using mem [OF h(1)] mem [OF h(2)] by auto
    then show "a = b \<and> n = m" using h(1,2) assms(1) by (metis eq_key_imp_eq_value)
  qed
  then show ?thesis
    using mem assms(1) by (fastforce simp: address_plan_def list_all_iff distinct_map)
qed

lemma assign_result:
  assumes "assign_sticky_mgmt_ipv4 nodes subnet reservations = Inr (nodes', ledger)"
    and "dict_ok nodes" and "dict_ok reservations"
  shows "\<exists>net owner. ipv4_network subnet = Some net \<and> dict_keys nodes' = dict_keys nodes
     \<and> (\<forall>name node'. dict_get nodes' name = Some node' \<longrightarrow>
          (\<exists>ip node. ipv4_address (nd_mgmt_ipv4 node') = Some ip \<and> dict_get owner ip = Some name \<and> usable net ip
             \<and> dict_get nodes name = Some node
             \<and> node' = (if nd_mgmt_ipv4_explicit node then node else node\<lparr>nd_mgmt_ipv4 := show_ip ip\<rparr>)
             \<and> (\<not> nd_mgmt_ipv4_explicit node \<longrightarrow> dict_get ledger name = Some (show_ip ip))))"
proof -
  obtain net r sticky1 owner1 sticky2 owner2 seen2 owner3
    where ph: "ipv4_network subnet = Some net" "net_ok net" "ipv4_reservations subnet = Inr r"
    "fold (seed_sticky net (reserved_of r)) reservations ([], []) = (sticky1, owner1)"
    "foldE (explicit_step net (reserved_of r)) nodes (sticky1, owner1, []) = Inr (sticky2, owner2, seen2)"
    "foldE (auto_step net (reserved_of r)) (sort (dict_keys nodes)) (nodes, sticky2, owner2) = Inr (nodes', ledger, owner3)"
    using assign_phases [OF assms(1)] by metis
  have o1: "owners_ok net (reserved_of r) owner1"
    using seed_fold [OF ph(4)] ph(2) assms(3) by (simp add: mirrored_def owners_ok_def)
  note e = explicit_fold [OF ph(5) o1]
  have o2: "owners_ok net (reserved_of r) owner2" using e by simp
  have d: "distinct (sort (dict_keys nodes))" "set (sort (dict_keys nodes)) \<subseteq> fst ` set nodes" using assms(2) by simp_all
  note a = auto_fold [OF ph(6) o2 ph(2) d]
  have us: "usable net ip" if "dict_get owner3 ip = Some x" for ip x
    using a that owners_okD [of net "reserved_of r" owner3] reserved_of_eq [OF ph(1,3)] by (simp add: usable_def)
  have keys: "dict_keys nodes' = dict_keys nodes" using a by simp
  have "\<exists>ip node. ipv4_address (nd_mgmt_ipv4 node') = Some ip \<and> dict_get owner3 ip = Some name \<and> usable net ip
     \<and> dict_get nodes name = Some node
     \<and> node' = (if nd_mgmt_ipv4_explicit node then node else node\<lparr>nd_mgmt_ipv4 := show_ip ip\<rparr>)
     \<and> (\<not> nd_mgmt_ipv4_explicit node \<longrightarrow> dict_get ledger name = Some (show_ip ip))"
    if n': "dict_get nodes' name = Some node'" for name node'
  proof -
    have "name \<in> set (dict_keys nodes')" using n' by (metis fst_conv image_eqI map_of_SomeD set_map)
    then have mem: "name \<in> fst ` set nodes" using keys by (metis set_map)
    then obtain node where node: "dict_get nodes name = Some node" by (metis map_of_eq_None_iff not_None_eq)
    show ?thesis
    proof (cases "nd_mgmt_ipv4_explicit node")
      case True
      then have "node' = node" using a n' node by (auto simp: is_auto_def)
      moreover obtain ip where "ipv4_address (nd_mgmt_ipv4 node) = Some ip" "dict_get owner3 ip = Some name"
        using e a True map_of_SomeD [OF node] by (metis map_of.simps(1) option.distinct(1))
      ultimately show ?thesis using us node True by auto
    next
      case False
      then have "is_auto nodes name" using node by (simp add: is_auto_def)
      moreover have "name \<in> set (sort (dict_keys nodes))" using mem by simp
      ultimately obtain ip where ip: "dict_get nodes' name = dict_get (set_ip name ip nodes) name"
        "dict_get owner3 ip = Some name" "dict_get ledger name = Some (show_ip ip)"
        using a by meson
      have "in_net ip net" using us [OF ip(2)] by (simp add: usable_def)
      then have "ipv4_address (show_ip ip) = Some ip" using parse_show_ip in_net_less [OF ph(2)] by blast
      moreover have "node' = node\<lparr>nd_mgmt_ipv4 := show_ip ip\<rparr>" using ip(1) n' node by (simp add: set_ip_get)
      ultimately show ?thesis using ip us node False by auto
    qed
  qed
  then show ?thesis using ph(1) keys by blast
qed

text \<open>Who owns an address after the first loop.\<close>

lemma seed_owner:
  "dict_get (snd (fold (seed_sticky net reserved) rs (sticky, ip_owner))) ip =
     (case dict_get ip_owner ip of
        Some x \<Rightarrow> Some x
      | None \<Rightarrow> if in_net ip net \<and> ip \<notin> reserved
                then map_option fst (List.find (\<lambda>(o', v). ipv4_address v = Some ip) rs) else None)"
proof (induction rs arbitrary: sticky ip_owner)
  case (Cons r rs)
  obtain x v where r: "r = (x, v)" by fastforce
  obtain sticky1 ip_owner1 where st: "seed_sticky net reserved r (sticky, ip_owner) = (sticky1, ip_owner1)" by fastforce
  show ?case
  proof (cases "ipv4_address v")
    case None
    then have "seed_sticky net reserved r (sticky, ip_owner) = (sticky, ip_owner)" using r by (simp add: seed_sticky_def)
    then show ?thesis using Cons.IH [of sticky ip_owner] r None by (auto split: option.splits)
  next
    case (Some jp)
    show ?thesis
    proof (cases "in_net jp net \<and> jp \<notin> reserved \<and> dict_get ip_owner jp = None")
      case True
      then have "seed_sticky net reserved r (sticky, ip_owner)
          = (dict_set x (show_ip jp) sticky, dict_set jp x ip_owner)"
        using Some r by (simp add: seed_sticky_def)
      then show ?thesis
        using Cons.IH [of "dict_set x (show_ip jp) sticky" "dict_set jp x ip_owner"] Some r True by (auto split: option.splits)
    next
      case False
      then have "seed_sticky net reserved r (sticky, ip_owner) = (sticky, ip_owner)"
        using Some r by (auto simp: seed_sticky_def split: option.splits)
      then show ?thesis using Cons.IH [of sticky ip_owner] Some r False by (auto split: option.splits)
    qed
  qed
qed (simp split: option.splits)

lemma seed_owner_unique:
  assumes "fold (seed_sticky net reserved) rs ([], []) = (sticky1, owner1)"
    and "dict_get rs n = Some v" "ipv4_address v = Some ip" "in_net ip net" "ip \<notin> reserved"
    and "\<forall>m w. dict_get rs m = Some w \<longrightarrow> m \<noteq> n \<longrightarrow> ipv4_address w \<noteq> Some ip" "dict_ok rs"
  shows "dict_get owner1 ip = Some n"
proof -
  have mem: "(n, v) \<in> set rs" using assms(2) map_of_SomeD by metis
  have "\<exists>w. List.find (\<lambda>(o', v). ipv4_address v = Some ip) rs = Some (n, w)"
  proof (cases "List.find (\<lambda>(o', v). ipv4_address v = Some ip) rs")
    case None
    then show ?thesis using mem assms(3) by (auto simp: find_None_iff)
  next
    case (Some p)
    obtain m w where p: "p = (m, w)" by fastforce
    then have "(m, w) \<in> set rs" "ipv4_address w = Some ip"
      using Some by (auto simp: find_Some_iff in_set_conv_nth)
    then have "m = n" using assms(6,7) by (metis map_of_eq_Some_iff)
    then show ?thesis using Some p by simp
  qed
  then show ?thesis
    using seed_owner [of net reserved rs "[]" "[]" ip] assms(1,4,5) by auto
qed

text \<open>Every ledger entry is the address of its node, provided no node has the empty name.\<close>

definition ledger_owned :: "ledger \<Rightarrow> owners \<Rightarrow> bool" where
  "ledger_owned sticky ip_owner \<longleftrightarrow> dict_ok sticky \<and> (\<forall>ip. dict_get ip_owner ip \<noteq> Some [])
     \<and> (\<forall>x s. dict_get sticky x = Some s \<longrightarrow> (\<exists>ip. ipv4_address s = Some ip \<and> dict_get ip_owner ip = Some x))"

lemma explicit_step_ledger:
  assumes "explicit_step net reserved (name, node) (sticky, ip_owner, seen) = Inr (sticky', ip_owner', seen')"
    "ledger_owned sticky ip_owner" "name \<noteq> []" "net_ok net"
  shows "ledger_owned sticky' ip_owner'"
proof (cases "nd_mgmt_ipv4_explicit node")
  case True
  then obtain jp where jp: "in_net jp net" "ip_owner' = dict_set jp name ip_owner"
    "sticky' = dict_set name (show_ip jp) (case dict_get ip_owner jp of
       Some previous \<Rightarrow> if previous \<noteq> [] \<and> previous \<noteq> name then dict_pop previous sticky else sticky | None \<Rightarrow> sticky)"
    using assms(1) by (simp add: explicit_step_def Let_def split: option.splits if_splits)
  have p: "ipv4_address (show_ip jp) = Some jp" using in_net_less [OF assms(4) jp(1)] parse_show_ip by blast
  have "\<exists>ip. ipv4_address s = Some ip \<and> dict_get ip_owner' ip = Some x" if s: "dict_get sticky' x = Some s" for x s
  proof (cases "x = name")
    case True
    then show ?thesis using s jp(2,3) p by simp
  next
    case False
    have get: "dict_get sticky' x = (case dict_get ip_owner jp of
        Some previous \<Rightarrow> if previous \<noteq> [] \<and> previous \<noteq> name \<and> previous = x then None else dict_get sticky x
      | None \<Rightarrow> dict_get sticky x)"
      using False jp(3) by (simp split: option.splits)
    have "dict_get ip_owner jp \<noteq> Some []" using assms(2) by (simp add: ledger_owned_def)
    then have old: "dict_get sticky x = Some s" "dict_get ip_owner jp \<noteq> Some x"
      using get [unfolded s] False by (auto split: option.splits if_splits)
    then obtain ip where "ipv4_address s = Some ip" "dict_get ip_owner ip = Some x"
      using assms(2) unfolding ledger_owned_def by metis
    then show ?thesis using old(2) jp(2) by (intro exI [of _ ip]) auto
  qed
  then show ?thesis using assms(2,3) jp(2,3) by (auto simp: ledger_owned_def split: option.splits)
qed (use assms in \<open>simp add: explicit_step_def\<close>)

lemma auto_step_ledger:
  assumes "auto_step net reserved name (nodes, sticky, ip_owner) = Inr (nodes', sticky', ip_owner')"
    "ledger_owned sticky ip_owner" "name \<noteq> []" "name \<in> fst ` set nodes" "owners_ok net reserved ip_owner" "net_ok net"
  shows "ledger_owned sticky' ip_owner' \<and> owners_ok net reserved ip_owner' \<and> dict_keys nodes' = dict_keys nodes"
proof (cases "is_auto nodes name")
  case True
  then obtain ip where ip: "nodes' = set_ip name ip nodes" "sticky' = dict_set name (show_ip ip) sticky"
    "dict_get ip_owner' ip = Some name" "owners_ok net reserved ip_owner'"
    "\<forall>jp x. dict_get ip_owner jp = Some x \<longrightarrow> dict_get ip_owner' jp = Some x"
    "\<forall>jp x. dict_get ip_owner' jp = Some x \<longrightarrow> dict_get ip_owner jp = Some x \<or> x = name"
    using auto_step_auto [OF assms(1) _ assms(5,6)] by blast
  have "ipv4_address (show_ip ip) = Some ip"
    using owners_okD [OF ip(4,3)] in_net_less [OF assms(6)] parse_show_ip by blast
  moreover have "dict_get ip_owner' jp \<noteq> Some []" for jp
    using ip(6) assms(2,3) unfolding ledger_owned_def by metis
  moreover have "\<exists>jp. ipv4_address s = Some jp \<and> dict_get ip_owner' jp = Some x"
    if "dict_get sticky x = Some s" for x s
    using that assms(2) ip(5) unfolding ledger_owned_def by metis
  ultimately show ?thesis
    using assms(2) ip(1-4) set_ip_keys by (auto simp: ledger_owned_def)
qed (use auto_step_explicit [OF assms(4)] assms in auto)

lemma explicit_fold_ledger:
  assumes "foldE (explicit_step net reserved) nodes (sticky, ip_owner, seen) = Inr (sticky', ip_owner', seen')"
    "ledger_owned sticky ip_owner" "[] \<notin> fst ` set nodes" "net_ok net"
  shows "ledger_owned sticky' ip_owner'"
proof -
  have "(\<lambda>(sticky, ip_owner, seen). ledger_owned sticky ip_owner) (sticky', ip_owner', seen')"
  proof (rule foldE_invariant [OF assms(1)])
    fix nn t t'
    assume h: "nn \<in> set nodes" "case t of (sticky, ip_owner, seen) \<Rightarrow> ledger_owned sticky ip_owner"
      "explicit_step net reserved nn t = Inr t'"
    obtain name node where nn: "nn = (name, node)" by fastforce
    have "name \<noteq> []" using h(1) nn assms(3) by force
    then show "case t' of (sticky, ip_owner, seen) \<Rightarrow> ledger_owned sticky ip_owner"
      using h explicit_step_ledger [of net reserved name node] nn assms(4) by (cases t; cases t') auto
  qed (use assms(2) in simp)
  then show ?thesis by simp
qed

lemma auto_fold_ledger:
  assumes "foldE (auto_step net reserved) names (nodes, sticky, ip_owner) = Inr (nodes', sticky', ip_owner')"
    "ledger_owned sticky ip_owner" "owners_ok net reserved ip_owner" "net_ok net"
    "[] \<notin> set names" "set names \<subseteq> set (dict_keys nodes)"
  shows "ledger_owned sticky' ip_owner'"
proof -
  let ?P = "\<lambda>(nodes', sticky, ip_owner). ledger_owned sticky ip_owner \<and> owners_ok net reserved ip_owner
     \<and> dict_keys nodes' = dict_keys nodes"
  have "?P (nodes', sticky', ip_owner')"
  proof (rule foldE_invariant [OF assms(1)])
    fix name t t'
    assume h: "name \<in> set names" "?P t" "auto_step net reserved name t = Inr t'"
    obtain n1 s1 o1 where t: "t = (n1, s1, o1)" by (metis prod_cases3)
    have "dict_keys n1 = dict_keys nodes" using h(2) t by simp
    then have "name \<in> set (dict_keys n1)" using h(1) assms(6) by auto
    then have "name \<in> fst ` set n1" by simp
    moreover have "name \<noteq> []" using h(1) assms(5) by auto
    moreover obtain n2 s2 o2 where t': "t' = (n2, s2, o2)" by (metis prod_cases3)
    ultimately show "?P t'"
      using h auto_step_ledger [of net reserved name n1 s1 o1 n2 s2 o2] t assms(4) by simp
  qed (use assms(2,3) in simp)
  then show ?thesis by simp
qed

lemma mirrored_ledger_owned:
  "mirrored sticky ip_owner \<Longrightarrow> dict_ok sticky \<Longrightarrow> [] \<notin> fst ` set sticky \<Longrightarrow> ledger_owned sticky ip_owner"
  unfolding mirrored_def ledger_owned_def by (metis map_of_eq_None_iff option.distinct(1) parse_show_ip)

lemma seed_fold_keys:
  "fold (seed_sticky net reserved) rs (sticky, ip_owner) = (sticky', ip_owner') \<Longrightarrow>
     fst ` set sticky' \<subseteq> fst ` set sticky \<union> fst ` set rs \<and> (dict_ok sticky \<longrightarrow> dict_ok sticky')"
proof (induction rs arbitrary: sticky ip_owner)
  case (Cons r rs)
  obtain sticky1 ip_owner1 where st: "seed_sticky net reserved r (sticky, ip_owner) = (sticky1, ip_owner1)" by fastforce
  then have "sticky1 = sticky \<or> (\<exists>v. sticky1 = dict_set (fst r) v sticky)"
    by (auto simp: seed_sticky_def split: prod.splits option.splits if_splits)
  then have "fst ` set sticky1 \<subseteq> insert (fst r) (fst ` set sticky)" "dict_ok sticky \<longrightarrow> dict_ok sticky1"
    by (elim disjE exE; simp add: dict_keys_set subset_insertI)+
  moreover have "fst ` set sticky' \<subseteq> fst ` set sticky1 \<union> fst ` set rs" "dict_ok sticky1 \<longrightarrow> dict_ok sticky'"
    using Cons.IH [of sticky1 ip_owner1] Cons.prems st by simp_all
  ultimately show ?case unfolding list.set image_insert by blast
qed simp

lemma assign_ledger:
  assumes "assign_sticky_mgmt_ipv4 nodes subnet reservations = Inr (nodes', ledger)"
    and "dict_ok nodes" "dict_ok reservations" "[] \<notin> fst ` set nodes" "[] \<notin> fst ` set reservations"
  shows "\<exists>owner. ledger_owned ledger owner"
proof -
  obtain net r sticky1 owner1 sticky2 owner2 seen2 owner3
    where ph: "ipv4_network subnet = Some net" "net_ok net" "ipv4_reservations subnet = Inr r"
    "fold (seed_sticky net (reserved_of r)) reservations ([], []) = (sticky1, owner1)"
    "foldE (explicit_step net (reserved_of r)) nodes (sticky1, owner1, []) = Inr (sticky2, owner2, seen2)"
    "foldE (auto_step net (reserved_of r)) (sort (dict_keys nodes)) (nodes, sticky2, owner2) = Inr (nodes', ledger, owner3)"
    using assign_phases [OF assms(1)] by metis
  have 1: "mirrored sticky1 owner1" "owners_ok net (reserved_of r) owner1"
    using seed_fold [OF ph(4)] ph(2) assms(3) by (simp_all add: mirrored_def owners_ok_def)
  then have "ledger_owned sticky1 owner1"
    using mirrored_ledger_owned [of sticky1 owner1] seed_fold_keys [OF ph(4)] assms(5) by auto
  then have "ledger_owned sticky2 owner2" using explicit_fold_ledger [OF ph(5)] assms(4) ph(2) by blast
  moreover have "owners_ok net (reserved_of r) owner2" using explicit_fold [OF ph(5) 1(2)] by simp
  ultimately have "ledger_owned ledger owner3" using auto_fold_ledger [OF ph(6)] ph(2) assms(4) by simp
  then show ?thesis by blast
qed

text \<open>A reservation that nobody contests holds after the first two loops.\<close>

lemma reservation_holds:
  assumes "fold (seed_sticky net reserved) rs ([], []) = (sticky1, owner1)"
    and "foldE (explicit_step net reserved) nodes (sticky1, owner1, []) = Inr (sticky2, owner2, seen2)"
    and "net_ok net" "dict_ok rs" "dict_ok nodes"
    and "dict_get rs n = Some v" "ipv4_address v = Some ip" "in_net ip net" "ip \<notin> reserved"
    and "\<forall>m w. dict_get rs m = Some w \<longrightarrow> m \<noteq> n \<longrightarrow> ipv4_address w \<noteq> Some ip"
    and "\<forall>m node. dict_get nodes m = Some node \<longrightarrow> nd_mgmt_ipv4_explicit node
       \<longrightarrow> m \<noteq> n \<and> ipv4_address (nd_mgmt_ipv4 node) \<noteq> Some ip"
  shows "holds_ip sticky2 owner2 n ip \<and> kept_ip sticky2 owner2 n = Some ip"
proof -
  have o1: "dict_get owner1 ip = Some n" using seed_owner_unique [OF assms(1,6,7,8,9,10,4)] .
  have m1: "mirrored sticky1 owner1" "owners_ok net reserved owner1"
    using seed_fold [OF assms(1)] assms(3,4) by (simp_all add: mirrored_def owners_ok_def)
  have "holds_ip sticky1 owner1 n ip" using mirrored_holds [OF m1(1) o1 m1(2) assms(3)] .
  moreover have "\<forall>name node. (name, node) \<in> set nodes \<longrightarrow> nd_mgmt_ipv4_explicit node
       \<longrightarrow> name \<noteq> n \<and> ipv4_address (nd_mgmt_ipv4 node) \<noteq> Some ip"
    using assms(5,11) by (simp add: map_of_eq_Some_iff)
  ultimately have h: "holds_ip sticky2 owner2 n ip" using explicit_fold_holds [OF assms(2)] by blast
  have "ipv4_address (show_ip ip) = Some ip" using parse_show_ip in_net_less [OF assms(3,8)] by blast
  then show ?thesis using h by (auto simp: kept_ip_Some holds_ip_def)
qed

text \<open>The second loop succeeds again on nodes whose explicit addresses are a plan.\<close>

lemma explicit_fold_succeeds:
  assumes "\<And>name node. (name, node) \<in> set nodes \<Longrightarrow> nd_mgmt_ipv4_explicit node \<Longrightarrow>
      \<exists>ip. ipv4_address (nd_mgmt_ipv4 node) = Some ip \<and> in_net ip net \<and> ip \<notin> reserved \<and> dict_get seen ip = None"
    and "distinct (map (\<lambda>(name, node). ipv4_address (nd_mgmt_ipv4 node)) nodes)"
  shows "\<exists>sticky' ip_owner' seen'. foldE (explicit_step net reserved) nodes (sticky, ip_owner, seen) = Inr (sticky', ip_owner', seen')"
  using assms
proof (induction nodes arbitrary: sticky ip_owner seen)
  case (Cons nn nodes)
  obtain name node where nn: "nn = (name, node)" by fastforce
  show ?case
  proof (cases "nd_mgmt_ipv4_explicit node")
    case False
    then have "explicit_step net reserved nn (sticky, ip_owner, seen) = Inr (sticky, ip_owner, seen)"
      using nn by (simp add: explicit_step_def)
    moreover have "\<exists>s2 o2 e2. foldE (explicit_step net reserved) nodes (sticky, ip_owner, seen) = Inr (s2, o2, e2)"
      by (rule Cons.IH) (use Cons.prems in auto)
    ultimately show ?thesis by simp
  next
    case True
    then obtain ip where ip: "ipv4_address (nd_mgmt_ipv4 node) = Some ip" "in_net ip net" "ip \<notin> reserved"
      "dict_get seen ip = None" using Cons.prems(1) [of name node] nn by auto
    then obtain s1 where st: "explicit_step net reserved nn (sticky, ip_owner, seen)
        = Inr (s1, dict_set ip name ip_owner, dict_set ip name seen)"
      using True nn by (simp add: explicit_step_def Let_def)
    have "\<exists>s2 o2 e2. foldE (explicit_step net reserved) nodes (s1, dict_set ip name ip_owner, dict_set ip name seen) = Inr (s2, o2, e2)"
    proof (rule Cons.IH)
      fix m d assume m: "(m, d) \<in> set nodes" "nd_mgmt_ipv4_explicit d"
      then obtain jp where jp: "ipv4_address (nd_mgmt_ipv4 d) = Some jp" "in_net jp net" "jp \<notin> reserved" "dict_get seen jp = None"
        using Cons.prems(1) [of m d] by auto
      moreover have "jp \<noteq> ip" using Cons.prems(2) m(1) nn ip(1) jp(1) by force
      ultimately show "\<exists>kp. ipv4_address (nd_mgmt_ipv4 d) = Some kp \<and> in_net kp net \<and> kp \<notin> reserved
          \<and> dict_get (dict_set ip name seen) kp = None" by simp
    qed (use Cons.prems(2) in simp)
    then show ?thesis using st by simp
  qed
qed simp

lemma auto_fold_stable:
  assumes "\<And>name. name \<in> set names \<Longrightarrow> name \<in> fst ` set nodes"
    and "\<And>name node. name \<in> set names \<Longrightarrow> dict_get nodes name = Some node \<Longrightarrow> \<not> nd_mgmt_ipv4_explicit node \<Longrightarrow>
      \<exists>ip. nd_mgmt_ipv4 node = show_ip ip \<and> dict_get sticky name = Some (show_ip ip) \<and> kept_ip sticky ip_owner name = Some ip"
  shows "foldE (auto_step net reserved) names (nodes, sticky, ip_owner) = Inr (nodes, sticky, ip_owner)"
  using assms
proof (induction names)
  case (Cons name names)
  obtain node where node: "dict_get nodes name = Some node"
    using Cons.prems(1) [of name] by (metis list.set_intros(1) map_of_eq_None_iff not_None_eq)
  have "auto_step net reserved name (nodes, sticky, ip_owner) = Inr (nodes, sticky, ip_owner)"
  proof (cases "nd_mgmt_ipv4_explicit node")
    case False
    then obtain ip where ip: "nd_mgmt_ipv4 node = show_ip ip" "dict_get sticky name = Some (show_ip ip)"
      "kept_ip sticky ip_owner name = Some ip" using Cons.prems(2) node by auto
    have "node\<lparr>nd_mgmt_ipv4 := show_ip ip\<rparr> = node" using ip(1) by simp
    then show ?thesis
      using ip node False by (simp add: auto_step_def set_ip_def update_triv)
  qed (use node in \<open>simp add: auto_step_def\<close>)
  then show ?case using Cons by simp
qed simp

lemma subnet_result_error: "subnet_result n = Inl e \<Longrightarrow> e = SubnetTooSmall"
  by (auto simp: subnet_result_def split: sum.splits)

lemma subnet_result_ok:
  assumes "net_ok n" "subnet_result n = Inr (s, jump, gw)" "\<forall>u \<in> set active. \<not> overlaps n u" "list_all net_ok active"
  shows "ipv4_network s = Some n \<and> nw_prefix n \<le> 29
      \<and> ipv4_address gw = Some (nw_addr n + 1) \<and> ipv4_address jump = Some (broadcast n - 1)
      \<and> (\<forall>used ip. used \<in> set active \<longrightarrow> \<not> (in_net ip n \<and> in_net ip used))"
proof -
  have r: "s = show_net n" "nw_prefix n \<le> 29" "jump = show_ip (broadcast n - 1)" "gw = show_ip (nw_addr n + 1)"
    using subnet_result_Inr [OF assms(1,2)] by simp_all
  have "(2::nat) ^ 3 \<le> block n" unfolding block_def using r(2) by (intro power_increasing) auto
  then have "nw_addr n + 1 < 2 ^ 32" "broadcast n - 1 < 2 ^ 32"
    using broadcast_less [OF assms(1)] by (simp_all add: broadcast_def)
  moreover have "\<forall>used ip. used \<in> set active \<longrightarrow> \<not> (in_net ip n \<and> in_net ip used)"
    using assms overlaps_iff by (auto simp: list_all_iff)
  ultimately show ?thesis using r assms(1) parse_show_ip by simp
qed

section \<open>Properties\<close>

text \<open>
  C22: the management subnet of a lab shares no address with the subnet of any other active
  lab and has room for the reserved addresses. A requested subnet is taken as it is; without a
  request it is the first subnet of the size of the default one, counting upwards from it, that
  is free. The search always ends; it fails only when every subnet up to the end of the address
  space is taken.
\<close>

theorem resolve_mgmt_config_free:
  "case resolve_mgmt_config requested default_subnet (active_mgmt_networks states lab) of
     Inr (s, jump, gw) \<Rightarrow>
       (\<exists>n. ipv4_network s = Some n \<and> nw_prefix n \<le> 29
          \<and> ipv4_address gw = Some (nw_addr n + 1) \<and> ipv4_address jump = Some (broadcast n - 1)
          \<and> (\<forall>used ip. used \<in> set (active_mgmt_networks states lab) \<longrightarrow> \<not> (in_net ip n \<and> in_net ip used))
          \<and> (if requested \<noteq> [] then ipv4_network requested = Some n
             else (\<exists>d. ipv4_network default_subnet = Some d \<and> nw_prefix n = nw_prefix d
                     \<and> taken_from (active_mgmt_networks states lab) d (nw_addr n))))
   | Inl e \<Rightarrow> (e = AddressSpaceEnd \<longrightarrow>
       (\<exists>d. ipv4_network default_subnet = Some d \<and> taken_from (active_mgmt_networks states lab) d (2 ^ 32)))"
proof -
  let ?A = "active_mgmt_networks states lab"
  have act: "list_all net_ok ?A" by (simp add: active_mgmt_networks_def active_networks_ok)
  show ?thesis
  proof (cases "requested = []")
    case False
    then show ?thesis
      using ipv4_network_ok [of requested]
      by (auto simp: resolve_mgmt_config_def find_None_iff dest!: subnet_result_error
          dest: subnet_result_ok [OF _ _ _ act] split: sum.splits option.splits simp del: One_nat_def)
  next
    case True
    show ?thesis
    proof (cases "ipv4_network default_subnet")
      case (Some d)
      note f = find_subnet_correct [OF ipv4_network_ok [OF Some], of ?A]
      show ?thesis
      proof (cases "find_subnet ?A d")
        case (Inl e)
        then show ?thesis using f True Some by (simp add: resolve_mgmt_config_def)
      next
        case (Inr n)
        show ?thesis
        proof (cases "subnet_result n")
          case (Inl e)
          then show ?thesis
            using subnet_result_error [OF Inl] True Some Inr by (simp add: resolve_mgmt_config_def)
        next
          case (Inr x)
          obtain s jump gw where x: "x = (s, jump, gw)" by (metis prod_cases3)
          show ?thesis
            using subnet_result_ok [of n s jump gw, OF _ _ _ act] f True Some Inr x \<open>find_subnet ?A d = Inr n\<close>
            by (auto simp: resolve_mgmt_config_def)
        qed
      qed
    qed (use True in \<open>simp add: resolve_mgmt_config_def\<close>)
  qed
qed

theorem resolve_mgmt_config_free_witness:
  "\<exists>s jump gw n. resolve_mgmt_config [] ''172.20.20.0/24'' (active_mgmt_networks [(''other'', ''172.20.20.0/24'')] ''lab'') = Inr (s, jump, gw)
     \<and> ipv4_network s = Some n \<and> nw_addr n = 2886997248"
proof -
  have d: "ipv4_network ''172.20.20.0/24'' = Some \<lparr>nw_addr = 2886996992, nw_prefix = 24\<rparr>"
    using ipv4_network_show [of "\<lparr>nw_addr = 2886996992, nw_prefix = 24\<rparr>"]
    by (simp add: show_net_def show_ip_def to_octets_def show_nat.simps net_ok_def block_def)
  have a: "active_mgmt_networks [(''other'', ''172.20.20.0/24'')] ''lab'' = [\<lparr>nw_addr = 2886996992, nw_prefix = 24\<rparr>]"
    using d by (simp add: active_mgmt_networks_def active_networks_def List.map_filter_simps)
  have "find_subnet [\<lparr>nw_addr = 2886996992, nw_prefix = 24\<rparr>] \<lparr>nw_addr = 2886996992, nw_prefix = 24\<rparr>
      = Inr \<lparr>nw_addr = 2886997248, nw_prefix = 24\<rparr>"
    by (subst find_subnet.simps, simp add: next_mgmt_subnet_def overlaps_def in_net_def broadcast_def block_def
        network_of_def, subst find_subnet.simps, simp add: overlaps_def in_net_def broadcast_def block_def network_of_def)
  then have "\<exists>s jump gw. resolve_mgmt_config [] ''172.20.20.0/24'' (active_mgmt_networks [(''other'', ''172.20.20.0/24'')] ''lab'')
      = Inr (s, jump, gw) \<and> s = show_net \<lparr>nw_addr = 2886997248, nw_prefix = 24\<rparr>"
    using d a reservations_cases [of "show_net \<lparr>nw_addr = 2886997248, nw_prefix = 24\<rparr>" "\<lparr>nw_addr = 2886997248, nw_prefix = 24\<rparr>"]
    by (simp add: resolve_mgmt_config_def subnet_result_def net_ok_def block_def)
  then show ?thesis
    using resolve_mgmt_config_free [where requested = "[]" and default_subnet = "''172.20.20.0/24''"
        and states = "[(''other'', ''172.20.20.0/24'')]" and lab = "''lab''"]
    by (fastforce simp: net_ok_def block_def)
qed

lemma assign_address_plan:
  assumes "assign_sticky_mgmt_ipv4 nodes subnet reservations = Inr (nodes', ledger)"
    and "dict_ok nodes" and "dict_ok reservations"
  shows "\<exists>net. ipv4_network subnet = Some net \<and> address_plan net nodes' \<and> dict_keys nodes' = dict_keys nodes"
proof -
  obtain net owner where r: "ipv4_network subnet = Some net" "dict_keys nodes' = dict_keys nodes"
    "\<And>name node'. dict_get nodes' name = Some node' \<Longrightarrow>
       \<exists>ip node. ipv4_address (nd_mgmt_ipv4 node') = Some ip \<and> dict_get owner ip = Some name \<and> usable net ip"
    using assign_result [OF assms] by metis
  have "dict_ok nodes'" using r(2) assms(2) by simp
  then have "address_plan net nodes'" using address_planI [of nodes' owner net] r(3) by blast
  then show ?thesis using r(1,2) by blast
qed

text \<open>
  C3: after a successful assignment every node has a canonical address of the management
  subnet that is not reserved for the infrastructure, and no two nodes share one. Nodes with an
  explicit address keep it, which may be the network or the broadcast address, and of the others only
  the address changes.
\<close>

theorem assign_sticky_plan:
  assumes "assign_sticky_mgmt_ipv4 nodes subnet reservations = Inr (nodes', ledger)"
    and "dict_ok nodes" and "dict_ok reservations"
  shows "(\<exists>net. ipv4_network subnet = Some net \<and> address_plan net nodes')
     \<and> dict_keys nodes' = dict_keys nodes
     \<and> (\<forall>name node. dict_get nodes name = Some node \<longrightarrow>
          (if nd_mgmt_ipv4_explicit node then dict_get nodes' name = Some node
           else (\<exists>ip. dict_get nodes' name = Some (node\<lparr>nd_mgmt_ipv4 := ip\<rparr>) \<and> dict_get ledger name = Some ip)))"
proof -
  obtain net owner where r: "ipv4_network subnet = Some net" "dict_keys nodes' = dict_keys nodes"
    "\<And>name node'. dict_get nodes' name = Some node' \<Longrightarrow>
       \<exists>ip node. ipv4_address (nd_mgmt_ipv4 node') = Some ip \<and> dict_get owner ip = Some name \<and> usable net ip
          \<and> dict_get nodes name = Some node
          \<and> node' = (if nd_mgmt_ipv4_explicit node then node else node\<lparr>nd_mgmt_ipv4 := show_ip ip\<rparr>)
          \<and> (\<not> nd_mgmt_ipv4_explicit node \<longrightarrow> dict_get ledger name = Some (show_ip ip))"
    using assign_result [OF assms] by metis
  have "address_plan net nodes'" using assign_address_plan [OF assms] r(1) by auto
  moreover have "if nd_mgmt_ipv4_explicit node then dict_get nodes' name = Some node
      else (\<exists>ip. dict_get nodes' name = Some (node\<lparr>nd_mgmt_ipv4 := ip\<rparr>) \<and> dict_get ledger name = Some ip)"
    if n: "dict_get nodes name = Some node" for name node
  proof -
    have "name \<in> set (dict_keys nodes')" unfolding r(2) using n by (metis fst_conv image_eqI map_of_SomeD set_map)
    then obtain node' where "dict_get nodes' name = Some node'"
      by (metis map_of_eq_None_iff not_None_eq set_map)
    then show ?thesis using r(3) [of name node'] n by auto
  qed
  ultimately show ?thesis using r(1,2) by blast
qed

text \<open>A small lab, used to evaluate the assignment.\<close>

definition plain_node :: "string \<Rightarrow> string \<Rightarrow> bool \<Rightarrow> vdnode" where
  "plain_node name ip explicit = \<lparr>nd_name = name, nd_kind = ''linux'', nd_image = [], nd_mgmt_ipv4 = ip,
     nd_mgmt_ipv4_explicit = explicit, nd_env = [], nd_extra = [], nd_persist_id = []\<rparr>"

lemma octet_texts [simp]:
  "parse_octet ''10'' = Some 10" "parse_octet ''0'' = Some 0" "parse_octet ''2'' = Some 2" "parse_octet ''3'' = Some 3"
  by (simp_all add: parse_octet_def is_digit_def read_digits_def)

lemmas assign_eval = assign_sticky_mgmt_ipv4_def seed_sticky_def explicit_step_def auto_step_def kept_ip_def
  set_ip_def first_free_def hosts_def plain_node_def in_net_def block_def broadcast_def ipv4_address_def
  of_octets_def show_ip_def to_octets_def show_nat.simps

lemma net_10_29: "ipv4_network ''10.0.0.0/29'' = Some \<lparr>nw_addr = 167772160, nw_prefix = 29\<rparr>"
  using ipv4_network_show [of "\<lparr>nw_addr = 167772160, nw_prefix = 29\<rparr>"]
  by (simp add: show_net_def show_ip_def to_octets_def show_nat.simps net_ok_def block_def)

lemma reserved_10_29:
  obtains r where "ipv4_reservations ''10.0.0.0/29'' = Inr r"
    "reserved_of r = {167772161, 167772164, 167772165, 167772166}"
proof -
  obtain r where r: "ipv4_reservations ''10.0.0.0/29'' = Inr r"
    using reservations_cases [OF net_10_29] by simp
  then have "reserved_of r = {167772161, 167772164, 167772165, 167772166}"
    using reserved_of_eq [OF net_10_29 r] by (simp add: broadcast_def block_def)
  then show ?thesis using that r by blast
qed

lemma assign_example:
  "assign_sticky_mgmt_ipv4 [(''a'', plain_node ''a'' [] False), (''b'', plain_node ''b'' ''10.0.0.2'' True)]
     ''10.0.0.0/29'' [(''a'', ''10.0.0.2'')]
   = Inr ([(''a'', plain_node ''a'' ''10.0.0.3'' False), (''b'', plain_node ''b'' ''10.0.0.2'' True)],
          [(''b'', ''10.0.0.2''), (''a'', ''10.0.0.3'')])"
proof -
  obtain r where r: "ipv4_reservations ''10.0.0.0/29'' = Inr r"
    "reserved_of r = {167772161, 167772164, 167772165, 167772166}" by (rule reserved_10_29)
  show ?thesis by (simp add: r net_10_29 assign_eval upt_rec)
qed

theorem assign_sticky_plan_witness:
  "\<exists>net. ipv4_network ''10.0.0.0/29'' = Some net
     \<and> address_plan net [(''a'', plain_node ''a'' ''10.0.0.3'' False), (''b'', plain_node ''b'' ''10.0.0.2'' True)]"
  using assign_sticky_plan [OF assign_example] by simp

text \<open>
  A node without an explicit address gets the address the ledger reserves for it, as long
  as that address is usable, no other node has it in the ledger and no node claims it
  explicitly.
\<close>

theorem assign_sticky_keeps:
  assumes "assign_sticky_mgmt_ipv4 nodes subnet reservations = Inr (nodes', ledger)"
    and "dict_ok nodes" "dict_ok reservations" "ipv4_network subnet = Some net"
    and "dict_get nodes n = Some node" "\<not> nd_mgmt_ipv4_explicit node"
    and "dict_get reservations n = Some v" "ipv4_address v = Some ip" "usable net ip"
    and "\<forall>m w. dict_get reservations m = Some w \<longrightarrow> m \<noteq> n \<longrightarrow> ipv4_address w \<noteq> Some ip"
    and "\<forall>m d. dict_get nodes m = Some d \<longrightarrow> nd_mgmt_ipv4_explicit d \<longrightarrow> ipv4_address (nd_mgmt_ipv4 d) \<noteq> Some ip"
  shows "dict_get nodes' n = Some (node\<lparr>nd_mgmt_ipv4 := v\<rparr>) \<and> dict_get ledger n = Some v"
proof -
  obtain r sticky1 owner1 sticky2 owner2 seen2 owner3
    where ph: "net_ok net" "ipv4_reservations subnet = Inr r"
    "fold (seed_sticky net (reserved_of r)) reservations ([], []) = (sticky1, owner1)"
    "foldE (explicit_step net (reserved_of r)) nodes (sticky1, owner1, []) = Inr (sticky2, owner2, seen2)"
    "foldE (auto_step net (reserved_of r)) (sort (dict_keys nodes)) (nodes, sticky2, owner2) = Inr (nodes', ledger, owner3)"
    using assign_phases [OF assms(1)] assms(4) by (metis option.inject)
  have u: "in_net ip net" "ip \<notin> reserved_of r"
    using assms(9) reserved_of_eq [OF assms(4) ph(2)] by (simp_all add: usable_def)
  have "\<forall>m d. dict_get nodes m = Some d \<longrightarrow> nd_mgmt_ipv4_explicit d \<longrightarrow> m \<noteq> n \<and> ipv4_address (nd_mgmt_ipv4 d) \<noteq> Some ip"
    using assms(5,6,11) by (metis option.inject)
  then have kept: "kept_ip sticky2 owner2 n = Some ip"
    using reservation_holds [OF ph(3,4,1) assms(3,2,7,8) u assms(10)] by blast
  have o2: "owners_ok net (reserved_of r) owner2"
    using seed_fold [OF ph(3)] explicit_fold [OF ph(4)] ph(1) assms(3) by (simp add: mirrored_def owners_ok_def)
  have d: "distinct (sort (dict_keys nodes))" "set (sort (dict_keys nodes)) \<subseteq> fst ` set nodes" using assms(2) by simp_all
  have "is_auto nodes n" "n \<in> set (sort (dict_keys nodes))"
    using assms(5,6) map_of_SomeD [OF assms(5)] by (force simp: is_auto_def)+
  then obtain jp where "dict_get nodes' n = dict_get (set_ip n jp nodes) n" "dict_get ledger n = Some (show_ip jp)"
    "\<forall>kp. kept_ip sticky2 owner2 n = Some kp \<longrightarrow> kp = jp"
    using auto_fold [OF ph(5) o2 ph(1) d] by blast
  then show ?thesis using kept assms(5) show_parse_ip [OF assms(8)] by (simp add: set_ip_get)
qed

text \<open>
  C20: redeploying a lab with the ledger of its previous deployment succeeds and gives every
  node the same address again.
\<close>

theorem assign_sticky_redeploy:
  assumes "assign_sticky_mgmt_ipv4 nodes subnet reservations = Inr (nodes', ledger)"
    and "dict_ok nodes" "dict_ok reservations" "[] \<notin> set (dict_keys nodes)" "[] \<notin> set (dict_keys reservations)"
  shows "\<exists>ledger'. assign_sticky_mgmt_ipv4 nodes' subnet ledger = Inr (nodes', ledger')"
proof -
  obtain net r where ph: "ipv4_network subnet = Some net" "net_ok net" "ipv4_reservations subnet = Inr r"
    using assign_phases [OF assms(1)] by metis
  let ?R = "reserved_of r"
  obtain net' owner where r: "ipv4_network subnet = Some net'" "dict_keys nodes' = dict_keys nodes"
    "\<And>name node'. dict_get nodes' name = Some node' \<Longrightarrow>
       \<exists>ip node. ipv4_address (nd_mgmt_ipv4 node') = Some ip \<and> dict_get owner ip = Some name \<and> usable net' ip
          \<and> dict_get nodes name = Some node
          \<and> node' = (if nd_mgmt_ipv4_explicit node then node else node\<lparr>nd_mgmt_ipv4 := show_ip ip\<rparr>)
          \<and> (\<not> nd_mgmt_ipv4_explicit node \<longrightarrow> dict_get ledger name = Some (show_ip ip))"
    using assign_result [OF assms(1-3)] by metis
  have net': "net' = net" using r(1) ph(1) by simp
  have ok': "dict_ok nodes'" using r(2) assms(2) by simp
  have plan: "address_plan net nodes'" using address_planI [OF ok', of owner net] r(3) net' by blast
  have us: "in_net ip net \<and> ip \<notin> ?R" if "usable net ip" for ip
    using that reserved_of_eq [OF ph(1,3)] by (simp add: usable_def)
  obtain lo where lo: "ledger_owned ledger lo" using assign_ledger [OF assms(1-3)] assms(4,5) by auto
  obtain sticky1 owner1 where f1: "fold (seed_sticky net ?R) ledger ([], []) = (sticky1, owner1)" by fastforce
  have "\<exists>s2 o2 e2. foldE (explicit_step net ?R) nodes' (sticky1, owner1, []) = Inr (s2, o2, e2)"
  proof (rule explicit_fold_succeeds)
    fix name node assume "(name, node) \<in> set nodes'" "nd_mgmt_ipv4_explicit node"
    then show "\<exists>ip. ipv4_address (nd_mgmt_ipv4 node) = Some ip \<and> in_net ip net \<and> ip \<notin> ?R \<and> dict_get [] ip = None"
      using r(3) [of name node] us net' ok' by (auto simp: map_of_eq_Some_iff)
  qed (use plan in \<open>simp add: address_plan_def\<close>)
  then obtain s2 o2 e2 where f2: "foldE (explicit_step net ?R) nodes' (sticky1, owner1, []) = Inr (s2, o2, e2)" by blast
  have kept: "\<exists>ip. nd_mgmt_ipv4 d = show_ip ip \<and> dict_get s2 n = Some (show_ip ip) \<and> kept_ip s2 o2 n = Some ip"
    if d: "dict_get nodes' n = Some d" "\<not> nd_mgmt_ipv4_explicit d" for n d
  proof -
    obtain ip where ip: "ipv4_address (nd_mgmt_ipv4 d) = Some ip" "dict_get owner ip = Some n" "usable net ip"
      "dict_get ledger n = Some (show_ip ip)"
      using r(3) [OF d(1)] d(2) net' by (auto split: if_splits)
    then have eq: "nd_mgmt_ipv4 d = show_ip ip" using show_parse_ip by metis
    have p: "ipv4_address (show_ip ip) = Some ip" using ip(1) eq by simp
    have other: "\<forall>m w. dict_get ledger m = Some w \<longrightarrow> m \<noteq> n \<longrightarrow> ipv4_address w \<noteq> Some ip"
      using lo ip(4) p unfolding ledger_owned_def by (metis option.inject)
    have expl: "\<forall>m e. dict_get nodes' m = Some e \<longrightarrow> nd_mgmt_ipv4_explicit e
        \<longrightarrow> m \<noteq> n \<and> ipv4_address (nd_mgmt_ipv4 e) \<noteq> Some ip"
      using r(3) d ip(2) by (metis option.inject)
    have "dict_ok ledger" using lo by (simp add: ledger_owned_def)
    then show ?thesis
      using reservation_holds [OF f1 f2 ph(2) _ ok' ip(4) p _ _ other expl] us [OF ip(3)] eq
      by (auto simp: holds_ip_def)
  qed
  have "foldE (auto_step net ?R) (sort (dict_keys nodes')) (nodes', s2, o2) = Inr (nodes', s2, o2)"
    by (rule auto_fold_stable) (use kept in auto)
  then show ?thesis using ph f1 f2 by (simp add: assign_sticky_mgmt_ipv4_def)
qed

text \<open>
  A reservation can be lost. If a node moves to a new explicit address while another node
  explicitly takes its old one, the entry that is dropped from the returned ledger is the one
  for the new address: the node is in the lab, but not in the ledger.
\<close>

theorem assign_sticky_ledger_drop:
  "assign_sticky_mgmt_ipv4 [(''m'', plain_node ''m'' ''10.0.0.3'' True), (''n'', plain_node ''n'' ''10.0.0.2'' True)]
     ''10.0.0.0/29'' [(''m'', ''10.0.0.2'')]
   = Inr ([(''m'', plain_node ''m'' ''10.0.0.3'' True), (''n'', plain_node ''n'' ''10.0.0.2'' True)],
          [(''n'', ''10.0.0.2'')])"
proof -
  obtain r where r: "ipv4_reservations ''10.0.0.0/29'' = Inr r"
    "reserved_of r = {167772161, 167772164, 167772165, 167772166}" by (rule reserved_10_29)
  show ?thesis by (simp add: r net_10_29 assign_eval)
qed

theorem assign_sticky_keeps_witness:
  "dict_get [(''a'', plain_node ''a'' ''10.0.0.3'' False)] ''a'' = Some ((plain_node ''a'' [] False)\<lparr>nd_mgmt_ipv4 := ''10.0.0.3''\<rparr>)
   \<and> dict_get [(''a'', ''10.0.0.3'')] ''a'' = Some ''10.0.0.3''"
proof (rule assign_sticky_keeps)
  obtain r where r: "ipv4_reservations ''10.0.0.0/29'' = Inr r"
    "reserved_of r = {167772161, 167772164, 167772165, 167772166}" by (rule reserved_10_29)
  show "assign_sticky_mgmt_ipv4 [(''a'', plain_node ''a'' [] False)] ''10.0.0.0/29'' [(''a'', ''10.0.0.3'')]
      = Inr ([(''a'', plain_node ''a'' ''10.0.0.3'' False)], [(''a'', ''10.0.0.3'')])"
    by (simp add: r net_10_29 assign_eval)
  show "ipv4_network ''10.0.0.0/29'' = Some \<lparr>nw_addr = 167772160, nw_prefix = 29\<rparr>" by (rule net_10_29)
  show "ipv4_address ''10.0.0.3'' = Some 167772163" by (simp add: ipv4_address_def of_octets_def)
  show "usable \<lparr>nw_addr = 167772160, nw_prefix = 29\<rparr> 167772163"
    by (simp add: usable_def in_net_def block_def broadcast_def)
qed (simp_all add: plain_node_def)

theorem assign_sticky_redeploy_witness:
  "\<exists>ledger'. assign_sticky_mgmt_ipv4
     [(''a'', plain_node ''a'' ''10.0.0.3'' False), (''b'', plain_node ''b'' ''10.0.0.2'' True)]
     ''10.0.0.0/29'' [(''b'', ''10.0.0.2''), (''a'', ''10.0.0.3'')]
   = Inr ([(''a'', plain_node ''a'' ''10.0.0.3'' False), (''b'', plain_node ''b'' ''10.0.0.2'' True)], ledger')"
  using assign_sticky_redeploy [OF assign_example] by simp

lemma length_dict_set: "length (dict_set k v d) \<le> Suc (length d)"
  by (induction d) auto

lemma seed_length: "length (snd (fold (seed_sticky net reserved) rs st)) \<le> length (snd st) + length rs"
proof (induction rs arbitrary: st)
  case (Cons r rs)
  have "length (snd (seed_sticky net reserved r st)) \<le> Suc (length (snd st))"
    using length_dict_set by (auto simp: seed_sticky_def split: prod.splits option.splits)
  then show ?case using Cons.IH [of "seed_sticky net reserved r st"] by simp
qed simp

lemma auto_fold_progress:
  assumes "card reserved + length ip_owner + length names \<le> length (hosts net)" "finite reserved"
  shows "\<exists>nodes' sticky' ip_owner'. foldE (auto_step net reserved) names (nodes, sticky, ip_owner) = Inr (nodes', sticky', ip_owner')"
  using assms
proof (induction names arbitrary: nodes sticky ip_owner)
  case (Cons name names)
  have "first_free net (reserved \<union> set (dict_keys ip_owner)) \<noteq> None"
  proof
    assume "first_free net (reserved \<union> set (dict_keys ip_owner)) = None"
    then have "card (set (hosts net)) \<le> card (reserved \<union> set (dict_keys ip_owner))"
      using mgmt_pool.alloc_complete Cons.prems(2) by (intro card_mono) auto
    also have "\<dots> \<le> card reserved + length ip_owner"
      using card_Un_le [of reserved "set (dict_keys ip_owner)"] card_length [of "dict_keys ip_owner"] by simp
    finally show False using Cons.prems(1) distinct_card [OF hosts_distinct, of net] by simp
  qed
  then have "\<exists>st'. auto_step net reserved name (nodes, sticky, ip_owner) = Inr st'"
    by (cases "kept_ip sticky ip_owner name") (auto simp: auto_step_def)
  then obtain st' where st: "auto_step net reserved name (nodes, sticky, ip_owner) = Inr st'" by blast
  obtain n1 s1 o1 where t: "st' = (n1, s1, o1)" by (metis prod_cases3)
  have "length o1 \<le> Suc (length ip_owner)"
    using st t length_dict_set by (auto simp: auto_step_def split: if_splits option.splits)
  then show ?case using Cons.IH [of o1 n1 s1] Cons.prems st t by auto
qed simp

lemma explicit_fold_none:
  "\<forall>nn \<in> set nodes. \<not> nd_mgmt_ipv4_explicit (snd nn) \<Longrightarrow> foldE (explicit_step net reserved) nodes st = Inr st"
  by (induction nodes) (auto simp: explicit_step_def split: prod.splits)

text \<open>
  C21: a lab without explicit addresses always gets its addresses when the subnet has room for
  the four reserved ones, the ledger and the nodes.
\<close>

theorem assign_sticky_succeeds:
  assumes "ipv4_network subnet = Some net" "nw_prefix net \<le> 29"
    and "\<forall>nn \<in> set nodes. \<not> nd_mgmt_ipv4_explicit (snd nn)"
    and "4 + length reservations + length nodes \<le> length (hosts net)"
  shows "\<exists>nodes' ledger. assign_sticky_mgmt_ipv4 nodes subnet reservations = Inr (nodes', ledger)"
proof -
  obtain r where r: "ipv4_reservations subnet = Inr r" using reservations_cases [OF assms(1)] assms(2) by simp
  have card: "finite (reserved_of r)" "card (reserved_of r) \<le> 4"
    using reserved_of_eq [OF assms(1) r] card_length [of "[nw_addr net + 1, broadcast net - 3, broadcast net - 2, broadcast net - 1]"]
    by simp_all
  obtain s1 o1 where f1: "fold (seed_sticky net (reserved_of r)) reservations ([], []) = (s1, o1)" by fastforce
  have "length o1 \<le> length reservations" using seed_length [of net "reserved_of r" reservations "([], [])"] f1 by simp
  then have "card (reserved_of r) + length o1 + length (sort (dict_keys nodes)) \<le> length (hosts net)"
    using card(2) assms(4) by simp
  then show ?thesis
    using auto_fold_progress [OF _ card(1), of o1 "sort (dict_keys nodes)" net nodes s1] f1 r assms(1)
      explicit_fold_none [OF assms(3)]
    by (auto simp: assign_sticky_mgmt_ipv4_def)
qed

theorem assign_sticky_succeeds_witness:
  "\<exists>nodes' ledger. assign_sticky_mgmt_ipv4 [(''a'', plain_node ''a'' [] False)] ''10.0.0.0/29'' [(''b'', ''nonsense'')] = Inr (nodes', ledger)"
  by (rule assign_sticky_succeeds [OF net_10_29])
    (simp_all add: hosts_def broadcast_def block_def plain_node_def)

end
