(* ===== verification/TopologyConfig.thy ===== *)
theory TopologyConfig
  imports HostsConfig MgmtIps
begin

text \<open>
  Reading a topology file, \<open>parse_topology\<close> of \<open>services/config.py\<close>: the sidecar comments that the
  GUI leaves in the file, the nodes and links, the management network and the merge with the host
  inventory. YAML and JSON parsing are parameters; a document of another shape than the code expects
  ends in an exception that nobody handles (\<open>UncaughtError\<close>), a field of another type than its annotation
  is \<open>MistypedField\<close>.
\<close>

section \<open>Sidecar comments\<close>

type_synonym json = "string \<Rightarrow> yvalue option"
type_synonym specs = "(string, (string, yvalue) dict) dict"

text \<open>The payload of the first line that has the prefix.\<close>

definition sidecar :: "string \<Rightarrow> string \<Rightarrow> string option" where
  "sidecar prefix raw_text =
     map_option (\<lambda>line. str_strip (drop (length prefix) line))
       (find (\<lambda>line. startswith line prefix) (str_splitlines raw_text))"

definition sidecar_dict :: "json \<Rightarrow> string \<Rightarrow> string \<Rightarrow> (string, yvalue) dict" where
  "sidecar_dict json prefix raw_text =
     (case sidecar prefix raw_text of
        None \<Rightarrow> []
      | Some payload \<Rightarrow> (case json payload of Some (VDict d) \<Rightarrow> d | _ \<Rightarrow> []))"

definition parse_dict_sidecar :: "json \<Rightarrow> string \<Rightarrow> string \<Rightarrow> specs" where
  "parse_dict_sidecar json prefix raw_text =
     List.map_filter (\<lambda>(node, spec). case spec of VDict s \<Rightarrow> Some (node, s) | _ \<Rightarrow> None)
       (sidecar_dict json prefix raw_text)"

definition parse_resources_sidecar :: "json \<Rightarrow> string \<Rightarrow> specs" where
  "parse_resources_sidecar json = parse_dict_sidecar json ''# dnlab-gui-resources:''"

definition parse_node_features_sidecar :: "json \<Rightarrow> string \<Rightarrow> specs" where
  "parse_node_features_sidecar json = parse_dict_sidecar json ''# dnlab-gui-node-features:''"

definition parse_node_overrides_sidecar :: "json \<Rightarrow> string \<Rightarrow> specs" where
  "parse_node_overrides_sidecar json = parse_dict_sidecar json ''# dnlab-gui-node-overrides:''"

definition wish_of :: "yvalue \<Rightarrow> (string, yvalue) dict option" where
  "wish_of e = (case e of VDict d \<Rightarrow> if is_int (get_or_none d ''container_port'') then Some d else None | _ \<Rightarrow> None)"

definition parse_webui_sidecar :: "json \<Rightarrow> string \<Rightarrow> (string, (string, yvalue) dict list) dict" where
  "parse_webui_sidecar json raw_text =
     List.map_filter (\<lambda>(node, items).
         case items of
           VList vs \<Rightarrow> (let valid = List.map_filter wish_of vs in if valid = [] then None else Some (node, valid))
         | _ \<Rightarrow> None)
       (sidecar_dict json ''# dnlab-gui-webui:'' raw_text)"

definition clean_persist_id :: "yvalue \<Rightarrow> string" where
  "clean_persist_id v =
     (let s = str_strip (py_str (v_or v (VStr [])))
      in if s \<noteq> [] \<and> list_all is_safe s then s else [])"

definition parse_node_ids_sidecar :: "json \<Rightarrow> string \<Rightarrow> (string, string) dict" where
  "parse_node_ids_sidecar json raw_text =
     List.map_filter (\<lambda>(node, node_id).
         let clean = clean_persist_id node_id in if node = [] \<or> clean = [] then None else Some (node, clean))
       (sidecar_dict json ''# dnlab-gui-node-ids:'' raw_text)"

section \<open>Nodes and links\<close>

datatype topo_error =
    TopologyNotFound | RootNotMapping | MissingName | HostsError hosts_error | NoNodes
  | InvalidRealNetLink string string | UnknownNode string string | MgmtError config_error
  | InvalidMgmtIpv6 | AddressError mgmt_address_error | UncaughtError | MistypedField

text \<open>The accessors of the host inventory raise here the exceptions they raise there.\<close>

fun reading_error :: "hosts_error \<Rightarrow> topo_error" where
  "reading_error Mistyped = MistypedField"
| "reading_error _ = UncaughtError"

definition reading :: "hosts_error + 'a \<Rightarrow> topo_error + 'a" where
  "reading r = map_sum reading_error id r"

definition str_map :: "yvalue \<Rightarrow> topo_error + (string, string) dict" where
  "str_map v =
     (case v of
        VDict d \<Rightarrow> mapE (\<lambda>(k, w). case w of VStr s \<Rightarrow> Inr (k, s) | _ \<Rightarrow> Inl MistypedField) d
      | _ \<Rightarrow> Inl MistypedField)"

text \<open>\<open>list(v)\<close>.\<close>

definition as_items :: "yvalue \<Rightarrow> topo_error + yvalue list" where
  "as_items v =
     (case v of
        VList vs \<Rightarrow> Inr vs
      | VDict d \<Rightarrow> Inr (map (\<lambda>kv. VStr (fst kv)) d)
      | VStr s \<Rightarrow> Inr (map (\<lambda>c. VStr [c]) s)
      | _ \<Rightarrow> Inl UncaughtError)"

definition parse_real_net :: "string \<Rightarrow> yvalue \<Rightarrow> topo_error + real_net" where
  "parse_real_net name ncfg =
     bindE (reading (section_of ncfg ''extra'')) (\<lambda>x.
     (let extra = (case x of VDict d \<Rightarrow> d | _ \<Rightarrow> []); g = get_or_none extra in
      bindE (reading (typed_str (v_or (g ''ipv4'') (v_or (g ''lan_ipv4'') (VStr []))))) (\<lambda>ipv4.
      bindE (reading (plain_int (v_or (g ''bgp_as'') (VInt 0)))) (\<lambda>bgp_as.
      bindE (as_items (v_or (g ''import_routers'') (VList []))) (\<lambda>import_routers.
      bindE (reading (typed_str (dict_get_or extra ''description'' (VStr [])))) (\<lambda>description.
      Inr \<lparr>rn_name = name, rn_ipv4 = ipv4,
           rn_nat = truthy (dict_get_or extra ''nat'' (VBool (\<not> (truthy (g ''bgp'') \<or> truthy (g ''ospf''))))),
           rn_bgp = truthy (dict_get_or extra ''bgp'' (dict_get_or extra ''ospf'' (VBool False))),
           rn_bgp_as = bgp_as, rn_bgp_router_ip = py_str (v_or (g ''bgp_router_ip'') (VStr [])),
           rn_bgp_password = py_str (v_or (g ''bgp_password'') (VStr [])),
           rn_import_routers = import_routers, rn_description = description\<rparr>))))))"

definition parse_vd_node :: "(string, string) dict \<Rightarrow> string \<Rightarrow> (string, yvalue) dict \<Rightarrow> topo_error + vdnode" where
  "parse_vd_node node_ids name d =
     (let persist_id = clean_persist_id
            (v_or (VStr (dict_get_or node_ids name []))
               (v_or (get_or_none d ''dnlab-persist-id'') (v_or (get_or_none d ''persist_id'') (VStr []))))
      in
      bindE (reading (str_field (VDict d) ''kind'' ''linux'')) (\<lambda>kind.
      bindE (reading (str_field (VDict d) ''image'' [])) (\<lambda>img.
      bindE (reading (str_field (VDict d) ''mgmt-ipv4'' [])) (\<lambda>mgmt_ipv4.
      bindE (str_map (dict_get_or d ''env'' (VDict []))) (\<lambda>env.
      Inr \<lparr>nd_name = name, nd_kind = kind, nd_image = img, nd_mgmt_ipv4 = mgmt_ipv4,
           nd_mgmt_ipv4_explicit = (mgmt_ipv4 \<noteq> []), nd_env = env,
           nd_extra = filter (\<lambda>kv. fst kv \<notin> {''kind'', ''image'', ''mgmt-ipv4'', ''env'', ''dnlab-persist-id'', ''persist_id''}) d,
           nd_persist_id = persist_id\<rparr>)))))"

definition node_step ::
  "(string, string) dict \<Rightarrow> string \<times> yvalue \<Rightarrow> (string, vdnode) dict \<times> (string, real_net) dict
     \<Rightarrow> topo_error + (string, vdnode) dict \<times> (string, real_net) dict" where
  "node_step node_ids kv acc =
     (case v_or (snd kv) (VDict []) of
        VDict d \<Rightarrow>
          if get_or_none d ''kind'' = VStr ''_real_net'' then
            bindE (parse_real_net (fst kv) (VDict d)) (\<lambda>rn. Inr (fst acc, dict_set (fst kv) rn (snd acc)))
          else
            bindE (parse_vd_node node_ids (fst kv) d) (\<lambda>nd. Inr (dict_set (fst kv) nd (fst acc), snd acc))
      | _ \<Rightarrow> Inl UncaughtError)"

text \<open>\<open>(endpoint.split(":", 1) + [""])[:2]\<close>.\<close>

definition split_endpoint :: "string \<Rightarrow> string \<times> string" where
  "split_endpoint s = (case str_split1 (CHR '':'') s of [n, i] \<Rightarrow> (n, i) | _ \<Rightarrow> (s, []))"

text \<open>The two endpoints of a link; anything of another length is skipped.\<close>

fun endpoints_of :: "yvalue \<Rightarrow> topo_error + (string \<times> string) option" where
  "endpoints_of (VList [VStr a, VStr b]) = Inr (Some (a, b))"
| "endpoints_of (VList [a, b]) = Inl UncaughtError"
| "endpoints_of (VList vs) = Inr None"
| "endpoints_of (VStr [a, b]) = Inr (Some ([a], [b]))"
| "endpoints_of (VStr s) = Inr None"
| "endpoints_of (VDict d) = (if length d = 2 then Inl UncaughtError else Inr None)"
| "endpoints_of _ = Inl UncaughtError"

definition classify_endpoints ::
  "string set \<Rightarrow> string set \<Rightarrow> string \<times> string \<Rightarrow> link list \<times> real_net_link list
     \<Rightarrow> topo_error + link list \<times> real_net_link list" where
  "classify_endpoints nodes real_nets ab acc =
     (let (a_node, a_iface) = split_endpoint (fst ab); (b_node, b_iface) = split_endpoint (snd ab);
          attach = (\<lambda>rn node iface. Inr (fst acc, snd acc @
            [\<lparr>rl_real_net = rn, rl_node = node, rl_iface = iface, rl_host = [], rl_bridge_iface = []\<rparr>]))
      in if a_node \<in> real_nets \<or> b_node \<in> real_nets then
           if a_node \<in> real_nets \<and> b_node \<in> nodes then attach a_node b_node b_iface
           else if b_node \<in> real_nets \<and> a_node \<in> nodes then attach b_node a_node a_iface
           else Inl (InvalidRealNetLink (fst ab) (snd ab))
         else if a_node \<notin> nodes \<or> b_node \<notin> nodes then Inl (UnknownNode (fst ab) (snd ab))
         else Inr (fst acc @ [\<lparr>lk_source = a_node, lk_source_iface = a_iface,
                               lk_target = b_node, lk_target_iface = b_iface\<rparr>], snd acc))"

definition link_step ::
  "string set \<Rightarrow> string set \<Rightarrow> yvalue \<Rightarrow> link list \<times> real_net_link list
     \<Rightarrow> topo_error + link list \<times> real_net_link list" where
  "link_step nodes real_nets lk acc =
     bindE (reading (mget_or lk ''endpoints'' (VList []))) (\<lambda>eps.
     bindE (endpoints_of eps) (\<lambda>ab.
       case ab of None \<Rightarrow> Inr acc | Some ab \<Rightarrow> classify_endpoints nodes real_nets ab acc))"

section \<open>The management network\<close>

definition ipv6_gateway :: "string \<Rightarrow> mgmt_address_error + string" where
  "ipv6_gateway subnet =
     (case ipv6_network subnet of
        None \<Rightarrow> Inl InvalidSubnet
      | Some net \<Rightarrow> if n6_prefix net = 128 then Inl TooSmall
                    else Inr (show_ipv6 (n6_addr net + (2 ^ (128 - n6_prefix net) - 1))))"

definition ipv4_mapped :: "ipv6_net \<Rightarrow> bool" where
  "ipv4_mapped n \<longleftrightarrow> n6_addr n div 2 ^ 32 = 65535"

definition resolve_mgmt_ipv6_subnet :: "string \<Rightarrow> string \<Rightarrow> topo_error + string" where
  "resolve_mgmt_ipv6_subnet requested ipv4_subnet =
     (if requested \<noteq> [] then
        (case ipv6_network requested of
           None \<Rightarrow> Inl InvalidMgmtIpv6
         | Some subnet \<Rightarrow>
             if ipv4_mapped subnet then map_sum AddressError id (derive_ipv6_subnet_from_ipv4 ipv4_subnet)
             else Inr (show_net6 subnet))
      else map_sum (\<lambda>_. InvalidMgmtIpv6) id (derive_ipv6_subnet_from_ipv4 ipv4_subnet))"

text \<open>
  \<open>states\<close> lists lab name and management subnet of the state files. The \<open>MgmtAddressError\<close> of the
  gateway is not turned into a \<open>ConfigError\<close>.
\<close>

definition mgmt_config_of ::
  "string \<Rightarrow> yvalue \<Rightarrow> string \<Rightarrow> (string \<times> string) list \<Rightarrow> topo_error + mgmt_config" where
  "mgmt_config_of lab mgmt_cfg default_subnet states =
     bindE (reading (mget mgmt_cfg ''ipv4-subnet'')) (\<lambda>r4.
     bindE (reading (typed_str (v_or r4 (VStr [])))) (\<lambda>requested4.
     bindE (map_sum MgmtError id (resolve_mgmt_config requested4 default_subnet (active_mgmt_networks states lab)))
       (\<lambda>(subnet, gw, docker_gw).
     bindE (reading (mget mgmt_cfg ''ipv6-subnet'')) (\<lambda>r6.
     bindE (reading (typed_str (v_or r6 (VStr [])))) (\<lambda>requested6.
     bindE (resolve_mgmt_ipv6_subnet (str_strip requested6) subnet) (\<lambda>subnet6.
     bindE (map_sum AddressError id (ipv6_gateway subnet6)) (\<lambda>gw6.
     Inr \<lparr>mg_network = mgmt_network_name lab, mg_bridge = mgmt_bridge_name lab, mg_ipv4_subnet = subnet,
          mg_ipv4_gw = gw, mg_docker_ipv4_gw = docker_gw, mg_ipv6_subnet = subnet6, mg_ipv6_gw = gw6\<rparr>)))))))"

section \<open>The whole topology\<close>

record lab_topology = topology +
  lt_underlay_iface :: string
  lt_jumphost_image :: string
  lt_jumphost_net :: jumphost_net
  lt_realnet_infra :: realnet_config
  lt_webui_wishlist :: "(string, (string, yvalue) dict list) dict"
  lt_node_overrides :: specs
  lt_node_features :: specs
  lt_webui_ports :: webui_ports_config
  lt_persistence :: persistence_config

definition jumphost_image_of :: "site \<Rightarrow> hosts_config \<Rightarrow> yvalue \<Rightarrow> topo_error + string" where
  "jumphost_image_of st conf raw =
     bindE (reading (section_of raw ''jumphost'')) (\<lambda>jh.
     if \<not> is_dict jh then Inl UncaughtError
     else if truthy jh then reading (str_field jh ''image'' (default_image st ''jumphost''))
     else Inr (case hc_jumphost_image conf of Some i \<Rightarrow> i | None \<Rightarrow> default_image st ''jumphost''))"

text \<open>A given configuration wins over an in-topology \<open>infrastructure\<close> block, and that over the hosts file.\<close>

definition inventory ::
  "site \<Rightarrow> (string \<Rightarrow> document) \<Rightarrow> yvalue \<Rightarrow> string option \<Rightarrow> hosts_config option \<Rightarrow> topo_error + hosts_config" where
  "inventory st read raw hosts_file given =
     (case given of
        Some c \<Rightarrow> Inr c
      | None \<Rightarrow> map_sum HostsError id
          (if (case raw of VDict d \<Rightarrow> dict_get d ''infrastructure'' \<noteq> None | _ \<Rightarrow> False)
           then hosts_config_from_legacy_topology st raw else load_hosts_config st read hosts_file))"

definition read_nodes ::
  "(string, string) dict \<Rightarrow> yvalue \<Rightarrow> topo_error + (string, vdnode) dict \<times> (string, real_net) dict" where
  "read_nodes node_ids topo =
     bindE (reading (mget_or topo ''nodes'' (VDict []))) (\<lambda>raw_nodes.
       if \<not> truthy raw_nodes then Inl NoNodes
       else (case raw_nodes of VDict kvs \<Rightarrow> foldE (node_step node_ids) kvs ([], []) | _ \<Rightarrow> Inl UncaughtError))"

definition read_links ::
  "string set \<Rightarrow> string set \<Rightarrow> yvalue \<Rightarrow> topo_error + link list \<times> real_net_link list" where
  "read_links nodes real_nets topo =
     bindE (reading (mget_or topo ''links'' (VList []))) (\<lambda>raw_links.
     bindE (as_items raw_links) (\<lambda>lks. foldE (link_step nodes real_nets) lks ([], [])))"

text \<open>The nodes with the real networks, and the links between them.\<close>

definition read_graph ::
  "(string, string) dict \<Rightarrow> yvalue
     \<Rightarrow> topo_error + ((string, vdnode) dict \<times> (string, real_net) dict) \<times> (link list \<times> real_net_link list)" where
  "read_graph node_ids raw =
     bindE (reading (mget_or raw ''topology'' (VDict []))) (\<lambda>topo.
     bindE (read_nodes node_ids topo) (\<lambda>parts.
     bindE (read_links (set (dict_keys (fst parts))) (set (dict_keys (snd parts))) topo) (\<lambda>lks.
     Inr (parts, lks))))"

definition topology_of_document ::
  "site \<Rightarrow> json \<Rightarrow> (string \<Rightarrow> document) \<Rightarrow> (string \<times> string) list \<Rightarrow> string option \<Rightarrow> hosts_config option
     \<Rightarrow> string \<Rightarrow> yvalue \<Rightarrow> topo_error + lab_topology" where
  "topology_of_document st json read states hosts_file given raw_text raw =
     bindE (reading (mget raw ''name'')) (\<lambda>nm.
     bindE (if truthy nm then reading (typed_str nm) else Inl MissingName) (\<lambda>name.
     bindE (inventory st read raw hosts_file given) (\<lambda>conf.
     bindE (read_graph (parse_node_ids_sidecar json raw_text) raw) (\<lambda>g.
     bindE (reading (section_of raw ''mgmt'')) (\<lambda>mgmt_cfg.
     bindE (mgmt_config_of name mgmt_cfg (md_ipv4_subnet (hc_mgmt_defaults conf)) states) (\<lambda>mgmt.
     bindE (jumphost_image_of st conf raw) (\<lambda>jumphost.
     bindE (map_sum MgmtError id (auto_assign_mgmt_ipv4 (fst (fst g)) (mg_ipv4_subnet mgmt))) (\<lambda>nodes.
     Inr \<lparr>tp_name = name, tp_master = hc_master conf, tp_workers = hc_workers conf, tp_nodes = nodes,
          tp_links = fst (snd g), tp_mgmt = mgmt, tp_real_nets = snd (fst g), tp_real_net_links = snd (snd g),
          tp_resource_specs = parse_resources_sidecar json raw_text,
          lt_underlay_iface = hc_underlay_iface conf, lt_jumphost_image = jumphost,
          lt_jumphost_net = hc_jumphost_net conf, lt_realnet_infra = hc_realnet conf,
          lt_webui_wishlist = parse_webui_sidecar json raw_text,
          lt_node_overrides = parse_node_overrides_sidecar json raw_text,
          lt_node_features = parse_node_features_sidecar json raw_text,
          lt_webui_ports = hc_webui_ports conf, lt_persistence = hc_persistence conf\<rparr>))))))))"

text \<open>The file is its text and the document that YAML parsing gives; \<^const>\<open>None\<close> is a missing file.\<close>

definition parse_topology ::
  "site \<Rightarrow> json \<Rightarrow> (string \<Rightarrow> document) \<Rightarrow> (string \<times> string) list \<Rightarrow> string option \<Rightarrow> hosts_config option
     \<Rightarrow> (string \<times> document) option \<Rightarrow> topo_error + lab_topology" where
  "parse_topology st json read states hosts_file given file =
     (case file of
        None \<Rightarrow> Inl TopologyNotFound
      | Some (raw_text, doc) \<Rightarrow>
          (case doc of
             Document raw \<Rightarrow> if \<not> is_dict raw then Inl RootNotMapping
                             else topology_of_document st json read states hosts_file given raw_text raw
           | _ \<Rightarrow> Inl UncaughtError))"

section \<open>Automatic addresses\<close>

lemma fold_set_ip_get:
  "distinct (map fst ps) \<Longrightarrow> dict_get (fold (\<lambda>(n, ip). set_ip n ip) ps nodes) x =
     map_option (\<lambda>nd. case map_of ps x of None \<Rightarrow> nd | Some ip \<Rightarrow> nd\<lparr>nd_mgmt_ipv4 := show_ip ip\<rparr>) (dict_get nodes x)"
proof (induction ps arbitrary: nodes)
  case (Cons p ps)
  obtain n ip where p: "p = (n, ip)" by (cases p)
  have "n \<notin> fst ` set ps" using Cons.prems p by simp
  then have "map_of ps n = None" by (simp add: map_of_eq_None_iff)
  then show ?case using Cons p by (cases "dict_get nodes x") (auto simp: set_ip_get)
qed (simp add: option.map_ident)

lemma fold_set_ip_keys: "dict_keys (fold (\<lambda>(n, ip). set_ip n ip) ps nodes) = dict_keys nodes"
  by (induction ps arbitrary: nodes) (auto simp: set_ip_keys)

definition unaddressed :: "node_map \<Rightarrow> string \<Rightarrow> bool" where
  "unaddressed nodes n \<longleftrightarrow> (\<exists>nd. dict_get nodes n = Some nd \<and> nd_mgmt_ipv4 nd = [])"

lemma fill_pool_fold:
  "distinct names \<Longrightarrow>
     fill_pool names pool nodes = fold (\<lambda>(n, ip). set_ip n ip) (zip (filter (unaddressed nodes) names) pool) nodes"
proof (induction names arbitrary: pool nodes)
  case (Cons name names)
  have other: "filter (unaddressed (set_ip name ip nodes)) names = filter (unaddressed nodes) names" for ip
    using Cons.prems by (intro filter_cong) (auto simp: unaddressed_def set_ip_get)
  have needs: "(case dict_get nodes name of None \<Rightarrow> True | Some node \<Rightarrow> nd_mgmt_ipv4 node \<noteq> []) \<longleftrightarrow> \<not> unaddressed nodes name"
    by (auto simp: unaddressed_def split: option.splits)
  show ?case using Cons by (cases pool) (simp_all add: needs other)
qed simp

lemma collect_static_used:
  assumes "foldE (collect_static reserved) nodes used = Inr used'"
  shows "used \<subseteq> used' \<and> (\<forall>nn ip. nn \<in> set nodes \<longrightarrow> ipv4_address (nd_mgmt_ipv4 (snd nn)) = Some ip \<longrightarrow> ip \<in> used')"
  using assms
proof (induction nodes arbitrary: used)
  case (Cons nn nodes)
  obtain t where t: "collect_static reserved nn used = Inr t" "foldE (collect_static reserved) nodes t = Inr used'"
    using Cons.prems by (auto split: sum.splits)
  have "used \<subseteq> t \<and> (\<forall>ip. ipv4_address (nd_mgmt_ipv4 (snd nn)) = Some ip \<longrightarrow> ip \<in> t)"
    using t(1) by (auto simp: collect_static_def split: option.splits if_splits)
  then show ?case using Cons.IH [OF t(2)] by auto
qed simp

text \<open>What automatic assignment adds: pairs of an unaddressed node and a host address nobody has.\<close>

definition new_address :: "string \<Rightarrow> node_map \<Rightarrow> string \<times> nat \<Rightarrow> bool" where
  "new_address subnet nodes p \<longleftrightarrow> unaddressed nodes (fst p)
     \<and> (\<exists>net. ipv4_network subnet = Some net \<and> snd p \<in> set (hosts net))
     \<and> (\<forall>m nd. dict_get nodes m = Some nd \<longrightarrow> ipv4_address (nd_mgmt_ipv4 nd) \<noteq> Some (snd p))"

lemma auto_assign_adds:
  assumes "auto_assign_mgmt_ipv4 nodes subnet = Inr nodes'" "dict_ok nodes"
  shows "\<exists>ps. nodes' = fold (\<lambda>(n, ip). set_ip n ip) ps nodes \<and> distinct (map fst ps) \<and> distinct (map snd ps)
     \<and> list_all (new_address subnet nodes) ps"
proof (cases "ipv4_network subnet")
  case None
  then show ?thesis using assms(1) by (intro exI [of _ "[]"]) (simp add: auto_assign_mgmt_ipv4_def)
next
  case (Some net)
  define reserved where "reserved = (case ipv4_reservations subnet of Inl _ \<Rightarrow> {} | Inr r \<Rightarrow> reserved_of r)"
  obtain used where u: "foldE (collect_static reserved) nodes reserved = Inr used"
    and n': "nodes' = fill_pool (sort (dict_keys nodes)) (filter (\<lambda>ip. ip \<notin> used) (hosts net)) nodes"
    using assms(1) Some by (auto simp: auto_assign_mgmt_ipv4_def reserved_def Let_def bindE_eq_Inr)
  let ?names = "filter (unaddressed nodes) (sort (dict_keys nodes))" and ?pool = "filter (\<lambda>ip. ip \<notin> used) (hosts net)"
  let ?ps = "zip ?names ?pool"
  have d: "distinct ?names" "distinct ?pool" using assms(2) hosts_distinct by auto
  have "new_address subnet nodes (n, ip)" if "(n, ip) \<in> set ?ps" for n ip
    using that Some collect_static_used [OF u] by (fastforce simp: new_address_def dest: set_zip_leftD set_zip_rightD map_of_SomeD)
  moreover have "distinct (map fst ?ps)" "distinct (map snd ?ps)"
    using d distinct_take by (simp_all only: map_fst_zip_take map_snd_zip_take)
  ultimately show ?thesis
    using n' assms(2) by (intro exI [of _ ?ps]) (auto simp: fill_pool_fold list_all_iff)
qed

section \<open>What an accepted topology satisfies\<close>

definition node_ok :: "string \<Rightarrow> vdnode \<Rightarrow> bool" where
  "node_ok n nd \<longleftrightarrow> nd_name nd = n \<and> list_all is_safe (nd_persist_id nd)
     \<and> nd_mgmt_ipv4_explicit nd = (nd_mgmt_ipv4 nd \<noteq> [])"

lemma clean_persist_id_safe: "list_all is_safe (clean_persist_id v)"
  by (simp add: clean_persist_id_def Let_def)

lemma parse_vd_node_ok: "parse_vd_node ids n d = Inr nd \<Longrightarrow> node_ok n nd"
  unfolding parse_vd_node_def Let_def
  by (elim bindE_InrE) (auto simp: node_ok_def clean_persist_id_safe)

text \<open>The nodes and the real networks read so far: keyed by name, and no name is both.\<close>

definition parts_ok :: "(string, vdnode) dict \<times> (string, real_net) dict \<Rightarrow> bool" where
  "parts_ok acc \<longleftrightarrow> dict_ok (fst acc) \<and> dict_ok (snd acc)
     \<and> (\<forall>n nd. dict_get (fst acc) n = Some nd \<longrightarrow> node_ok n nd)
     \<and> (\<forall>n rn. dict_get (snd acc) n = Some rn \<longrightarrow> rn_name rn = n)"

lemma parse_real_net_name: "parse_real_net n v = Inr rn \<Longrightarrow> rn_name rn = n"
  unfolding parse_real_net_def Let_def by (elim bindE_InrE) auto

lemma node_step_cases:
  assumes "node_step ids kv acc = Inr acc'"
  obtains (vd) nd where "node_ok (fst kv) nd" "acc' = (dict_set (fst kv) nd (fst acc), snd acc)"
    | (rn) rn where "rn_name rn = fst kv" "acc' = (fst acc, dict_set (fst kv) rn (snd acc))"
proof (cases "v_or (snd kv) (VDict [])")
  case (VDict d)
  show ?thesis
  proof (cases "get_or_none d ''kind'' = VStr ''_real_net''")
    case True
    then obtain x where "parse_real_net (fst kv) (VDict d) = Inr x" "acc' = (fst acc, dict_set (fst kv) x (snd acc))"
      using assms VDict by (auto simp: node_step_def bindE_eq_Inr)
    then show ?thesis using rn parse_real_net_name by blast
  next
    case False
    then obtain x where "parse_vd_node ids (fst kv) d = Inr x" "acc' = (dict_set (fst kv) x (fst acc), snd acc)"
      using assms VDict by (auto simp: node_step_def bindE_eq_Inr)
    then show ?thesis using vd parse_vd_node_ok by blast
  qed
qed (use assms in \<open>simp_all add: node_step_def\<close>)

lemma node_step_ok: "parts_ok acc \<Longrightarrow> node_step ids kv acc = Inr acc' \<Longrightarrow> parts_ok acc'"
  by (erule node_step_cases) (auto simp: parts_ok_def)

lemma node_step_keys:
  assumes "node_step ids kv acc = Inr acc'"
  shows "(fst ` set (fst acc') = insert (fst kv) (fst ` set (fst acc)) \<and> snd acc' = snd acc)
     \<or> (fst ` set (snd acc') = insert (fst kv) (fst ` set (snd acc)) \<and> fst acc' = fst acc)"
  using assms by (rule node_step_cases) (simp_all add: dict_keys_set)

lemma node_steps_keys:
  "foldE (node_step ids) kvs acc = Inr acc' \<Longrightarrow> distinct (dict_keys kvs) \<Longrightarrow>
     fst ` set kvs \<inter> (fst ` set (fst acc) \<union> fst ` set (snd acc)) = {} \<Longrightarrow>
     fst ` set (fst acc) \<inter> fst ` set (snd acc) = {} \<Longrightarrow>
     fst ` set (fst acc') \<inter> fst ` set (snd acc') = {}
   \<and> fst ` set (fst acc') \<union> fst ` set (snd acc') = fst ` set kvs \<union> fst ` set (fst acc) \<union> fst ` set (snd acc)"
proof (induction kvs arbitrary: acc)
  case (Cons kv kvs)
  obtain t where t: "node_step ids kv acc = Inr t" "foldE (node_step ids) kvs t = Inr acc'"
    using Cons.prems(1) by (auto split: sum.splits)
  have nk: "fst kv \<notin> fst ` set (fst acc)" "fst kv \<notin> fst ` set (snd acc)" using Cons.prems(3) by auto
  have keys: "fst ` set (fst t) \<union> fst ` set (snd t) = insert (fst kv) (fst ` set (fst acc) \<union> fst ` set (snd acc))"
    "fst ` set (fst t) \<inter> fst ` set (snd t) = {}"
    using node_step_keys [OF t(1)] Cons.prems(4) nk by (elim disjE conjE; simp)+
  then show ?case using Cons.IH [OF t(2)] Cons.prems(2,3) by auto
qed simp

lemma read_nodes_ok:
  assumes "read_nodes ids topo = Inr acc"
  shows "parts_ok acc"
proof -
  obtain kvs where "foldE (node_step ids) kvs ([], []) = Inr acc"
    using assms by (auto simp: read_nodes_def bindE_eq_Inr split: if_splits yvalue.splits)
  then show ?thesis by (rule foldE_invariant) (simp add: parts_ok_def, rule node_step_ok)
qed

text \<open>Every link joins two nodes, every attachment joins a node and a real network.\<close>

definition links_ok :: "string set \<Rightarrow> string set \<Rightarrow> link list \<times> real_net_link list \<Rightarrow> bool" where
  "links_ok nodes real_nets acc \<longleftrightarrow>
     list_all (\<lambda>l. lk_source l \<in> nodes \<and> lk_target l \<in> nodes) (fst acc)
   \<and> list_all (\<lambda>l. rl_node l \<in> nodes \<and> rl_real_net l \<in> real_nets \<and> rl_host l = []) (snd acc)"

lemma link_step_ok:
  assumes "links_ok nodes real_nets acc" "link_step nodes real_nets lk acc = Inr acc'"
  shows "links_ok nodes real_nets acc'"
proof -
  obtain eps ab where "endpoints_of eps = Inr ab"
    "(case ab of None \<Rightarrow> Inr acc | Some ab \<Rightarrow> classify_endpoints nodes real_nets ab acc) = Inr acc'"
    using assms(2) unfolding link_step_def by (elim bindE_InrE)
  then show ?thesis
    using assms(1) by (auto simp: classify_endpoints_def links_ok_def Let_def split: option.splits prod.splits if_splits)
qed

lemma read_links_ok:
  assumes "read_links nodes real_nets topo = Inr acc"
  shows "links_ok nodes real_nets acc"
proof -
  obtain lks where "foldE (link_step nodes real_nets) lks ([], []) = Inr acc"
    using assms unfolding read_links_def by (elim bindE_InrE)
  then show ?thesis by (rule foldE_invariant) (simp add: links_ok_def, rule link_step_ok)
qed

text \<open>An address that was assigned automatically is a host of the subnet that no other node has.\<close>

definition auto_unique :: "string \<Rightarrow> node_map \<Rightarrow> bool" where
  "auto_unique subnet nodes \<longleftrightarrow>
     (\<forall>n nd. dict_get nodes n = Some nd \<longrightarrow> \<not> nd_mgmt_ipv4_explicit nd \<longrightarrow> nd_mgmt_ipv4 nd \<noteq> []
        \<longrightarrow> (\<exists>net ip. ipv4_network subnet = Some net \<and> ip \<in> set (hosts net) \<and> ipv4_address (nd_mgmt_ipv4 nd) = Some ip
              \<and> (\<forall>m md. dict_get nodes m = Some md \<longrightarrow> n \<noteq> m \<longrightarrow> ipv4_address (nd_mgmt_ipv4 md) \<noteq> Some ip)))"

lemma host_text: "ipv4_network subnet = Some net \<Longrightarrow> ip \<in> set (hosts net) \<Longrightarrow> ipv4_address (show_ip ip) = Some ip"
  using hosts_in_net ipv4_network_ok in_net_less parse_show_ip by metis

lemma auto_assign_unique:
  assumes "auto_assign_mgmt_ipv4 nodes subnet = Inr nodes'" "dict_ok nodes"
    and "\<And>n nd. dict_get nodes n = Some nd \<Longrightarrow> node_ok n nd"
  shows "auto_unique subnet nodes'"
proof -
  obtain ps where n': "nodes' = fold (\<lambda>(n, ip). set_ip n ip) ps nodes"
    and d: "distinct (map fst ps)" "distinct (map snd ps)" and new: "list_all (new_address subnet nodes) ps"
    using auto_assign_adds [OF assms(1,2)] by blast
  have get: "dict_get nodes' x =
     map_option (\<lambda>nd. case map_of ps x of None \<Rightarrow> nd | Some ip \<Rightarrow> nd\<lparr>nd_mgmt_ipv4 := show_ip ip\<rparr>) (dict_get nodes x)" for x
    unfolding n' by (rule fold_set_ip_get [OF d(1)])
  have addr: "\<exists>net. ipv4_network subnet = Some net \<and> ip \<in> set (hosts net) \<and> ipv4_address (show_ip ip) = Some ip"
    "\<forall>m nd. dict_get nodes m = Some nd \<longrightarrow> ipv4_address (nd_mgmt_ipv4 nd) \<noteq> Some ip" if "map_of ps x = Some ip" for x ip
    using new map_of_SomeD [OF that] host_text by (fastforce simp: list_all_iff new_address_def)+
  show ?thesis
    unfolding auto_unique_def
  proof (intro allI impI)
    fix n nd
    assume nd: "dict_get nodes' n = Some nd" and auto: "\<not> nd_mgmt_ipv4_explicit nd" "nd_mgmt_ipv4 nd \<noteq> []"
    obtain nd0 where nd0: "dict_get nodes n = Some nd0"
      "nd = (case map_of ps n of None \<Rightarrow> nd0 | Some ip \<Rightarrow> nd0\<lparr>nd_mgmt_ipv4 := show_ip ip\<rparr>)"
      using nd get [of n] by auto
    have "map_of ps n \<noteq> None" using auto nd0 assms(3) [OF nd0(1)] by (auto simp: node_ok_def split: option.splits)
    then obtain ip where ip: "map_of ps n = Some ip" by blast
    have a: "ipv4_address (nd_mgmt_ipv4 nd) = Some ip" using nd0(2) ip addr(1) [OF ip] by auto
    have b: "ipv4_address (nd_mgmt_ipv4 md) \<noteq> Some ip" if md: "dict_get nodes' m = Some md" and ne: "n \<noteq> m" for m md
    proof -
      obtain md0 where md0: "dict_get nodes m = Some md0"
        "md = (case map_of ps m of None \<Rightarrow> md0 | Some ip \<Rightarrow> md0\<lparr>nd_mgmt_ipv4 := show_ip ip\<rparr>)"
        using md get [of m] by auto
      show ?thesis
      proof (cases "map_of ps m")
        case None
        then show ?thesis using md0 addr(2) [OF ip] by simp
      next
        case (Some jp)
        have "jp \<noteq> ip"
          using ne d(2) map_of_SomeD [OF ip] map_of_SomeD [OF Some] by (metis eq_key_imp_eq_value inj_on_eq_iff distinct_map prod.inject snd_conv)
        then show ?thesis using md0(2) Some addr(1) [OF Some] by auto
      qed
    qed
    show "\<exists>net ip. ipv4_network subnet = Some net \<and> ip \<in> set (hosts net) \<and> ipv4_address (nd_mgmt_ipv4 nd) = Some ip
       \<and> (\<forall>m md. dict_get nodes' m = Some md \<longrightarrow> n \<noteq> m \<longrightarrow> ipv4_address (nd_mgmt_ipv4 md) \<noteq> Some ip)"
      using addr(1) [OF ip] a b by blast
  qed
qed

lemma auto_assign_nodes:
  assumes "auto_assign_mgmt_ipv4 nodes subnet = Inr nodes'" "dict_ok nodes"
    and "\<And>n nd. dict_get nodes n = Some nd \<Longrightarrow> node_ok n nd"
  shows "dict_keys nodes' = dict_keys nodes
     \<and> (\<forall>n nd. dict_get nodes' n = Some nd \<longrightarrow> nd_name nd = n \<and> list_all is_safe (nd_persist_id nd))"
proof -
  obtain ps where n': "nodes' = fold (\<lambda>(n, ip). set_ip n ip) ps nodes" and d: "distinct (map fst ps)"
    using auto_assign_adds [OF assms(1,2)] by blast
  have "nd_name nd = n \<and> list_all is_safe (nd_persist_id nd)" if "dict_get nodes' n = Some nd" for n nd
    using that assms(3) fold_set_ip_get [OF d, of nodes n] n' by (auto simp: node_ok_def split: option.splits)
  then show ?thesis using n' fold_set_ip_keys by blast
qed

text \<open>Dictionaries of a parsed document have no key twice.\<close>

fun well_keyed :: "yvalue \<Rightarrow> bool" where
  "well_keyed (VDict d) = (dict_ok d \<and> list_all (\<lambda>(k, v). well_keyed v) d)"
| "well_keyed (VList vs) = list_all well_keyed vs"
| "well_keyed v = True"

lemma well_keyed_get:
  assumes "mget_or m k d = Inr v" "well_keyed m" "well_keyed d"
  shows "well_keyed v"
proof -
  obtain kv where "m = VDict kv" "v = dict_get_or kv k d"
    using assms(1) by (auto simp: mget_or_def split: yvalue.splits)
  then show ?thesis
    using assms(2,3) by (auto simp: dict_get_or_def list_all_iff split: option.splits dest!: map_of_SomeD)
qed

lemma reading_Inr [simp]: "reading r = Inr x \<longleftrightarrow> r = Inr x"
  by (cases r) (simp_all add: reading_def)

lemma map_sum_Inr [simp]: "map_sum f id r = Inr x \<longleftrightarrow> r = Inr x"
  by (cases r) simp_all

lemma read_nodes_disjoint:
  assumes "read_nodes ids topo = Inr acc" "well_keyed topo"
  shows "fst ` set (fst acc) \<inter> fst ` set (snd acc) = {}"
proof -
  obtain kvs where kvs: "mget_or topo ''nodes'' (VDict []) = Inr (VDict kvs)" "foldE (node_step ids) kvs ([], []) = Inr acc"
    using assms(1) by (auto simp: read_nodes_def bindE_eq_Inr split: if_splits yvalue.splits)
  have "distinct (dict_keys kvs)" using well_keyed_get [OF kvs(1) assms(2)] by simp
  then show ?thesis using node_steps_keys [OF kvs(2)] by simp
qed

definition topology_typed :: "lab_topology \<Rightarrow> bool" where
  "topology_typed t \<longleftrightarrow>
     dict_ok (tp_nodes t) \<and> dict_ok (tp_real_nets t)
   \<and> set (dict_keys (tp_nodes t)) \<inter> set (dict_keys (tp_real_nets t)) = {}
   \<and> (\<forall>n nd. dict_get (tp_nodes t) n = Some nd \<longrightarrow> nd_name nd = n \<and> list_all is_safe (nd_persist_id nd))
   \<and> (\<forall>n rn. dict_get (tp_real_nets t) n = Some rn \<longrightarrow> rn_name rn = n)
   \<and> links_ok (set (dict_keys (tp_nodes t))) (set (dict_keys (tp_real_nets t))) (tp_links t, tp_real_net_links t)
   \<and> auto_unique (mg_ipv4_subnet (tp_mgmt t)) (tp_nodes t)"

lemma read_graph_ok:
  assumes "read_graph ids raw = Inr g" "well_keyed raw"
  shows "parts_ok (fst g) \<and> fst ` set (fst (fst g)) \<inter> fst ` set (snd (fst g)) = {}
     \<and> links_ok (set (dict_keys (fst (fst g)))) (set (dict_keys (snd (fst g)))) (snd g)"
proof -
  obtain topo where topo: "mget_or raw ''topology'' (VDict []) = Inr topo" "read_nodes ids topo = Inr (fst g)"
    "read_links (set (dict_keys (fst (fst g)))) (set (dict_keys (snd (fst g)))) topo = Inr (snd g)"
    using assms(1) unfolding read_graph_def by (elim bindE_InrE) auto
  have "well_keyed topo" using well_keyed_get [OF topo(1) assms(2)] by simp
  then show ?thesis using read_nodes_ok [OF topo(2)] read_nodes_disjoint [OF topo(2)] read_links_ok [OF topo(3)] by simp
qed

lemma topology_of_document_parts:
  assumes "topology_of_document st json read states hosts_file given raw_text raw = Inr t"
  shows "\<exists>g. read_graph (parse_node_ids_sidecar json raw_text) raw = Inr g
     \<and> auto_assign_mgmt_ipv4 (fst (fst g)) (mg_ipv4_subnet (tp_mgmt t)) = Inr (tp_nodes t)
     \<and> tp_real_nets t = snd (fst g) \<and> (tp_links t, tp_real_net_links t) = snd g"
  by (insert assms, unfold topology_of_document_def, elim bindE_InrE, intro exI conjI, assumption) auto

lemma parse_topology_well_formed:
  assumes "parse_topology st json read states hosts_file given (Some (raw_text, Document raw)) = Inr t"
    and "well_keyed raw"
  shows "topology_typed t"
proof -
  have "topology_of_document st json read states hosts_file given raw_text raw = Inr t"
    using assms(1) by (simp add: parse_topology_def split: if_splits)
  then obtain g where g: "read_graph (parse_node_ids_sidecar json raw_text) raw = Inr g"
    and nodes: "auto_assign_mgmt_ipv4 (fst (fst g)) (mg_ipv4_subnet (tp_mgmt t)) = Inr (tp_nodes t)"
    and rest: "tp_real_nets t = snd (fst g)" "(tp_links t, tp_real_net_links t) = snd g"
    using topology_of_document_parts by blast
  note graph = read_graph_ok [OF g assms(2)]
  have ok: "dict_ok (fst (fst g))" "\<And>n nd. dict_get (fst (fst g)) n = Some nd \<Longrightarrow> node_ok n nd"
    using graph by (simp_all add: parts_ok_def)
  have keys: "dict_keys (tp_nodes t) = dict_keys (fst (fst g))" using auto_assign_nodes [OF nodes ok] by blast
  then have "fst ` set (tp_nodes t) = fst ` set (fst (fst g))" by (metis set_map)
  then show ?thesis
    using graph rest keys ok(1) auto_assign_nodes [OF nodes ok] auto_assign_unique [OF nodes ok]
    by (simp add: topology_typed_def parts_ok_def)
qed

section \<open>Properties\<close>

text \<open>
  C12: a topology that is accepted is well formed. Nodes and real networks are named like their keys
  and no name is both; every link joins two nodes and every attachment a node and a real network of
  the topology; the identifiers of persistent storage consist of safe characters; an address that was
  assigned automatically is a host of the management subnet which no other node has.
\<close>

theorem parse_topology_typed:
  assumes "parse_topology st json read states hosts_file given (Some (raw_text, Document raw)) = Inr t"
    and "well_keyed raw"
  shows "topology_typed t"
  using parse_topology_well_formed [OF assms] .

definition demo_text :: string where
  "demo_text = ''name: demo'' @ [CHR 0x0A] @ ''# dnlab-gui-node-ids: IDS'' @ [CHR 0x0A]"

definition demo_json :: json where
  "demo_json s = (if s = ''IDS'' then Some (VDict [(''r1'', VStr ''n-1''), (''r2'', VStr ''a/b'')]) else None)"

definition demo_document :: yvalue where
  "demo_document = VDict
     [(''name'', VStr ''demo''),
      (''infrastructure'', VDict [(''master'', VDict [(''host'', VStr ''10.0.0.1'')])]),
      (''mgmt'', VDict [(''ipv4-subnet'', VStr ''10.9.0.0/29'')]),
      (''topology'', VDict
         [(''nodes'', VDict
             [(''r1'', VDict [(''kind'', VStr ''linux''), (''image'', VStr ''alpine''), (''mgmt-ipv4'', VStr ''10.9.0.2'')]),
              (''r2'', VNone),
              (''wan'', VDict [(''kind'', VStr ''_real_net'')])]),
          (''links'', VList
             [VDict [(''endpoints'', VList [VStr ''r1:eth1'', VStr ''r2:eth1''])],
              VDict [(''endpoints'', VList [VStr ''wan'', VStr ''r2:eth2''])]])])]"

lemma demo_parsed:
  "(case parse_topology plain_site demo_json (\<lambda>_. NoFile) [] None None (Some (demo_text, Document demo_document)) of
      Inl _ \<Rightarrow> False
    | Inr t \<Rightarrow> map (\<lambda>(n, nd). (n, nd_kind nd, nd_persist_id nd, nd_mgmt_ipv4 nd)) (tp_nodes t) =
                [(''r1'', ''linux'', ''n-1'', ''10.9.0.2''), (''r2'', ''linux'', [], ''10.9.0.3'')]
        \<and> map link_str (tp_links t) = [''r1:eth1 <-> r2:eth1'']
        \<and> map rl_node (tp_real_net_links t) = [''r2''])"
  by code_simp

lemma demo_well_keyed: "well_keyed demo_document"
  by code_simp

theorem parse_topology_typed_witness:
  "\<exists>t. parse_topology plain_site demo_json (\<lambda>_. NoFile) [] None None (Some (demo_text, Document demo_document)) = Inr t
     \<and> topology_typed t"
proof -
  obtain t where "parse_topology plain_site demo_json (\<lambda>_. NoFile) [] None None (Some (demo_text, Document demo_document)) = Inr t"
    using demo_parsed by (auto split: sum.splits)
  with parse_topology_typed [OF this demo_well_keyed] show ?thesis by blast
qed

text \<open>Two dots are safe characters, but not a safe directory name.\<close>

lemma persist_id_of_dots: "clean_persist_id (VStr ''..'') = ''..''"
  by code_simp

text \<open>A subnet of one IPv6 address ends in the exception of the address arithmetic.\<close>

lemma single_ipv6_address_uncaught:
  "mgmt_config_of ''demo'' (VDict [(''ipv6-subnet'', VStr ''3fff::1/128''), (''ipv4-subnet'', VStr ''10.9.0.0/29'')]) [] []
     = Inl (AddressError TooSmall)"
  by code_simp

end
