(* ===== verification/Remote.thy ===== *)
theory Remote
  imports State
begin

text \<open>
  Remote commands, \<open>services/ssh.py\<close>. Code that talks to hosts is an \<^emph>\<open>action\<close>: it maps the
  trace of the commands issued so far to a result, which may be an exception, and the longer
  trace. What a command returns is a parameter, the environment: a function of the trace and the
  command that gives either a transport failure or return code, standard output and standard
  error. A client is named by its host; the address that \<open>SSHError\<close> prints is taken to be that name. The theory has the two ways to run a command, sequencing, loops and handlers, and the
  rules by which properties of traces are derived.
\<close>

section \<open>Actions\<close>

datatype event = Run string string bool | RunNoCheck string string | Sleep

datatype exn =
    SSHError string string string int
  | Transport string
  | KeyErr string
  | Raised string
  | OutOfFuel

type_synonym trace = "event list"
type_synonym env = "trace \<Rightarrow> event \<Rightarrow> string + int \<times> string \<times> string"
type_synonym 'a action = "trace \<Rightarrow> (exn + 'a) \<times> trace"

text \<open>\<open>str(exc)\<close>; a \<open>KeyError\<close> prints the key as a string literal.\<close>

fun exn_str :: "exn \<Rightarrow> string" where
  "exn_str (SSHError host cmd err rc) =
     ''['' @ host @ ''] Command failed (rc='' @ show_int rc @ ''): '' @ cmd @ [CHR 0x0A] @ ''  stderr: '' @ err"
| "exn_str (Transport m) = m"
| "exn_str (KeyErr k) = [CHR 0x27] @ k @ [CHR 0x27]"
| "exn_str (Raised m) = m"
| "exn_str OutOfFuel = []"

definition retA :: "'a \<Rightarrow> 'a action" where
  "retA a tr = (Inr a, tr)"

definition raiseA :: "exn \<Rightarrow> 'a action" where
  "raiseA e tr = (Inl e, tr)"

definition bindA :: "'a action \<Rightarrow> ('a \<Rightarrow> 'b action) \<Rightarrow> 'b action" where
  "bindA m f tr = (case m tr of (Inl e, tr') \<Rightarrow> (Inl e, tr') | (Inr a, tr') \<Rightarrow> f a tr')"

lemma bindA_ret: "bindA (retA a) f = f a"
  by (simp add: fun_eq_iff bindA_def retA_def)

definition seqA :: "'a action \<Rightarrow> 'b action \<Rightarrow> 'b action" where
  "seqA m k = bindA m (\<lambda>_. k)"

text \<open>\<open>try: m except Exception as e: h(e)\<close>.\<close>

definition catchA :: "'a action \<Rightarrow> (exn \<Rightarrow> 'a action) \<Rightarrow> 'a action" where
  "catchA m h tr = (case m tr of (Inl e, tr') \<Rightarrow> h e tr' | (Inr a, tr') \<Rightarrow> (Inr a, tr'))"

fun forA :: "'a list \<Rightarrow> ('a \<Rightarrow> unit action) \<Rightarrow> unit action" where
  "forA [] f = retA ()"
| "forA (x # xs) f = seqA (f x) (forA xs f)"

fun mapA :: "('a \<Rightarrow> 'b action) \<Rightarrow> 'a list \<Rightarrow> 'b list action" where
  "mapA f [] = retA []"
| "mapA f (x # xs) = bindA (f x) (\<lambda>y. bindA (mapA f xs) (\<lambda>ys. retA (y # ys)))"

section \<open>Running commands (services/ssh.py)\<close>

definition run :: "env \<Rightarrow> string \<Rightarrow> string \<Rightarrow> bool \<Rightarrow> string action" where
  "run env host cmd check tr =
     (let ev = Run host cmd check; tr' = tr @ [ev]
      in case env tr ev of
           Inl msg \<Rightarrow> (Inl (Transport msg), tr')
         | Inr (rc, out, err) \<Rightarrow>
             if rc \<noteq> 0 \<and> check then (Inl (SSHError host cmd (str_strip err) rc), tr')
             else (Inr (str_strip out), tr'))"

definition run_no_check :: "env \<Rightarrow> string \<Rightarrow> string \<Rightarrow> (int \<times> string \<times> string) action" where
  "run_no_check env host cmd tr =
     (let ev = RunNoCheck host cmd; tr' = tr @ [ev]
      in case env tr ev of
           Inl msg \<Rightarrow> (Inl (Transport msg), tr')
         | Inr (rc, out, err) \<Rightarrow> (Inr (rc, str_strip out, str_strip err), tr'))"

definition sleepA :: "unit action" where
  "sleepA tr = (Inr (), tr @ [Sleep])"

definition sq :: "string \<Rightarrow> string" where
  "sq s = [CHR 0x27] @ s @ [CHR 0x27]"

text \<open>\<open>shlex.quote\<close>.\<close>

definition shell_safe :: "char \<Rightarrow> bool" where
  "shell_safe c \<longleftrightarrow> is_alnum c \<or> c \<in> set ''@%+=:,./-_''"

definition shlex_quote :: "string \<Rightarrow> string" where
  "shlex_quote s =
     (if s = [] then [CHR 0x27, CHR 0x27]
      else if list_all shell_safe s then s
      else sq (concat (map (\<lambda>c. if c = CHR 0x27 then [CHR 0x27, CHR 0x22, CHR 0x27, CHR 0x22, CHR 0x27] else [c]) s)))"

text \<open>\<open>clients[host]\<close>: the hosts a client exists for are a list of names.\<close>

definition client_of :: "string list \<Rightarrow> string \<Rightarrow> string action" where
  "client_of clients host = (if host \<in> set clients then retA host else raiseA (KeyErr host))"

text \<open>Hosts without transport failures: every command returns.\<close>

definition connected :: "env \<Rightarrow> bool" where
  "connected env \<longleftrightarrow> (\<forall>tr ev. \<exists>r. env tr ev = Inr r)"

section \<open>What an action emits\<close>

named_theorems emits_rules \<open>how events of an action arise from its parts\<close>

definition emits :: "(event \<Rightarrow> bool) \<Rightarrow> 'a action \<Rightarrow> bool" where
  "emits P m \<longleftrightarrow> (\<forall>tr. \<exists>es. snd (m tr) = tr @ es \<and> list_all P es)"

lemma emitsD: "emits P m \<Longrightarrow> \<exists>es. snd (m tr) = tr @ es \<and> list_all P es"
  by (simp add: emits_def)

lemma emits_ret [emits_rules]: "emits P (retA a)"
  by (simp add: emits_def retA_def)

lemma emits_raise [emits_rules]: "emits P (raiseA e)"
  by (simp add: emits_def raiseA_def)

lemma emits_run [emits_rules]: "P (Run host cmd check) \<Longrightarrow> emits P (run env host cmd check)"
  by (auto simp: emits_def run_def Let_def split: sum.splits prod.splits)

lemma emits_run_no_check [emits_rules]: "P (RunNoCheck host cmd) \<Longrightarrow> emits P (run_no_check env host cmd)"
  by (auto simp: emits_def run_no_check_def Let_def split: sum.splits prod.splits)

lemma emits_sleep [emits_rules]: "P Sleep \<Longrightarrow> emits P sleepA"
  by (simp add: emits_def sleepA_def)

lemma emits_client [emits_rules]: "emits P (client_of clients host)"
  by (simp add: client_of_def emits_ret emits_raise)

lemma emits_two:
  assumes "\<exists>es. t1 = tr @ es \<and> list_all P es" "\<exists>es. t2 = t1 @ es \<and> list_all P es"
  shows "\<exists>es. t2 = tr @ es \<and> list_all P es"
  using assms by fastforce

lemma emits_bind [emits_rules]:
  assumes "emits P m" "\<And>a. emits P (f a)"
  shows "emits P (bindA m f)"
  unfolding emits_def
proof
  fix tr
  show "\<exists>es. snd (bindA m f tr) = tr @ es \<and> list_all P es"
  proof (cases "m tr")
    case (Pair r tr')
    then have 1: "\<exists>es. tr' = tr @ es \<and> list_all P es" using emitsD [OF assms(1), of tr] by simp
    show ?thesis
    proof (cases r)
      case (Inl e)
      then show ?thesis using 1 Pair by (simp add: bindA_def)
    next
      case (Inr a)
      then show ?thesis
        using emits_two [OF 1 emitsD [OF assms(2), of a tr']] Pair by (simp add: bindA_def)
    qed
  qed
qed

lemma emits_seq [emits_rules]: "emits P m \<Longrightarrow> emits P k \<Longrightarrow> emits P (seqA m k)"
  unfolding seqA_def by (rule emits_bind)

lemma emits_catch [emits_rules]:
  assumes "emits P m" "\<And>e. emits P (h e)"
  shows "emits P (catchA m h)"
  unfolding emits_def
proof
  fix tr
  show "\<exists>es. snd (catchA m h tr) = tr @ es \<and> list_all P es"
  proof (cases "m tr")
    case (Pair r tr')
    then have 1: "\<exists>es. tr' = tr @ es \<and> list_all P es" using emitsD [OF assms(1), of tr] by simp
    show ?thesis
    proof (cases r)
      case (Inl e)
      then show ?thesis
        using emits_two [OF 1 emitsD [OF assms(2), of e tr']] Pair by (simp add: catchA_def)
    next
      case (Inr a)
      then show ?thesis using 1 Pair by (simp add: catchA_def)
    qed
  qed
qed

lemma emits_for [emits_rules]: "(\<And>x. x \<in> set xs \<Longrightarrow> emits P (f x)) \<Longrightarrow> emits P (forA xs f)"
  by (induction xs) (auto intro: emits_ret emits_seq)

lemma emits_map [emits_rules]: "(\<And>x. x \<in> set xs \<Longrightarrow> emits P (f x)) \<Longrightarrow> emits P (mapA f xs)"
  by (induction xs) (auto intro: emits_ret emits_bind)

lemma emits_if [emits_rules]: "(b \<Longrightarrow> emits P m) \<Longrightarrow> (\<not> b \<Longrightarrow> emits P k) \<Longrightarrow> emits P (if b then m else k)"
  by simp

lemma emits_mono: "emits P m \<Longrightarrow> (\<And>e. P e \<Longrightarrow> Q e) \<Longrightarrow> emits Q m"
  unfolding emits_def by (metis list.pred_mono_strong)

section \<open>Rules that depend on the history\<close>

text \<open>Every event an action issues satisfies a rule that may look at all events before it.\<close>

definition obeys :: "(trace \<Rightarrow> event \<Rightarrow> bool) \<Rightarrow> 'a action \<Rightarrow> trace \<Rightarrow> bool" where
  "obeys Q m tr \<longleftrightarrow> (\<exists>es. snd (m tr) = tr @ es \<and> (\<forall>pre ev post. es = pre @ ev # post \<longrightarrow> Q (tr @ pre) ev))"

lemma obeys_emits: "emits P m \<Longrightarrow> (\<And>hist ev. P ev \<Longrightarrow> Q hist ev) \<Longrightarrow> obeys Q m tr"
  unfolding emits_def obeys_def by (metis in_set_conv_decomp list_all_iff)

lemma obeys_run_no_check: "Q tr (RunNoCheck host cmd) \<Longrightarrow> obeys Q (run_no_check env host cmd) tr"
  by (auto simp: obeys_def run_no_check_def Let_def Cons_eq_append_conv split: sum.splits prod.splits)

lemma obeys_two:
  assumes "\<forall>pre ev post. es = pre @ ev # post \<longrightarrow> Q (tr @ pre) ev"
    and "\<forall>pre ev post. es' = pre @ ev # post \<longrightarrow> Q ((tr @ es) @ pre) ev"
  shows "\<forall>pre ev post. es @ es' = pre @ ev # post \<longrightarrow> Q (tr @ pre) ev"
proof (intro allI impI)
  fix pre ev post assume "es @ es' = pre @ ev # post"
  then consider us where "es = pre @ us" "us \<noteq> []" "us @ es' = ev # post" | us where "pre = es @ us" "es' = us @ ev # post"
    by (fastforce simp: append_eq_append_conv2)
  then show "Q (tr @ pre) ev"
  proof cases
    case 1
    then obtain us' where "us = ev # us'" by (cases us) auto
    then show ?thesis using assms(1) 1(1) by blast
  next
    case 2
    then show ?thesis using assms(2) by auto
  qed
qed

lemma obeys_bind:
  assumes "obeys Q m tr" and "\<And>a tr'. m tr = (Inr a, tr') \<Longrightarrow> obeys Q (f a) tr'"
  shows "obeys Q (bindA m f) tr"
proof -
  obtain es where es: "snd (m tr) = tr @ es" "\<forall>pre ev post. es = pre @ ev # post \<longrightarrow> Q (tr @ pre) ev"
    using assms(1) by (auto simp: obeys_def)
  show ?thesis
  proof (cases "fst (m tr)")
    case (Inl e)
    then have "m tr = (Inl e, tr @ es)" using es(1) by (metis prod.collapse)
    then have "snd (bindA m f tr) = tr @ es" by (simp add: bindA_def)
    then show ?thesis using es(2) by (auto simp: obeys_def)
  next
    case (Inr a)
    then have m: "m tr = (Inr a, tr @ es)" using es(1) by (metis prod.collapse)
    then obtain es' where e: "snd (f a (tr @ es)) = (tr @ es) @ es'"
      "\<forall>pre ev post. es' = pre @ ev # post \<longrightarrow> Q ((tr @ es) @ pre) ev"
      using assms(2) [OF m] unfolding obeys_def by blast
    have "snd (bindA m f tr) = tr @ (es @ es')" using e(1) m by (simp add: bindA_def)
    then show ?thesis unfolding obeys_def using obeys_two [OF es(2) e(2)] by blast
  qed
qed

lemma obeys_seq:
  "obeys Q m tr \<Longrightarrow> (\<And>a tr'. m tr = (Inr a, tr') \<Longrightarrow> obeys Q k tr') \<Longrightarrow> obeys Q (seqA m k) tr"
  unfolding seqA_def by (rule obeys_bind)

lemma obeys_for:
  assumes "I tr" and "\<And>x tr. x \<in> set xs \<Longrightarrow> I tr \<Longrightarrow> obeys Q (f x) tr"
    and "\<And>x tr a tr'. x \<in> set xs \<Longrightarrow> I tr \<Longrightarrow> f x tr = (Inr a, tr') \<Longrightarrow> I tr'"
  shows "obeys Q (forA xs f) tr"
  using assms
proof (induction xs arbitrary: tr)
  case Nil
  then show ?case by (simp add: obeys_def retA_def)
next
  case (Cons x xs)
  show ?case
    unfolding forA.simps
  proof (rule obeys_seq)
    show "obeys Q (f x) tr" using Cons.prems by simp
    show "obeys Q (forA xs f) tr'" if "f x tr = (Inr a, tr')" for a tr'
    proof (rule Cons.IH)
      show "I tr'" using Cons.prems(3) [OF _ Cons.prems(1) that] by simp
      show "obeys Q (f y) t" if "y \<in> set xs" "I t" for y t using Cons.prems(2) that by simp
      show "I t'" if "y \<in> set xs" "I t" "f y t = (Inr b, t')" for y t b t'
        using Cons.prems(3) [of y t b t'] that by simp
    qed
  qed
qed

lemma obeys_extends: "obeys Q m tr \<Longrightarrow> m tr = (r, tr') \<Longrightarrow> \<exists>es. tr' = tr @ es"
  by (auto simp: obeys_def)

lemma bindA_Inr:
  assumes "bindA m f tr = (Inr b, tr')"
  obtains a t where "m tr = (Inr a, t)" "f a t = (Inr b, tr')"
  using assms by (auto simp: bindA_def split: prod.splits sum.splits)

lemma seqA_Inr:
  assumes "seqA m k tr = (Inr b, tr')"
  obtains a t where "m tr = (Inr a, t)" "k t = (Inr b, tr')"
  using assms unfolding seqA_def by (rule bindA_Inr)

lemma mapA_results:
  "mapA f xs tr = (Inr ys, tr') \<Longrightarrow> list_all2 (\<lambda>x y. \<exists>t t'. f x t = (Inr y, t')) xs ys"
proof (induction xs arbitrary: tr ys)
  case Nil
  then show ?case by (simp add: retA_def)
next
  case (Cons x xs)
  obtain y t where y: "f x tr = (Inr y, t)" "bindA (mapA f xs) (\<lambda>ys. retA (y # ys)) t = (Inr ys, tr')"
    using Cons.prems by (auto elim: bindA_Inr)
  obtain zs t' where zs: "mapA f xs t = (Inr zs, t')" "retA (y # zs) t' = (Inr ys, tr')"
    using y(2) by (rule bindA_Inr)
  then have "t' = tr'" "ys = y # zs" by (simp_all add: retA_def)
  then show ?case using Cons.IH [of t zs] zs(1) y(1) by auto
qed

section \<open>Straight-line code\<close>

text \<open>An action that, whatever happens, returns normally after exactly these events.\<close>

definition performs :: "'a action \<Rightarrow> 'a \<Rightarrow> event list \<Rightarrow> bool" where
  "performs m a es \<longleftrightarrow> (\<forall>tr. m tr = (Inr a, tr @ es))"

named_theorems performs_rules \<open>straight-line actions\<close>

lemma performs_ret [performs_rules]: "performs (retA a) a []"
  by (simp add: performs_def retA_def)

lemma performs_bind: "performs m a es \<Longrightarrow> performs (f a) b fs \<Longrightarrow> performs (bindA m f) b (es @ fs)"
  by (simp add: performs_def bindA_def)

lemma unchecked_run:
  assumes "connected env"
  shows "\<exists>out. run env host cmd False tr = (Inr out, tr @ [Run host cmd False])"
proof -
  obtain r where "env tr (Run host cmd False) = Inr r" using assms unfolding connected_def by blast
  then show ?thesis by (cases r) (simp add: run_def)
qed

lemma performs_unchecked [performs_rules]:
  "connected env \<Longrightarrow> performs k a es \<Longrightarrow> performs (seqA (run env host cmd False) k) a (Run host cmd False # es)"
proof -
  assume h: "connected env" "performs k a es"
  show ?thesis unfolding performs_def
  proof
    fix tr
    obtain out where "run env host cmd False tr = (Inr out, tr @ [Run host cmd False])"
      using unchecked_run [OF h(1)] by blast
    then show "seqA (run env host cmd False) k tr = (Inr a, tr @ Run host cmd False # es)"
      using h(2) by (simp add: seqA_def bindA_def performs_def)
  qed
qed

lemma performs_seq: "performs m a es \<Longrightarrow> performs k b fs \<Longrightarrow> performs (seqA m k) b (es @ fs)"
  unfolding seqA_def by (rule performs_bind)

lemma performs_for [performs_rules]:
  "(\<And>x. x \<in> set xs \<Longrightarrow> performs (f x) () (g x)) \<Longrightarrow> performs (forA xs f) () (concat (map g xs))"
  by (induction xs) (simp_all add: performs_ret performs_seq)

text \<open>Discarding the output of a command.\<close>

definition exec_cmd :: "env \<Rightarrow> string \<Rightarrow> string \<Rightarrow> bool \<Rightarrow> unit action" where
  "exec_cmd env host cmd check = seqA (run env host cmd check) (retA ())"

lemma emits_exec [emits_rules]: "P (Run host cmd check) \<Longrightarrow> emits P (exec_cmd env host cmd check)"
  unfolding exec_cmd_def by (intro emits_rules)

lemma performs_exec [performs_rules]: "connected env \<Longrightarrow> performs (exec_cmd env host cmd False) () [Run host cmd False]"
  unfolding exec_cmd_def by (rule performs_unchecked [OF _ performs_ret])

lemma exec_cases:
  "exec_cmd env host cmd check tr = (Inr (), tr @ [Run host cmd check])
   \<or> (\<exists>e. exec_cmd env host cmd check tr = (Inl e, tr @ [Run host cmd check]))"
  by (auto simp: exec_cmd_def seqA_def bindA_def run_def retA_def Let_def split: sum.splits prod.splits)

end
