(* ===== verification/Persistence.thy ===== *)
theory Persistence
  imports TopologyConfig Remote
begin

text \<open>
  Persistent overlays of devices, \<open>services/persistence.py\<close>: the placement history that the scheduler
  prefers, and what is done before a deployment so that the overlay of a device is on the host the
  device will run on (local-sticky), or that the shared file system is there (CephFS). The two ends
  of a copy are processes that run a command on a host each; they are commands here.
  Progress events and log messages are left out, and the texts of errors abbreviated.
\<close>

section \<open>Paths (services/paths.py, pathlib)\<close>

definition persist_dir_for_node :: "string \<Rightarrow> string \<Rightarrow> string \<Rightarrow> string \<Rightarrow> string \<Rightarrow> string" where
  "persist_dir_for_node persist_root lab vd persist_id dir =
     str_rstrip (CHR ''/'') (if dir \<noteq> [] then dir else persist_root) @ ''/'' @ lab @ ''/''
       @ (if persist_id \<noteq> [] then persist_id else vd)"

text \<open>\<open>Path(s)\<close> drops empty and dot components.\<close>

definition path_anchor :: "string \<Rightarrow> string" where
  "path_anchor s = (if startswith s ''//'' \<and> \<not> startswith s ''///'' then ''//''
                    else if startswith s ''/'' then ''/'' else [])"

definition path_parts :: "string \<Rightarrow> string list" where
  "path_parts s = filter (\<lambda>c. c \<noteq> [] \<and> c \<noteq> ''.'') (str_split (CHR ''/'') s)"

definition show_path :: "string \<Rightarrow> string list \<Rightarrow> string" where
  "show_path anchor parts = (if anchor = [] \<and> parts = [] then ''.'' else anchor @ str_join ''/'' parts)"

definition path_str :: "string \<Rightarrow> string" where
  "path_str s = show_path (path_anchor s) (path_parts s)"

definition path_parent :: "string \<Rightarrow> string" where
  "path_parent s = show_path (path_anchor s) (butlast (path_parts s))"

definition path_name :: "string \<Rightarrow> string" where
  "path_name s = (if path_parts s = [] then [] else List.last (path_parts s))"

section \<open>Placement history\<close>

text \<open>\<open>generator._needs_persist_bind\<close>: images that dNLab patched.\<close>

definition needs_persist_bind :: "string \<Rightarrow> bool" where
  "needs_persist_bind img =
     (let i = str_strip img; tag = snd (str_rpartition (CHR '':'') i);
          repo = (if CHR '':'' \<in> set i then fst (str_rpartition (CHR '':'') i) else i)
      in i \<noteq> [] \<and> (endswith tag ''-dnlab'' \<or> startswith (snd (str_rpartition (CHR ''/'') repo)) ''dnlab_''))"

text \<open>The history file holds a document; anything else is no history.\<close>

definition load_placement_history :: "yvalue option \<Rightarrow> (string, string) dict" where
  "load_placement_history file =
     (case file of
        Some (VDict data) \<Rightarrow>
          (case dict_get_or data ''placements'' (VDict data) of
             VDict d \<Rightarrow> map (\<lambda>(k, v). (k, py_str v)) (filter (\<lambda>(k, v). k \<noteq> [] \<and> truthy v) d)
           | _ \<Rightarrow> [])
      | _ \<Rightarrow> [])"

definition persist_key :: "vdnode \<Rightarrow> string \<Rightarrow> string" where
  "persist_key node vd = (if nd_persist_id node \<noteq> [] then nd_persist_id node else vd)"

text \<open>\<open>history.get(key) or history.get(vd_name)\<close>.\<close>

definition last_host :: "(string, string) dict \<Rightarrow> vdnode \<Rightarrow> string \<Rightarrow> string" where
  "last_host history node vd =
     (let h = dict_get_or history (persist_key node vd) [] in if h \<noteq> [] then h else dict_get_or history vd [])"

definition load_placement_preferences :: "yvalue option \<Rightarrow> (string, vdnode) dict \<Rightarrow> (string, string) dict" where
  "load_placement_preferences file nodes =
     List.map_filter (\<lambda>(vd, node).
         let host = last_host (load_placement_history file) node vd in if host \<noteq> [] then Some (vd, host) else None) nodes"

definition placed_on :: "schedule_plan \<Rightarrow> string \<Rightarrow> string" where
  "placed_on plan vd = (case host_for_vd (sp_assignments plan) vd of None \<Rightarrow> [] | Some h \<Rightarrow> h)"

definition placement_step ::
  "schedule_plan \<Rightarrow> string \<times> vdnode \<Rightarrow> (string, string) dict \<times> (string, string) dict
     \<Rightarrow> (string, string) dict \<times> (string, string) dict" where
  "placement_step plan vn acc =
     (let host = placed_on plan (fst vn); key = persist_key (snd vn) (fst vn) in
      if \<not> needs_persist_bind (nd_image (snd vn)) \<or> host = [] then acc
      else (dict_set key host (fst acc), dict_set key (fst vn) (snd acc)))"

definition save_placement_history :: "string \<Rightarrow> (string, vdnode) dict \<Rightarrow> schedule_plan \<Rightarrow> yvalue" where
  "save_placement_history lab nodes plan =
     (case fold (placement_step plan) nodes ([], []) of
        (placements, names) \<Rightarrow>
          VDict [(''lab'', VStr lab), (''placements'', enc_dict VStr placements), (''nodes'', enc_dict VStr names)])"

section \<open>Commands\<close>

definition has_content_cmd :: "string \<Rightarrow> string" where
  "has_content_cmd path =
     ''test -d '' @ shlex_quote path @ '' && find '' @ shlex_quote path @ '' -mindepth 1 -print -quit''"

definition adopt_cmd :: "string \<Rightarrow> string \<Rightarrow> string" where
  "adopt_cmd legacy target =
     (let l = shlex_quote legacy; s = shlex_quote target; p = shlex_quote (path_parent target) in
      ''if test -d '' @ l @ '' && find '' @ l @ '' -mindepth 1 -print -quit | grep -q .; then ''
      @ ''if test -d '' @ s @ '' && find '' @ s @ '' -mindepth 1 -print -quit | grep -q .; then ''
      @ ''exit 20; fi; mkdir -p '' @ p @ ''; rm -rf -- '' @ s @ ''; mv -- '' @ l @ '' '' @ s @ ''; fi'')"

definition offline_cmd :: "string \<Rightarrow> string list \<Rightarrow> string" where
  "offline_cmd lab vds =
     ''for n in '' @ str_join '' '' (map (\<lambda>vd. shlex_quote (vd_container_name lab vd)) vds)
     @ ''; do docker ps --format '' @ sq ''{{.Names}}'' @ '' | grep -Fx '' @ [CHR 0x22] @ ''$n'' @ [CHR 0x22]
     @ '' && exit 10; done; exit 0''"

definition du_cmd :: "string \<Rightarrow> string" where
  "du_cmd path = ''du -sb '' @ shlex_quote path @ '' 2>/dev/null | awk '' @ sq ''{print $1}''"

definition pack_cmd :: "string \<Rightarrow> string" where
  "pack_cmd path = ''tar -C '' @ shlex_quote (path_parent path) @ '' -cpf - '' @ shlex_quote (path_name path)"

definition unpack_cmd :: "string \<Rightarrow> string" where
  "unpack_cmd path = ''tar -C '' @ shlex_quote (path_parent path) @ '' -xpf -''"

definition remove_overlay_cmd :: "string \<Rightarrow> string" where
  "remove_overlay_cmd path = ''rm -rf -- '' @ shlex_quote (path_str path)"

section \<open>Local-sticky overlays\<close>

text \<open>
  What a preparation works on: the answers of the hosts, the hosts there is a client for, the root
  of the overlays, the topology and the plan, and whether the lab has a state file.
\<close>

record job =
  jb_env :: env
  jb_clients :: "string list"
  jb_persist_root :: string
  jb_topo :: lab_topology
  jb_plan :: schedule_plan
  jb_history :: "(string, string) dict"
  jb_state_exists :: bool

definition lab_of :: "job \<Rightarrow> string" where
  "lab_of j = tp_name (jb_topo j)"

definition overlay_dir :: "job \<Rightarrow> string \<Rightarrow> string \<Rightarrow> string" where
  "overlay_dir j vd persist_id =
     persist_dir_for_node (jb_persist_root j) (lab_of j) vd persist_id (pc_root (lt_persistence (jb_topo j)))"

definition persistent_vds :: "job \<Rightarrow> (string \<times> vdnode) list" where
  "persistent_vds j = filter (\<lambda>(vd, node). needs_persist_bind (nd_image node)) (tp_nodes (jb_topo j))"

definition overlay_path :: "job \<Rightarrow> string \<times> vdnode \<Rightarrow> string" where
  "overlay_path j vn = overlay_dir j (fst vn) (nd_persist_id (snd vn))"

definition adopt_on :: "env \<Rightarrow> string \<Rightarrow> string \<Rightarrow> unit action" where
  "adopt_on env cmd host =
     bindA (run_no_check env host cmd) (\<lambda>(rc, _, _).
       if rc = 20 then raiseA (Raised ''overlay in legacy and stable path'')
       else if rc \<noteq> 0 then raiseA (Raised ''cannot adopt legacy overlay'') else retA ())"

definition adopt_legacy_overlay_paths :: "job \<Rightarrow> string \<times> vdnode \<Rightarrow> unit action" where
  "adopt_legacy_overlay_paths j vn =
     (let pid = nd_persist_id (snd vn); legacy = overlay_dir j (fst vn) []; target = overlay_path j vn
      in if pid = [] \<or> pid = fst vn \<or> legacy = target then retA ()
         else forA (jb_clients j) (adopt_on (jb_env j) (adopt_cmd legacy target)))"

definition overlay_has_content :: "env \<Rightarrow> string \<Rightarrow> string \<Rightarrow> bool action" where
  "overlay_has_content env path host =
     bindA (run_no_check env host (has_content_cmd path)) (\<lambda>(rc, out, _). retA (rc = 0 \<and> str_strip out \<noteq> []))"

fun find_existing_overlay_hosts :: "env \<Rightarrow> string \<Rightarrow> string list \<Rightarrow> string list action" where
  "find_existing_overlay_hosts env path [] = retA []"
| "find_existing_overlay_hosts env path (host # others) =
     bindA (overlay_has_content env path host) (\<lambda>found.
     bindA (find_existing_overlay_hosts env path others) (\<lambda>rest. retA (if found then host # rest else rest)))"

type_synonym migration = "(string \<times> vdnode) \<times> string \<times> string"

text \<open>One round of the loop over the persistent devices: the migration it asks for, if any.\<close>

definition find_migration :: "job \<Rightarrow> string \<times> vdnode \<Rightarrow> migration option action" where
  "find_migration j vn =
     (let new_host = placed_on (jb_plan j) (fst vn); old_host = last_host (jb_history j) (snd vn) (fst vn);
          path = overlay_path j vn
      in if new_host = [] then retA None
         else seqA (adopt_legacy_overlay_paths j vn)
           (if old_host \<noteq> [] \<and> old_host \<noteq> new_host then
              (if old_host \<notin> set (jb_clients j) then raiseA (Raised ''last host not in the inventory'')
               else bindA (overlay_has_content (jb_env j) path old_host) (\<lambda>has.
                      if has then retA (Some (vn, old_host, new_host))
                      else raiseA (Raised ''no overlay on the last host'')))
            else
              bindA (find_existing_overlay_hosts (jb_env j) path (jb_clients j)) (\<lambda>found.
                case found of
                  [] \<Rightarrow> retA None
                | [h] \<Rightarrow> retA (if h \<noteq> new_host then Some (vn, h, new_host) else None)
                | _ \<Rightarrow> raiseA (Raised ''overlay on several hosts''))))"

definition offline_check :: "env \<Rightarrow> string \<Rightarrow> string \<Rightarrow> unit action" where
  "offline_check env cmd host =
     bindA (run_no_check env host cmd) (\<lambda>(rc, _, _).
       if rc = 10 then raiseA (Raised ''lab still running'')
       else if rc \<noteq> 0 then raiseA (Raised ''cannot verify that the lab is offline'') else retA ())"

definition lab_offline_cmd :: "job \<Rightarrow> string" where
  "lab_offline_cmd j = offline_cmd (lab_of j) (map fst (persistent_vds j))"

definition assert_lab_offline :: "job \<Rightarrow> unit action" where
  "assert_lab_offline j =
     (if jb_state_exists j then raiseA (Raised ''lab appears deployed'')
      else if persistent_vds j = [] then retA ()
      else forA (jb_clients j) (offline_check (jb_env j) (lab_offline_cmd j)))"

definition remote_du_bytes :: "env \<Rightarrow> string \<Rightarrow> string \<Rightarrow> int action" where
  "remote_du_bytes env host path =
     bindA (run env host (du_cmd path) False) (\<lambda>out.
       retA (case py_int (if str_strip out = [] then ''0'' else str_strip out) of None \<Rightarrow> 0 | Some n \<Rightarrow> n))"

text \<open>The overlay is packed on the old host and unpacked on the new one; only then is it removed.\<close>

definition transfer_overlay :: "env \<Rightarrow> string \<Rightarrow> string \<Rightarrow> string \<Rightarrow> unit action" where
  "transfer_overlay env src dst path =
     bindA (run_no_check env src (pack_cmd path)) (\<lambda>packed.
     bindA (run_no_check env dst (unpack_cmd path)) (\<lambda>unpacked.
     if fst packed \<noteq> 0 then raiseA (Raised ''source tar failed'')
     else if fst unpacked \<noteq> 0 then raiseA (Raised ''destination tar failed'')
     else bindA (run_no_check env src (remove_overlay_cmd path)) (\<lambda>removed.
       if fst removed \<noteq> 0 then raiseA (Raised ''failed to remove the source'') else retA ())))"

definition migrate_overlay :: "job \<Rightarrow> migration \<Rightarrow> int action" where
  "migrate_overlay j m =
     (case m of (vn, src, dst) \<Rightarrow>
       let path = overlay_path j vn; env = jb_env j in
       seqA (client_of (jb_clients j) src) (seqA (client_of (jb_clients j) dst)
      (bindA (remote_du_bytes env src (path_str path)) (\<lambda>size.
       seqA (exec_cmd env dst (''mkdir -p '' @ shlex_quote (path_parent path)) True)
      (seqA (transfer_overlay env src dst path) (retA size))))))"

definition prepare_local_sticky :: "job \<Rightarrow> unit action" where
  "prepare_local_sticky j =
     bindA (mapA (find_migration j) (persistent_vds j)) (\<lambda>found.
       let migrations = List.map_filter id found in
       if migrations = [] then retA ()
       else seqA (assert_lab_offline j) (forA migrations (\<lambda>m. seqA (migrate_overlay j m) (retA ()))))"

section \<open>CephFS\<close>

text \<open>\<open>try: m finally: k\<close>.\<close>

definition finallyA :: "'a action \<Rightarrow> 'b action \<Rightarrow> 'a action" where
  "finallyA m k tr =
     (case m tr of (r, tr') \<Rightarrow> (case k tr' of (Inl e, tr'') \<Rightarrow> (Inl e, tr'') | (Inr _, tr'') \<Rightarrow> (r, tr'')))"

definition check_mount :: "env \<Rightarrow> string \<Rightarrow> string list \<Rightarrow> string \<Rightarrow> unit action" where
  "check_mount env mount expected host =
     seqA (exec_cmd env host (''test -d '' @ shlex_quote mount) True)
       (if expected = [] then retA ()
        else bindA (run env host (''stat -f -c %T '' @ shlex_quote mount) True) (\<lambda>out.
               if str_strip out \<notin> set expected then raiseA (Raised ''unexpected file system'') else retA ()))"

definition check_marker :: "env \<Rightarrow> string \<Rightarrow> string \<Rightarrow> string \<Rightarrow> unit action" where
  "check_marker env marker token host =
     bindA (run env host (''cat '' @ shlex_quote marker) True) (\<lambda>seen.
       if str_strip seen \<noteq> token then raiseA (Raised ''marker mismatch'') else retA ())"

text \<open>\<open>token\<close> is the fresh identifier that is written through the master and read on every host.\<close>

definition preflight_cephfs :: "job \<Rightarrow> string \<Rightarrow> unit action" where
  "preflight_cephfs j token =
     (let cfg = pc_cephfs (lt_persistence (jb_topo j)); env = jb_env j;
          mount = str_rstrip (CHR ''/'') (cf_mountpoint cfg);
          expected = filter (\<lambda>x. x \<noteq> []) (map str_strip (str_split (CHR '','') (cf_expected_fstype cfg)));
          marker = mount @ ''/'' @ cf_marker cfg
      in seqA (forA (jb_clients j) (check_mount env mount expected))
           (if \<not> cf_require_shared_marker cfg then retA ()
            else if ''master'' \<notin> set (jb_clients j) then raiseA (Raised ''marker check requires a master'')
            else seqA (exec_cmd env ''master'' (''printf %s '' @ shlex_quote token @ '' > '' @ shlex_quote marker) True)
                   (finallyA (forA (jb_clients j) (check_marker env marker token))
                      (exec_cmd env ''master'' (''rm -f '' @ shlex_quote marker) False))))"

definition prepare_persistence :: "job \<Rightarrow> string \<Rightarrow> unit action" where
  "prepare_persistence j token =
     (let cfg = lt_persistence (jb_topo j) in
      if pc_backend cfg = ''cephfs'' then
        catchA (preflight_cephfs j token)
          (\<lambda>e. if pc_allow_migration_fallback cfg then prepare_local_sticky j else raiseA e)
      else prepare_local_sticky j)"

section \<open>When an overlay may be removed\<close>

definition removal :: "event \<Rightarrow> bool" where
  "removal ev = (case ev of RunNoCheck host cmd \<Rightarrow> startswith cmd ''rm '' | _ \<Rightarrow> False)"

text \<open>In the history every client has been asked for running devices of the lab, and there were none.\<close>

definition offline_seen :: "job \<Rightarrow> trace \<Rightarrow> bool" where
  "offline_seen j hist \<longleftrightarrow> \<not> jb_state_exists j
     \<and> (\<forall>c \<in> set (jb_clients j). \<exists>p q out err. hist = p @ RunNoCheck c (lab_offline_cmd j) # q
          \<and> jb_env j p (RunNoCheck c (lab_offline_cmd j)) = Inr (0, out, err))"

text \<open>
  The event removes the overlay of a persistent device, and the last two events have packed it on
  that host and unpacked it on the host the device is scheduled on, both successfully.
\<close>

definition copied_first :: "job \<Rightarrow> trace \<Rightarrow> event \<Rightarrow> bool" where
  "copied_first j hist ev \<longleftrightarrow>
     (\<exists>vn src p pack unpack out1 err1 out2 err2.
        vn \<in> set (persistent_vds j) \<and> src \<noteq> placed_on (jb_plan j) (fst vn)
      \<and> ev = RunNoCheck src (remove_overlay_cmd (overlay_path j vn))
      \<and> pack = RunNoCheck src (pack_cmd (overlay_path j vn))
      \<and> unpack = RunNoCheck (placed_on (jb_plan j) (fst vn)) (unpack_cmd (overlay_path j vn))
      \<and> hist = p @ [pack, unpack]
      \<and> jb_env j p pack = Inr (0, out1, err1) \<and> jb_env j (p @ [pack]) unpack = Inr (0, out2, err2))"

definition guarded :: "job \<Rightarrow> trace \<Rightarrow> event \<Rightarrow> bool" where
  "guarded j hist ev \<longleftrightarrow> (removal ev \<longrightarrow> offline_seen j hist \<and> copied_first j hist ev)"

lemma not_removal [simp]:
  "\<not> removal (Run h c b)" "\<not> removal Sleep"
  "\<not> removal (RunNoCheck h (has_content_cmd path))" "\<not> removal (RunNoCheck h (adopt_cmd l t))"
  "\<not> removal (RunNoCheck h (offline_cmd lab vds))" "\<not> removal (RunNoCheck h (pack_cmd path))"
  "\<not> removal (RunNoCheck h (unpack_cmd path))"
  by (simp_all add: removal_def startswith_def has_content_cmd_def adopt_cmd_def offline_cmd_def pack_cmd_def
      unpack_cmd_def Let_def)

lemma obeys_harmless: "emits (\<lambda>ev. \<not> removal ev) m \<Longrightarrow> obeys (guarded j) m tr"
  by (erule obeys_emits) (simp add: guarded_def)

lemma emits_content: "emits (\<lambda>ev. \<not> removal ev) (overlay_has_content env path host)"
  unfolding overlay_has_content_def by (auto intro!: emits_rules split: prod.split)

lemma emits_find_existing: "emits (\<lambda>ev. \<not> removal ev) (find_existing_overlay_hosts env path clients)"
  by (induction clients) (auto intro!: emits_rules emits_content)

lemma emits_adopt: "emits (\<lambda>ev. \<not> removal ev) (adopt_legacy_overlay_paths j vn)"
  by (auto simp: adopt_legacy_overlay_paths_def adopt_on_def Let_def intro!: emits_rules split: prod.split)

lemma emits_find_migration: "emits (\<lambda>ev. \<not> removal ev) (find_migration j vn)"
  by (auto simp: find_migration_def Let_def
      intro!: emits_rules emits_adopt emits_content emits_find_existing split: list.split)

lemma emits_offline: "emits (\<lambda>ev. \<not> removal ev) (assert_lab_offline j)"
  by (auto simp: assert_lab_offline_def offline_check_def lab_offline_cmd_def intro!: emits_rules split: prod.split)

lemma run_no_check_Inr:
  "run_no_check env host cmd tr = (Inr (rc, out, err), tr') \<Longrightarrow>
     tr' = tr @ [RunNoCheck host cmd] \<and> (\<exists>o1 e1. env tr (RunNoCheck host cmd) = Inr (rc, o1, e1))"
  by (auto simp: run_no_check_def Let_def split: sum.splits)

lemma offline_check_Inr:
  assumes "offline_check env cmd host tr = (Inr u, tr')"
  shows "tr' = tr @ [RunNoCheck host cmd] \<and> (\<exists>out err. env tr (RunNoCheck host cmd) = Inr (0, out, err))"
proof -
  obtain rc out err t where r: "run_no_check env host cmd tr = (Inr (rc, out, err), t)"
    "(if rc = 10 then raiseA (Raised ''lab still running'')
      else if rc \<noteq> 0 then raiseA (Raised ''cannot verify that the lab is offline'') else retA ()) t = (Inr u, tr')"
    using assms unfolding offline_check_def by (auto elim!: bindA_Inr)
  then have "rc = 0" "t = tr'" by (auto simp: raiseA_def retA_def split: if_splits)
  then show ?thesis using run_no_check_Inr [OF r(1)] by auto
qed

lemma offline_checks_Inr:
  "forA clients (offline_check env cmd) tr = (Inr u, tr') \<Longrightarrow>
   \<exists>es. tr' = tr @ es \<and> (\<forall>c \<in> set clients. \<exists>p q out err. es = p @ RunNoCheck c cmd # q
     \<and> env (tr @ p) (RunNoCheck c cmd) = Inr (0, out, err))"
proof (induction clients arbitrary: tr)
  case Nil
  then show ?case by (simp add: retA_def)
next
  case (Cons h clients)
  obtain a t where t: "offline_check env cmd h tr = (Inr a, t)" "forA clients (offline_check env cmd) t = (Inr u, tr')"
    using Cons.prems by (auto elim!: seqA_Inr)
  have h: "t = tr @ [RunNoCheck h cmd]" "\<exists>out err. env tr (RunNoCheck h cmd) = Inr (0, out, err)"
    using offline_check_Inr [OF t(1)] by auto
  obtain es where es: "tr' = t @ es" "\<forall>c \<in> set clients. \<exists>p q out err. es = p @ RunNoCheck c cmd # q
     \<and> env (t @ p) (RunNoCheck c cmd) = Inr (0, out, err)"
    using Cons.IH [OF t(2)] by blast
  have "\<exists>p q out err. RunNoCheck h cmd # es = p @ RunNoCheck c cmd # q
     \<and> env (tr @ p) (RunNoCheck c cmd) = Inr (0, out, err)" if "c \<in> set (h # clients)" for c
  proof (cases "c = h")
    case True
    then show ?thesis using h(2) by - (rule exI [of _ "[]"], auto)
  next
    case False
    then have "c \<in> set clients" using that by simp
    then obtain p q out err where "es = p @ RunNoCheck c cmd # q" "env (t @ p) (RunNoCheck c cmd) = Inr (0, out, err)"
      using es(2) by blast
    then show ?thesis using h(1) by - (rule exI [of _ "RunNoCheck h cmd # p"], auto)
  qed
  then show ?case using es(1) h(1) by auto
qed

lemma assert_lab_offline_seen:
  assumes "assert_lab_offline j tr = (Inr u, tr')" "persistent_vds j \<noteq> []"
  shows "offline_seen j tr'"
proof -
  have ns: "\<not> jb_state_exists j" and f: "forA (jb_clients j) (offline_check (jb_env j) (lab_offline_cmd j)) tr = (Inr u, tr')"
    using assms by (auto simp: assert_lab_offline_def raiseA_def split: if_splits)
  obtain es where es: "tr' = tr @ es" "\<forall>c \<in> set (jb_clients j). \<exists>p q out err.
       es = p @ RunNoCheck c (lab_offline_cmd j) # q
     \<and> jb_env j (tr @ p) (RunNoCheck c (lab_offline_cmd j)) = Inr (0, out, err)"
    using offline_checks_Inr [OF f] by blast
  show ?thesis
    unfolding offline_seen_def
  proof (intro conjI ballI)
    show "\<not> jb_state_exists j" by (rule ns)
    fix c assume "c \<in> set (jb_clients j)"
    then obtain p q out err where "es = p @ RunNoCheck c (lab_offline_cmd j) # q"
      "jb_env j (tr @ p) (RunNoCheck c (lab_offline_cmd j)) = Inr (0, out, err)"
      using es(2) by blast
    then show "\<exists>p q out err. tr' = p @ RunNoCheck c (lab_offline_cmd j) # q
       \<and> jb_env j p (RunNoCheck c (lab_offline_cmd j)) = Inr (0, out, err)"
      using es(1) by - (rule exI [of _ "tr @ p"], auto)
  qed
qed

lemma offline_seen_later: "offline_seen j tr \<Longrightarrow> offline_seen j (tr @ es)"
  unfolding offline_seen_def by fastforce

definition good_migration :: "job \<Rightarrow> migration \<Rightarrow> bool" where
  "good_migration j m \<longleftrightarrow> (case m of (vn, src, dst) \<Rightarrow>
     vn \<in> set (persistent_vds j) \<and> dst = placed_on (jb_plan j) (fst vn) \<and> src \<noteq> dst)"

lemma find_migration_result:
  assumes "find_migration j vn tr = (Inr (Some m), tr')" "vn \<in> set (persistent_vds j)"
  shows "good_migration j m"
proof -
  let ?new = "placed_on (jb_plan j) (fst vn)"
  have "\<exists>src. m = (vn, src, ?new) \<and> src \<noteq> ?new"
    using assms(1)
    by (auto simp: find_migration_def Let_def retA_def raiseA_def elim!: bindA_Inr seqA_Inr
        split: if_splits list.splits)
  then show ?thesis using assms(2) by (auto simp: good_migration_def)
qed

text \<open>A transfer removes the source only after both ends of the copy have succeeded.\<close>

lemma transfer_guarded:
  assumes "offline_seen j tr" "vn \<in> set (persistent_vds j)" "src \<noteq> placed_on (jb_plan j) (fst vn)"
  shows "obeys (guarded j) (transfer_overlay (jb_env j) src (placed_on (jb_plan j) (fst vn)) (overlay_path j vn)) tr"
  unfolding transfer_overlay_def
proof (intro obeys_bind)
  let ?dst = "placed_on (jb_plan j) (fst vn)" and ?path = "overlay_path j vn" and ?env = "jb_env j"
  show "obeys (guarded j) (run_no_check ?env src (pack_cmd ?path)) tr"
    by (rule obeys_run_no_check) (simp add: guarded_def)
  fix packed t1 assume r1: "run_no_check ?env src (pack_cmd ?path) tr = (Inr packed, t1)"
  show "obeys (guarded j) (run_no_check ?env ?dst (unpack_cmd ?path)) t1"
    by (rule obeys_run_no_check) (simp add: guarded_def)
  fix unpacked t2 assume r2: "run_no_check ?env ?dst (unpack_cmd ?path) t1 = (Inr unpacked, t2)"
  let ?rm = "bindA (run_no_check ?env src (remove_overlay_cmd ?path)) (\<lambda>removed.
    if fst removed \<noteq> 0 then raiseA (Raised ''failed to remove the source'') else retA ())"
  obtain o1 e1 where t1: "t1 = tr @ [RunNoCheck src (pack_cmd ?path)]"
    "?env tr (RunNoCheck src (pack_cmd ?path)) = Inr (fst packed, o1, e1)"
    using run_no_check_Inr [of ?env src _ tr "fst packed"] r1 by (metis prod.collapse)
  obtain o2 e2 where t2: "t2 = t1 @ [RunNoCheck ?dst (unpack_cmd ?path)]"
    "?env t1 (RunNoCheck ?dst (unpack_cmd ?path)) = Inr (fst unpacked, o2, e2)"
    using run_no_check_Inr [of ?env ?dst _ t1 "fst unpacked"] r2 by (metis prod.collapse)
  have stop: "obeys (guarded j) (raiseA e :: unit action) t2" for e by (simp add: obeys_def raiseA_def)
  have go: "obeys (guarded j) ?rm t2" if ok: "fst packed = 0" "fst unpacked = 0"
  proof (intro obeys_bind obeys_run_no_check)
    have "t2 = tr @ [RunNoCheck src (pack_cmd ?path), RunNoCheck ?dst (unpack_cmd ?path)]" using t1 t2 by simp
    moreover from this have "offline_seen j t2" using offline_seen_later [OF assms(1)] by simp
    ultimately show "guarded j t2 (RunNoCheck src (remove_overlay_cmd ?path))"
      using t1 t2 ok assms(2,3) unfolding guarded_def copied_first_def by metis
    show "obeys (guarded j) (if fst removed \<noteq> 0 then raiseA (Raised ''failed to remove the source'') else retA ()) t3"
      for removed :: "int \<times> string \<times> string" and t3
      by (simp add: obeys_def raiseA_def retA_def)
  qed
  show "obeys (guarded j)
     (if fst packed \<noteq> 0 then raiseA (Raised ''source tar failed'')
      else if fst unpacked \<noteq> 0 then raiseA (Raised ''destination tar failed'') else ?rm) t2"
    using stop go by simp
qed

lemma offline_seen_after:
  "offline_seen j t \<Longrightarrow> obeys (guarded j) m t \<Longrightarrow> m t = (r, t') \<Longrightarrow> offline_seen j t'"
  using offline_seen_later obeys_extends by blast

lemma guarded_bind:
  "offline_seen j t \<Longrightarrow> obeys (guarded j) m t \<Longrightarrow> (\<And>a t'. offline_seen j t' \<Longrightarrow> obeys (guarded j) (f a) t') \<Longrightarrow>
     obeys (guarded j) (bindA m f) t"
  by (rule obeys_bind) (auto intro: offline_seen_after)

lemma guarded_seq:
  "offline_seen j t \<Longrightarrow> obeys (guarded j) m t \<Longrightarrow> (\<And>t'. offline_seen j t' \<Longrightarrow> obeys (guarded j) k t') \<Longrightarrow>
     obeys (guarded j) (seqA m k) t"
  unfolding seqA_def by (rule guarded_bind)

lemma migrate_guarded:
  assumes "offline_seen j tr" "good_migration j m"
  shows "obeys (guarded j) (migrate_overlay j m) tr"
proof -
  obtain vn src where m: "m = (vn, src, placed_on (jb_plan j) (fst vn))" "vn \<in> set (persistent_vds j)"
    "src \<noteq> placed_on (jb_plan j) (fst vn)"
    using assms(2) by (cases m) (auto simp: good_migration_def)
  have harmless: "obeys (guarded j) (client_of (jb_clients j) h) t"
    "obeys (guarded j) (remote_du_bytes (jb_env j) h p) t" "obeys (guarded j) (exec_cmd (jb_env j) h c True) t"
    "obeys (guarded j) (retA x :: int action) t" for h p c x t
    by (rule obeys_harmless, auto simp: remote_du_bytes_def intro!: emits_rules)+
  show ?thesis
    unfolding migrate_overlay_def m(1) prod.case Let_def
    by (intro guarded_seq guarded_bind harmless transfer_guarded [OF _ m(2,3)] assms(1))
qed

section \<open>Properties\<close>

text \<open>
  C11: an overlay is removed from a host only in a safe moment. Whatever the hosts answer, a removal
  that preparing the local overlays issues is preceded by a check on every host that no device of
  the lab runs, the lab has no state file, the two commands just before it packed that overlay and
  unpacked it on the host the device is scheduled on, and both succeeded.
\<close>

theorem overlay_removed_after_copy:
  assumes "snd (prepare_local_sticky j tr) = tr @ pre @ ev # post" and "removal ev"
  shows "offline_seen j (tr @ pre) \<and> copied_first j (tr @ pre) ev"
proof -
  have "obeys (guarded j) (prepare_local_sticky j) tr"
    unfolding prepare_local_sticky_def
  proof (rule obeys_bind)
    show "obeys (guarded j) (mapA (find_migration j) (persistent_vds j)) tr"
      by (rule obeys_harmless) (auto intro!: emits_rules emits_find_migration)
    fix found t assume found: "mapA (find_migration j) (persistent_vds j) tr = (Inr found, t)"
    let ?ms = "List.map_filter id found"
    have good: "good_migration j m" if "m \<in> set ?ms" for m
    proof -
      have "Some m \<in> set found" using that by (auto simp: List.map_filter_def)
      then obtain i where i: "i < length found" "found ! i = Some m" by (auto simp: in_set_conv_nth)
      then obtain t1 t2 where "find_migration j (persistent_vds j ! i) t1 = (Inr (Some m), t2)"
        "i < length (persistent_vds j)"
        using mapA_results [OF found] by (auto simp: list_all2_conv_all_nth)
      then show ?thesis using find_migration_result nth_mem by blast
    qed
    have loop: "obeys (guarded j) (forA ?ms (\<lambda>m. seqA (migrate_overlay j m) (retA ()))) t'"
      if off: "offline_seen j t'" for t'
    proof (rule obeys_for [where I = "offline_seen j", OF off])
      show "obeys (guarded j) (seqA (migrate_overlay j m) (retA ())) t"
        if "m \<in> set ?ms" "offline_seen j t" for m t
        using migrate_guarded [OF that(2) good [OF that(1)]] that(2)
        by (intro guarded_seq) (auto simp: obeys_def retA_def)
      then show "offline_seen j t'" if "m \<in> set ?ms" "offline_seen j t" "seqA (migrate_overlay j m) (retA ()) t = (Inr a, t')" for m t a t'
        using that offline_seen_after by blast
    qed
    have some: "persistent_vds j \<noteq> []" if "?ms \<noteq> []"
      using that mapA_results [OF found] by (auto simp: List.map_filter_def)
    have "obeys (guarded j) (seqA (assert_lab_offline j) (forA ?ms (\<lambda>m. seqA (migrate_overlay j m) (retA ())))) t"
      if "?ms \<noteq> []"
      using obeys_harmless [OF emits_offline] assert_lab_offline_seen [OF _ some [OF that]] loop by (intro obeys_seq) blast+
    moreover have "obeys (guarded j) (retA ()) t" by (rule obeys_harmless) (rule emits_ret)
    ultimately show "obeys (guarded j)
       (let migrations = ?ms in if migrations = [] then retA ()
        else seqA (assert_lab_offline j) (forA migrations (\<lambda>m. seqA (migrate_overlay j m) (retA ())))) t"
      by (simp add: Let_def)
  qed
  then show ?thesis using assms by (auto simp: obeys_def guarded_def)
qed

section \<open>The placement history\<close>

text \<open>The devices whose placement is recorded, and what is recorded for a key: its last device.\<close>

definition recorded :: "schedule_plan \<Rightarrow> string \<times> vdnode \<Rightarrow> bool" where
  "recorded plan vn \<longleftrightarrow> needs_persist_bind (nd_image (snd vn)) \<and> placed_on plan (fst vn) \<noteq> []"

lemma find_snoc: "find P (xs @ [x]) = (case find P xs of None \<Rightarrow> if P x then Some x else None | r \<Rightarrow> r)"
  by (induction xs) auto

lemma placement_fold:
  "dict_get (fst (fold (placement_step plan) nodes acc)) k =
     (case find (\<lambda>vn. recorded plan vn \<and> persist_key (snd vn) (fst vn) = k) (rev nodes) of
        Some vn \<Rightarrow> Some (placed_on plan (fst vn)) | None \<Rightarrow> dict_get (fst acc) k)"
proof (induction nodes arbitrary: acc)
  case (Cons vn nodes)
  have "placement_step plan vn acc =
      (if recorded plan vn then (dict_set (persist_key (snd vn) (fst vn)) (placed_on plan (fst vn)) (fst acc),
         dict_set (persist_key (snd vn) (fst vn)) (fst vn) (snd acc)) else acc)"
    by (auto simp: placement_step_def recorded_def Let_def)
  then show ?case by (simp add: Cons.IH find_snoc split: option.splits)
qed simp

lemma fold_placement_nonempty:
  "list_all (\<lambda>(k, h). h \<noteq> []) (fst acc) \<Longrightarrow> list_all (\<lambda>(k, h). h \<noteq> []) (fst (fold (placement_step plan) nodes acc))"
proof (induction nodes arbitrary: acc)
  case (Cons vn nodes)
  have upd: "list_all (\<lambda>(k, h). h \<noteq> []) (dict_set k h d)" if "list_all (\<lambda>(k, h). h \<noteq> []) d" "h \<noteq> []"
    for k h and d :: "(string, string) dict"
    using that by (induction d) auto
  have "list_all (\<lambda>(k, h). h \<noteq> []) (fst (placement_step plan vn acc))"
    using Cons.prems upd by (simp add: placement_step_def Let_def)
  then show ?case using Cons.IH by simp
qed simp

lemma dict_get_map_filter:
  assumes "dict_ok ns"
  shows "dict_get (List.map_filter (\<lambda>(n, nd). if g nd n \<noteq> [] then Some (n, g nd n) else None) ns) vd =
     (case dict_get ns vd of None \<Rightarrow> None | Some nd \<Rightarrow> if g nd vd \<noteq> [] then Some (g nd vd) else None)"
  using assms
proof (induction ns)
  case (Cons p ns)
  obtain n nd where p: "p = (n, nd)" by (cases p)
  have "dict_get ns n = None" using Cons.prems p by (simp add: map_of_eq_None_iff)
  then show ?case using Cons p by (auto simp: map_filter_simps)
qed (simp add: map_filter_simps)

lemma load_saved_history:
  "dict_get (load_placement_history (Some (save_placement_history lab nodes plan))) k =
     (if k = [] then None else dict_get (fst (fold (placement_step plan) nodes ([], []))) k)"
proof -
  obtain places names where f: "fold (placement_step plan) nodes ([], []) = (places, names)" by fastforce
  have ne: "list_all (\<lambda>(k, h). h \<noteq> []) places" using fold_placement_nonempty [of "([], [])" plan nodes] f by simp
  have "load_placement_history (Some (save_placement_history lab nodes plan)) =
      map (\<lambda>(k, v). (k, py_str v)) (filter (\<lambda>(k, v). k \<noteq> [] \<and> truthy v) (map (\<lambda>(k, a). (k, VStr a)) places))"
    by (simp add: load_placement_history_def save_placement_history_def f dict_get_or_def enc_dict_def)
  also have "\<dots> = filter (\<lambda>(k, v). k \<noteq> []) places"
    using ne by (induction places) auto
  finally have load: "load_placement_history (Some (save_placement_history lab nodes plan)) = filter (\<lambda>(k, v). k \<noteq> []) places" .
  have "dict_get (filter (\<lambda>(k, v). k \<noteq> []) d) k = (if k = [] then None else dict_get d k)" for d :: "(string, string) dict"
    by (induction d) auto
  then show ?thesis unfolding load f fst_conv .
qed

text \<open>What a plan makes known of a storage key: the host of the last recorded device that has it.\<close>

definition last_placed :: "schedule_plan \<Rightarrow> (string, vdnode) dict \<Rightarrow> string \<Rightarrow> string option" where
  "last_placed plan nodes k =
     map_option (\<lambda>vn. placed_on plan (fst vn)) (find (\<lambda>vn. recorded plan vn \<and> persist_key (snd vn) (fst vn) = k) (rev nodes))"

lemma saved_history_get:
  "k \<noteq> [] \<Longrightarrow> dict_get (load_placement_history (Some (save_placement_history lab nodes plan))) k = last_placed plan nodes k"
  by (simp add: load_saved_history placement_fold last_placed_def split: option.split)

lemma last_placed_host:
  assumes "last_placed plan nodes k = Some h"
  shows "h \<noteq> [] \<and> (\<exists>vn \<in> set nodes. recorded plan vn \<and> persist_key (snd vn) (fst vn) = k \<and> h = placed_on plan (fst vn))"
proof -
  obtain vn where "find (\<lambda>vn. recorded plan vn \<and> persist_key (snd vn) (fst vn) = k) (rev nodes) = Some vn" "h = placed_on plan (fst vn)"
    using assms by (auto simp: last_placed_def)
  moreover then have "vn \<in> set (rev nodes)" "recorded plan vn \<and> persist_key (snd vn) (fst vn) = k"
    unfolding find_Some_iff by (blast intro: nth_mem)+
  ultimately show ?thesis by (auto simp: recorded_def)
qed

lemma last_placed_own:
  assumes "(vd, node) \<in> set nodes" "recorded plan (vd, node)"
    and "\<forall>vn \<in> set nodes. recorded plan vn \<longrightarrow> persist_key (snd vn) (fst vn) = persist_key node vd \<longrightarrow> fst vn = vd"
  shows "last_placed plan nodes (persist_key node vd) = Some (placed_on plan vd)"
proof -
  have "last_placed plan nodes (persist_key node vd) \<noteq> None"
    using assms(1,2) by (auto simp: last_placed_def find_None_iff)
  then obtain h where h: "last_placed plan nodes (persist_key node vd) = Some h" by blast
  then show ?thesis using last_placed_host [OF h] assms(3) by auto
qed

lemma last_host_saved:
  assumes "vd \<noteq> []"
  shows "last_host (load_placement_history (Some (save_placement_history lab nodes plan))) node vd =
     (case last_placed plan nodes (persist_key node vd) of
        Some h \<Rightarrow> h | None \<Rightarrow> (case last_placed plan nodes vd of Some h \<Rightarrow> h | None \<Rightarrow> []))"
proof -
  have "persist_key node vd \<noteq> []" using assms by (simp add: persist_key_def)
  then show ?thesis
    using last_placed_host [of plan nodes "persist_key node vd"]
    by (auto simp: last_host_def Let_def dict_get_or_def saved_history_get assms split: option.splits)
qed

text \<open>
  C15: what is read back from the placement history. Only persistent devices that were placed are
  recorded, under their storage key. Reading the preferences for the same topology gives a device the host
  of the last recorded device that has its storage key, else that of the last one whose storage key is
  the name of the device, and no preference when there is none either. So a recorded device whose
  storage key no other recorded one has is preferred where it was placed.
\<close>

theorem placement_history_roundtrip:
  assumes "dict_ok nodes" "vd \<noteq> []"
  shows "dict_get (load_placement_preferences (Some (save_placement_history lab nodes plan)) nodes) vd =
       (case dict_get nodes vd of
          None \<Rightarrow> None
        | Some node \<Rightarrow>
            (case last_placed plan nodes (persist_key node vd) of
               Some host \<Rightarrow> Some host | None \<Rightarrow> last_placed plan nodes vd))
     \<and> (\<forall>node. (vd, node) \<in> set nodes \<and> recorded plan (vd, node)
          \<and> (\<forall>vn \<in> set nodes. recorded plan vn \<longrightarrow> persist_key (snd vn) (fst vn) = persist_key node vd \<longrightarrow> fst vn = vd) \<longrightarrow>
        dict_get (load_placement_preferences (Some (save_placement_history lab nodes plan)) nodes) vd = Some (placed_on plan vd))"
proof -
  let ?h = "load_placement_history (Some (save_placement_history lab nodes plan))"
  have "dict_get (load_placement_preferences (Some (save_placement_history lab nodes plan)) nodes) vd =
      (case dict_get nodes vd of None \<Rightarrow> None | Some nd \<Rightarrow> if last_host ?h nd vd \<noteq> [] then Some (last_host ?h nd vd) else None)"
    using dict_get_map_filter [OF assms(1), of "last_host ?h" vd] by (simp add: load_placement_preferences_def Let_def)
  also have "\<dots> = (case dict_get nodes vd of None \<Rightarrow> None | Some node \<Rightarrow>
      (case last_placed plan nodes (persist_key node vd) of Some host \<Rightarrow> Some host | None \<Rightarrow> last_placed plan nodes vd))"
    using last_placed_host [of plan nodes] by (auto simp: last_host_saved [OF assms(2)] split: option.split)
  finally have prefs: "dict_get (load_placement_preferences (Some (save_placement_history lab nodes plan)) nodes) vd = \<dots>" .
  have "dict_get nodes vd = Some node" if "(vd, node) \<in> set nodes" for node using that assms(1) by simp
  then show ?thesis by (auto simp: prefs last_placed_own)
qed

section \<open>Where the checks do not see enough\<close>

lemma micro_name_not_plain:
  assumes "\<not> startswith lab ''dnlab''"
  shows "micro_vd_container_name lab vd \<noteq> vd_container_name lab vd'"
proof
  assume "micro_vd_container_name lab vd = vd_container_name lab vd'"
  then have eq: "''dnlab'' @ ''-'' @ lab @ ''-'' @ vd @ ''-'' @ vd = lab @ ''-'' @ vd'"
    by (simp add: micro_vd_container_name_def vd_container_name_def micro_topology_name_def)
  have "length lab < 5"
  proof (rule ccontr)
    assume "\<not> length lab < 5"
    then have "take 5 lab = take 5 (lab @ ''-'' @ vd')" by simp
    also have "\<dots> = ''dnlab''" unfolding eq [symmetric] by simp
    finally show False using assms by (simp add: startswith_def numeral_eq_Suc)
  qed
  then have "(lab @ ''-'' @ vd') ! length lab = CHR ''-''" "''dnlab'' ! length lab \<noteq> CHR ''-''"
    by (auto simp: nth_append less_Suc_eq numeral_eq_Suc)
  moreover have "(''dnlab'' @ ''-'' @ lab @ ''-'' @ vd @ ''-'' @ vd) ! length lab = ''dnlab'' ! length lab"
    using \<open>length lab < 5\<close> by (auto simp: nth_append less_Suc_eq numeral_eq_Suc)
  ultimately show False using eq by metis
qed

lemma offline_check_zero:
  "env t (RunNoCheck c cmd) = Inr (0, out, err) \<Longrightarrow> offline_check env cmd c t = (Inr (), t @ [RunNoCheck c cmd])"
  by (simp add: offline_check_def bindA_def run_no_check_def retA_def)

text \<open>
  C27: the check for running devices does not see them. Suppose the hosts answer the check truthfully, with
  10 exactly if a container it asks for runs there, and that the containers running are those of
  deployed devices of the lab. If the state file is gone, the lab is taken to be offline however many
  devices run: the check asks for the names of the old layout of containers.
\<close>

theorem offline_check_blind:
  assumes "\<not> startswith (lab_of j) ''dnlab''" and "\<not> jb_state_exists j"
    and "\<And>c tr. \<exists>out err. jb_env j tr (RunNoCheck c (lab_offline_cmd j)) =
       Inr (if \<exists>(vd, node) \<in> set (persistent_vds j). vd_container_name (lab_of j) vd \<in> running c then 10 else 0, out, err)"
    and "\<And>c. running c \<subseteq> range (micro_vd_container_name (lab_of j))"
  shows "fst (assert_lab_offline j tr) = Inr ()"
proof -
  have none: "\<not> (\<exists>(vd, node) \<in> set (persistent_vds j). vd_container_name (lab_of j) vd \<in> running c)" for c
  proof
    assume "\<exists>(vd, node) \<in> set (persistent_vds j). vd_container_name (lab_of j) vd \<in> running c"
    then obtain vd where "vd_container_name (lab_of j) vd \<in> running c" by blast
    then obtain vd' where "vd_container_name (lab_of j) vd = micro_vd_container_name (lab_of j) vd'"
      using assms(4) by blast
    then show False using micro_name_not_plain [OF assms(1)] by metis
  qed
  have "\<exists>out err. jb_env j tr (RunNoCheck c (lab_offline_cmd j)) = Inr (0, out, err)" for c tr
    using assms(3) [of tr c] none [of c] by (simp del: split_paired_Ex)
  then have ok: "\<exists>t'. offline_check (jb_env j) (lab_offline_cmd j) c t = (Inr (), t')" for c t
    by (metis (no_types, lifting) offline_check_zero)
  have "\<exists>t'. forA cs (offline_check (jb_env j) (lab_offline_cmd j)) t = (Inr (), t')" for cs t
  proof (induction cs arbitrary: t)
    case (Cons c cs)
    obtain t1 where "offline_check (jb_env j) (lab_offline_cmd j) c t = (Inr (), t1)" using ok by blast
    then show ?case using Cons.IH [of t1] by (simp add: seqA_def bindA_def)
  qed (simp add: retA_def)
  then have "fst (forA (jb_clients j) (offline_check (jb_env j) (lab_offline_cmd j)) tr) = Inr ()" by (metis fst_conv)
  then show ?thesis using assms(2) by (simp add: assert_lab_offline_def retA_def)
qed

text \<open>
  Adopting overlays of the old layout does not wait for the check. With hosts that answer every command
  with success and no output, a persistent device that has a storage identifier is prepared without
  error, and the directory named after it is moved on every host, whether the lab has a state file or not.
\<close>

theorem adoption_ignores_state:
  assumes "persistent_vds j = [(vd, node)]" "nd_persist_id node \<noteq> []" "nd_persist_id node \<noteq> vd"
    and "placed_on (jb_plan j) vd \<noteq> []" "last_host (jb_history j) node vd = []"
    and "\<And>tr ev. jb_env j tr ev = Inr (0, [], [])"
  shows "prepare_local_sticky j tr = (Inr (), tr
     @ map (\<lambda>h. RunNoCheck h (adopt_cmd (overlay_dir j vd []) (overlay_dir j vd (nd_persist_id node)))) (jb_clients j)
     @ map (\<lambda>h. RunNoCheck h (has_content_cmd (overlay_dir j vd (nd_persist_id node)))) (jb_clients j))"
proof -
  have run: "run_no_check (jb_env j) h c t = (Inr (0, [], []), t @ [RunNoCheck h c])" for h c t
    using assms(6) by (simp add: run_no_check_def Let_def str_strip_def strip_by_def)
  have adopt: "forA cs (adopt_on (jb_env j) c) t = (Inr (), t @ map (\<lambda>h. RunNoCheck h c) cs)" for cs c t
    by (induction cs arbitrary: t) (simp_all add: adopt_on_def seqA_def bindA_def run retA_def)
  have find: "find_existing_overlay_hosts (jb_env j) p cs t = (Inr [], t @ map (\<lambda>h. RunNoCheck h (has_content_cmd p)) cs)" for p cs t
    by (induction cs arbitrary: t) (simp_all add: overlay_has_content_def bindA_def run retA_def str_strip_def strip_by_def)
  have differ: "overlay_dir j vd [] \<noteq> overlay_dir j vd (nd_persist_id node)"
    using assms(2,3) by (simp add: overlay_dir_def persist_dir_for_node_def)
  show ?thesis
    using assms(1-5) differ
    by (simp add: prepare_local_sticky_def find_migration_def adopt_legacy_overlay_paths_def overlay_path_def Let_def
        bindA_def seqA_def adopt find retA_def map_filter_simps)
qed

text \<open>A dot is a storage identifier; its overlay is removed together with those of the whole lab.\<close>

lemma dot_removes_lab:
  "remove_overlay_cmd (persist_dir_for_node ''/var/backups'' ''lab'' ''r1'' (clean_persist_id (VStr ''.'')) [])
     = ''rm -rf -- /var/backups/lab''"
  by code_simp

text \<open>The storage identifier of one device can be the name of another: both have the same directory.\<close>

lemma overlay_shared: "pid \<noteq> [] \<Longrightarrow> overlay_dir j vd pid = overlay_dir j pid []"
  by (simp add: overlay_dir_def persist_dir_for_node_def)

section \<open>Witnesses\<close>

definition demo_vd :: "string \<Rightarrow> string \<Rightarrow> vdnode" where
  "demo_vd name pid = \<lparr>nd_name = name, nd_kind = ''linux'', nd_image = ''alpine:3-dnlab'', nd_mgmt_ipv4 = [],
     nd_mgmt_ipv4_explicit = False, nd_env = [], nd_extra = [], nd_persist_id = pid\<rparr>"

definition demo_host :: infra_host where
  "demo_host = \<lparr>ih_name = ''master'', ih_host = ''10.0.0.1'', ih_ssh_user = ''root'', ih_ssh_key = [], ih_is_master = True\<rparr>"

definition demo_lab :: "(string, vdnode) dict \<Rightarrow> lab_topology" where
  "demo_lab nodes =
     \<lparr>tp_name = ''lab'', tp_master = demo_host, tp_workers = [], tp_nodes = nodes, tp_links = [],
      tp_mgmt = \<lparr>mg_network = [], mg_bridge = [], mg_ipv4_subnet = [], mg_ipv4_gw = [], mg_docker_ipv4_gw = [],
                 mg_ipv6_subnet = [], mg_ipv6_gw = []\<rparr>,
      tp_real_nets = [], tp_real_net_links = [], tp_resource_specs = [],
      lt_underlay_iface = [], lt_jumphost_image = [],
      lt_jumphost_net = \<lparr>jn_network = [], jn_bridge = [], jn_ipv4_subnet = [], jn_ipv4_gw = [],
                         jn_ssh_port_range = [], jn_ssh_bind_ip = []\<rparr>,
      lt_realnet_infra = \<lparr>rc_network = [], rc_bridge = [], rc_ipv4_subnet = [], rc_ipv4_gw = [], rc_image = [],
         rc_wan_iface = [], rc_rr_as = 64512, rc_rr_ip = [], rc_host_net = [], rc_router_as_pool = [],
         rc_router_ip_pool = [], rc_realnet_network_pool = [], rc_rr_password = []\<rparr>,
      lt_webui_wishlist = [], lt_node_overrides = [], lt_node_features = [],
      lt_webui_ports = \<lparr>wp_port_range = [], wp_bind_ip = []\<rparr>,
      lt_persistence = \<lparr>pc_backend = ''local-sticky'', pc_root = ''/p'', pc_allow_migration_fallback = True,
         pc_cephfs = \<lparr>cf_mountpoint = ''/p'', cf_expected_fstype = ''ceph'', cf_marker = ''m'',
                      cf_require_shared_marker = True\<rparr>\<rparr>\<rparr>"

definition demo_plan :: "string \<Rightarrow> schedule_plan" where
  "demo_plan vd =
     \<lparr>sp_lab_name = ''lab'',
      sp_assignments = [(''w2'', \<lparr>ha_host_name = ''w2'', ha_host_ip = ''10.0.0.2'', ha_vd_names = [vd], ha_cpu_used = 1, ha_ram_mb_used = 1\<rparr>)],
      sp_cross_host_links = [], sp_local_links = [], sp_vrf_table_id = 0, sp_mgmt_vxlan_id = 0\<rparr>"

text \<open>The overlay of r1 is on w1, and r1 is scheduled on w2.\<close>

definition overlay_env :: env where
  "overlay_env tr ev =
     (case ev of
        RunNoCheck h c \<Rightarrow>
          if startswith c ''test'' then Inr (if h = ''w1'' then (0, ''disk'', []) else (1, [], [])) else Inr (0, [], [])
      | _ \<Rightarrow> Inr (0, ''42'', []))"

definition demo_job :: "env \<Rightarrow> string \<Rightarrow> bool \<Rightarrow> job" where
  "demo_job env pid state_exists =
     \<lparr>jb_env = env, jb_clients = [''w1'', ''w2''], jb_persist_root = ''/p'', jb_topo = demo_lab [(''r1'', demo_vd ''r1'' pid)],
      jb_plan = demo_plan ''r1'', jb_history = [], jb_state_exists = state_exists\<rparr>"

lemma demo_migration:
  "prepare_local_sticky (demo_job overlay_env [] False) [] =
     (Inr (), [RunNoCheck ''w1'' (has_content_cmd ''/p/lab/r1''), RunNoCheck ''w2'' (has_content_cmd ''/p/lab/r1''),
        RunNoCheck ''w1'' (offline_cmd ''lab'' [''r1'']), RunNoCheck ''w2'' (offline_cmd ''lab'' [''r1'']),
        Run ''w1'' (du_cmd ''/p/lab/r1'') False, Run ''w2'' ''mkdir -p /p/lab'' True,
        RunNoCheck ''w1'' (pack_cmd ''/p/lab/r1''), RunNoCheck ''w2'' (unpack_cmd ''/p/lab/r1''),
        RunNoCheck ''w1'' ''rm -rf -- /p/lab/r1''])"
  by code_simp

theorem overlay_removed_after_copy_witness:
  "let j = demo_job overlay_env [] False; tr = snd (prepare_local_sticky j [])
   in removal (List.last tr) \<and> offline_seen j (butlast tr) \<and> copied_first j (butlast tr) (List.last tr)"
proof -
  let ?j = "demo_job overlay_env [] False"
  have rm: "removal (RunNoCheck ''w1'' ''rm -rf -- /p/lab/r1'')" by code_simp
  have split: "snd (prepare_local_sticky ?j []) =
      [] @ butlast (snd (prepare_local_sticky ?j [])) @ RunNoCheck ''w1'' ''rm -rf -- /p/lab/r1'' # []"
    unfolding demo_migration by simp
  show ?thesis using overlay_removed_after_copy [OF split rm] rm by (simp add: demo_migration)
qed

theorem placement_history_roundtrip_witness:
  "dict_get (load_placement_preferences (Some (save_placement_history ''lab'' [(''r1'', demo_vd ''r1'' ''n-7'')] (demo_plan ''r1'')))
     [(''r1'', demo_vd ''r1'' ''n-7'')]) ''r1'' = Some ''w2''"
proof -
  have p: "placed_on (demo_plan ''r1'') ''r1'' = ''w2''" by code_simp
  have "needs_persist_bind (nd_image (demo_vd ''r1'' ''n-7''))" by code_simp
  then have "recorded (demo_plan ''r1'') (''r1'', demo_vd ''r1'' ''n-7'')" by (simp add: recorded_def p)
  then show ?thesis
    using placement_history_roundtrip [of "[(''r1'', demo_vd ''r1'' ''n-7'')]" "''r1''" "''lab''" "demo_plan ''r1''", THEN conjunct2]
    by (simp add: p)
qed

theorem offline_check_blind_witness:
  "fst (assert_lab_offline (demo_job overlay_env [] False) []) = Inr ()"
proof (rule offline_check_blind [where running = "\<lambda>_. {micro_vd_container_name ''lab'' ''r1''}"])
  let ?j = "demo_job overlay_env [] False"
  show dn: "\<not> startswith (lab_of ?j) ''dnlab''" by code_simp
  show "\<not> jb_state_exists ?j" by (simp add: demo_job_def)
  show "{micro_vd_container_name ''lab'' ''r1''} \<subseteq> range (micro_vd_container_name (lab_of ?j))" for c :: string
    by (auto simp: lab_of_def demo_job_def demo_lab_def)
  have lab: "lab_of ?j = ''lab''" by (simp add: lab_of_def demo_job_def demo_lab_def)
  have other: "vd_container_name (lab_of ?j) vd \<notin> {micro_vd_container_name ''lab'' ''r1''}" for vd
    using micro_name_not_plain [of "''lab''" "''r1''" vd] dn lab by auto
  show "\<exists>out err. jb_env ?j tr (RunNoCheck c (lab_offline_cmd ?j)) =
     Inr (if \<exists>(vd, node) \<in> set (persistent_vds ?j). vd_container_name (lab_of ?j) vd \<in> {micro_vd_container_name ''lab'' ''r1''}
          then 10 else 0, out, err)" for c tr
    using other by (simp add: demo_job_def overlay_env_def lab_offline_cmd_def offline_cmd_def startswith_def case_prod_beta)
qed

theorem adoption_ignores_state_witness:
  "prepare_local_sticky (demo_job (\<lambda>_ _. Inr (0, [], [])) ''n-7'' True) [] =
     (Inr (), map (\<lambda>h. RunNoCheck h (adopt_cmd ''/p/lab/r1'' ''/p/lab/n-7'')) [''w1'', ''w2'']
            @ map (\<lambda>h. RunNoCheck h (has_content_cmd ''/p/lab/n-7'')) [''w1'', ''w2''])"
proof -
  let ?j = "demo_job (\<lambda>_ _. Inr (0, [], [])) ''n-7'' True"
  have "persistent_vds ?j = [(''r1'', demo_vd ''r1'' ''n-7'')]" "placed_on (jb_plan ?j) ''r1'' = ''w2''"
    "last_host (jb_history ?j) (demo_vd ''r1'' ''n-7'') ''r1'' = []"
    by code_simp+
  moreover have "overlay_dir ?j ''r1'' [] = ''/p/lab/r1''" "overlay_dir ?j ''r1'' ''n-7'' = ''/p/lab/n-7''"
    by code_simp+
  ultimately show ?thesis
    using adoption_ignores_state [of ?j "''r1''" "demo_vd ''r1'' ''n-7''" "[]"]
    by (simp add: demo_vd_def demo_job_def)
qed

end
