(* ===== verification/Resources.thy ===== *)
theory Resources
  imports Values Remote
begin

text \<open>
  The CPU and memory a device needs, \<open>services/resources.py\<close>: read from the \<open>launch.py\<close> of its
  image, through a cache, and overridden by a per-node schema. What docker prints for an image is
  the parameter \<open>docker\<close> (\<^const>\<open>None\<close> when the command fails, times out or cannot be run); a
  cache file that cannot be read is the empty cache. Times of extraction are left out.
\<close>

section \<open>Reading launch.py\<close>

definition default_cpu :: int where "default_cpu = 2"
definition default_ram_mb :: int where "default_ram_mb = 4096"

text \<open>
  \<open>re.match\<close> of \<open>KEY\s*=\s*(\d+)\<close>, and of \<open>KEY\s*=\s*"(\d+)\<close> when \<open>quote\<close> is given, at the start of a
  string; \<open>re.search\<close> takes the leftmost match.
\<close>

definition match_assign :: "string \<Rightarrow> string \<Rightarrow> string \<Rightarrow> string option" where
  "match_assign key quote s =
     (let r = dropWhile is_space (drop (length key) s);
          v = dropWhile is_space (tl r);
          ds = takeWhile is_digit (drop (length quote) v)
      in if startswith s key \<and> r \<noteq> [] \<and> hd r = CHR ''='' \<and> startswith v quote \<and> ds \<noteq> []
         then Some ds else None)"

fun search_assign :: "string \<Rightarrow> string \<Rightarrow> string \<Rightarrow> string option" where
  "search_assign key quote [] = match_assign key quote []"
| "search_assign key quote (c # s) =
     (case match_assign key quote (c # s) of Some ds \<Rightarrow> Some ds | None \<Rightarrow> search_assign key quote s)"

definition parse_launch_py :: "string \<Rightarrow> int \<times> int" where
  "parse_launch_py source =
     (let ram_mb = (case search_assign ''ram'' [] source of
            Some ds \<Rightarrow> int (read_digits ds) | None \<Rightarrow> default_ram_mb);
          cpu = (case search_assign ''smp'' [CHR 0x22] source of
            Some ds \<Rightarrow> int (read_digits ds)
          | None \<Rightarrow> (case search_assign ''smp'' [] source of
                Some ds \<Rightarrow> int (read_digits ds) | None \<Rightarrow> default_cpu))
      in (cpu, ram_mb))"

definition extract_from_launch_py :: "(string \<Rightarrow> string option) \<Rightarrow> string \<Rightarrow> int \<times> int" where
  "extract_from_launch_py docker img =
     (case docker img of None \<Rightarrow> (default_cpu, default_ram_mb) | Some out \<Rightarrow> parse_launch_py out)"

section \<open>The per-node schema\<close>

datatype resource_error = ResourceError string string

text \<open>
  \<open>getattr(node, key, None)\<close> for the fields of a node; attributes every Python object has are
  taken to be absent.
\<close>

definition node_attr :: "vdnode \<Rightarrow> string \<Rightarrow> yvalue" where
  "node_attr node key =
     (if key = ''name'' then VStr (nd_name node)
      else if key = ''kind'' then VStr (nd_kind node)
      else if key = ''image'' then VStr (nd_image node)
      else if key = ''mgmt_ipv4'' then VStr (nd_mgmt_ipv4 node)
      else if key = ''mgmt_ipv4_explicit'' then VBool (nd_mgmt_ipv4_explicit node)
      else if key = ''env'' then VDict (map (\<lambda>(k, v). (k, VStr v)) (nd_env node))
      else if key = ''extra'' then VDict (nd_extra node)
      else if key = ''persist_id'' then VStr (nd_persist_id node)
      else VNone)"

fun walk_path :: "yvalue \<Rightarrow> string list \<Rightarrow> yvalue" where
  "walk_path cur [] = cur"
| "walk_path cur (part # parts) =
     (case cur of VDict d \<Rightarrow> walk_path (get_or_none d part) parts | _ \<Rightarrow> VNone)"

definition read_mapping_path :: "(string, yvalue) dict \<Rightarrow> string \<Rightarrow> yvalue" where
  "read_mapping_path data path = walk_path (VDict data) (str_split (CHR ''.'') path)"

definition read_node_value :: "vdnode \<Rightarrow> string \<Rightarrow> string \<Rightarrow> yvalue" where
  "read_node_value node source key =
     (if source = ''env'' then (case dict_get (nd_env node) key of None \<Rightarrow> VNone | Some s \<Rightarrow> VStr s)
      else if source = ''extra'' then read_mapping_path (nd_extra node) key
      else if source = ''node'' then node_attr node key
      else VNone)"

definition resolve_resource_field ::
  "string \<Rightarrow> yvalue \<Rightarrow> vdnode \<Rightarrow> int \<Rightarrow> string \<Rightarrow> resource_error + int \<times> string" where
  "resolve_resource_field fname field_spec node fallback fallback_source =
     (case field_spec of
        VDict spec \<Rightarrow>
          (let source = py_str (v_or (get_or_none spec ''source'') (VStr []));
               key = get_or_none spec ''key''
           in if source = [] \<or> \<not> truthy key then Inr (fallback, fallback_source)
              else
                (let raw = read_node_value node source (py_str key);
                     missing = (raw = VNone \<or> raw = VStr [])
                 in if missing \<and> dict_get spec ''default'' = None then Inr (fallback, fallback_source)
                    else
                      (let raw = (if missing then get_or_none spec ''default'' else raw)
                       in case py_int (py_str raw) of
                            None \<Rightarrow> Inl (ResourceError (nd_name node) fname)
                          | Some n \<Rightarrow>
                              if n \<le> 0 then Inl (ResourceError (nd_name node) fname)
                              else Inr (n, source @ '':'' @ py_str key))))
      | _ \<Rightarrow> Inr (fallback, fallback_source))"

definition apply_resource_spec ::
  "vd_resources \<Rightarrow> vdnode \<Rightarrow> (string, yvalue) dict \<Rightarrow> resource_error + vd_resources" where
  "apply_resource_spec base node spec =
     bindE (resolve_resource_field ''cpu'' (get_or_none spec ''cpu'') node (vr_cpu base) (vr_cpu_source base))
       (\<lambda>(cpu, cpu_source).
     bindE (resolve_resource_field ''ram_mb'' (get_or_none spec ''ram_mb'') node (vr_ram_mb base) (vr_ram_mb_source base))
       (\<lambda>(ram_mb, ram_source).
     Inr \<lparr>vr_name = vr_name base, vr_image = vr_image base, vr_cpu = cpu, vr_ram_mb = ram_mb,
          vr_cpu_source = cpu_source, vr_ram_mb_source = ram_source\<rparr>))"

section \<open>Extraction with a cache\<close>

record cache_entry =
  ce_cpu :: int
  ce_ram_mb :: int

type_synonym image_cache = "(string, cache_entry) dict"

definition fill_cache :: "(string \<Rightarrow> string option) \<Rightarrow> string \<Rightarrow> image_cache \<Rightarrow> image_cache" where
  "fill_cache docker img cache =
     (if dict_get cache img \<noteq> None then cache
      else (case extract_from_launch_py docker img of
              (cpu, ram_mb) \<Rightarrow> dict_set img \<lparr>ce_cpu = cpu, ce_ram_mb = ram_mb\<rparr> cache))"

definition image_resource :: "image_cache \<Rightarrow> string \<Rightarrow> string \<Rightarrow> vd_resources" where
  "image_resource cache node_name img =
     (let entry = dict_get_or cache img \<lparr>ce_cpu = default_cpu, ce_ram_mb = default_ram_mb\<rparr>
      in \<lparr>vr_name = node_name, vr_image = img, vr_cpu = ce_cpu entry, vr_ram_mb = ce_ram_mb entry,
          vr_cpu_source = ''image:'' @ img, vr_ram_mb_source = ''image:'' @ img\<rparr>)"

definition node_resource ::
  "(string, vdnode) dict \<Rightarrow> (string, (string, yvalue) dict) dict \<Rightarrow> image_cache
     \<Rightarrow> string \<times> string \<Rightarrow> (string, vd_resources) dict \<Rightarrow> resource_error + (string, vd_resources) dict" where
  "node_resource nodes specs cache ni results =
     (let resource = image_resource cache (fst ni) (snd ni)
      in case (dict_get nodes (fst ni), dict_get specs (fst ni)) of
           (Some node, Some spec) \<Rightarrow>
             if spec = [] then Inr (dict_set (fst ni) resource results)
             else bindE (apply_resource_spec resource node spec) (\<lambda>r. Inr (dict_set (fst ni) r results))
         | _ \<Rightarrow> Inr (dict_set (fst ni) resource results))"

text \<open>
  \<open>iter\<close> is the order in which the set of images is iterated. The result is the new cache,
  which is written before the nodes are looked at, and the resources. With \<open>no_cache\<close> the cache
  starts empty, so the test \<open>not no_cache\<close> in the loop never decides.
\<close>

definition extract_resources ::
  "(string set \<Rightarrow> string list) \<Rightarrow> (string \<Rightarrow> string option) \<Rightarrow> (string, string) dict \<Rightarrow> image_cache \<Rightarrow> bool
     \<Rightarrow> (string, vdnode) dict \<Rightarrow> (string, (string, yvalue) dict) dict
     \<Rightarrow> image_cache \<times> (resource_error + (string, vd_resources) dict)" where
  "extract_resources iter docker images file no_cache nodes specs =
     (let cache = fold (fill_cache docker) (iter (set (dict_values images))) (if no_cache then [] else file)
      in (cache, foldE (node_resource nodes specs cache) images []))"

section \<open>Images on hosts\<close>

definition inspect_cmd :: "string \<Rightarrow> string" where
  "inspect_cmd img = ''docker image inspect '' @ img @ '' --format '' @ sq ''{{.Id}}''"

fun missing_on :: "env \<Rightarrow> string \<Rightarrow> string list \<Rightarrow> (string, string list) dict \<Rightarrow> (string, string list) dict action" where
  "missing_on env img [] missing = retA missing"
| "missing_on env img (host # hosts) missing =
     bindA (run_no_check env host (inspect_cmd img)) (\<lambda>(rc, _, _).
       missing_on env img hosts (if rc \<noteq> 0 then dict_append img host missing else missing))"

fun missing_images :: "env \<Rightarrow> string list \<Rightarrow> string list \<Rightarrow> (string, string list) dict \<Rightarrow> (string, string list) dict action" where
  "missing_images env clients [] missing = retA missing"
| "missing_images env clients (img # images) missing =
     bindA (missing_on env img clients missing) (missing_images env clients images)"

definition check_images_on_hosts :: "env \<Rightarrow> string set \<Rightarrow> string list \<Rightarrow> (string, string list) dict action" where
  "check_images_on_hosts env images clients = missing_images env clients (sorted_list_of_set images) []"

definition sync_cmd :: "string \<Rightarrow> string \<Rightarrow> string \<Rightarrow> string" where
  "sync_cmd img user host =
     ''docker save '' @ img @ '' | ssh -o StrictHostKeyChecking=no '' @ user @ ''@'' @ host @ '' docker load''"

text \<open>The command runs in a local shell; \<^const>\<open>None\<close> is an exception.\<close>

definition sync_image_to_host :: "(string \<Rightarrow> int option) \<Rightarrow> string \<Rightarrow> string \<Rightarrow> string \<Rightarrow> bool" where
  "sync_image_to_host shell img user host = (shell (sync_cmd img user host) = Some 0)"

section \<open>What resolution yields\<close>

lemma resolve_resource_cases:
  assumes "resolve_resource_field fname spec node fb src = Inr (n, s)"
  shows "n = fb \<and> s = src \<or> 0 < n"
proof (cases spec)
  case (VDict d)
  then show ?thesis
    using assms by (auto simp: resolve_resource_field_def Let_def split: if_splits option.splits)
qed (use assms in \<open>simp_all add: resolve_resource_field_def\<close>)

text \<open>The values of an image: from the cache file, or else from docker.\<close>

definition image_values :: "(string \<Rightarrow> string option) \<Rightarrow> image_cache \<Rightarrow> string \<Rightarrow> int \<times> int" where
  "image_values docker file img =
     (case dict_get file img of
        Some e \<Rightarrow> (ce_cpu e, ce_ram_mb e) | None \<Rightarrow> extract_from_launch_py docker img)"

text \<open>A resource that is the image's, or a positive override.\<close>

definition effective :: "(string \<Rightarrow> int \<times> int) \<Rightarrow> vd_resources \<Rightarrow> bool" where
  "effective vals r \<longleftrightarrow>
     (vr_cpu r = fst (vals (vr_image r)) \<and> vr_cpu_source r = ''image:'' @ vr_image r \<or> 0 < vr_cpu r)
   \<and> (vr_ram_mb r = snd (vals (vr_image r)) \<and> vr_ram_mb_source r = ''image:'' @ vr_image r \<or> 0 < vr_ram_mb r)"

lemma apply_spec_effective:
  assumes "apply_resource_spec base node spec = Inr r" "effective vals base"
  shows "vr_name r = vr_name base \<and> vr_image r = vr_image base \<and> effective vals r"
proof -
  obtain c cs m ms where
    c: "resolve_resource_field ''cpu'' (get_or_none spec ''cpu'') node (vr_cpu base) (vr_cpu_source base) = Inr (c, cs)" and
    m: "resolve_resource_field ''ram_mb'' (get_or_none spec ''ram_mb'') node (vr_ram_mb base) (vr_ram_mb_source base) = Inr (m, ms)" and
    r: "r = \<lparr>vr_name = vr_name base, vr_image = vr_image base, vr_cpu = c, vr_ram_mb = m,
          vr_cpu_source = cs, vr_ram_mb_source = ms\<rparr>"
    using assms(1) by (auto simp: apply_resource_spec_def bindE_eq_Inr split: prod.splits)
  show ?thesis using resolve_resource_cases [OF c] resolve_resource_cases [OF m] assms(2) r
    by (auto simp: effective_def)
qed

section \<open>The cache\<close>

lemma fill_cache_get:
  "dict_get (fill_cache docker img cache) i =
     (if i = img \<and> dict_get cache i = None
      then Some \<lparr>ce_cpu = fst (extract_from_launch_py docker img), ce_ram_mb = snd (extract_from_launch_py docker img)\<rparr>
      else dict_get cache i)"
  by (auto simp: fill_cache_def split: prod.split)

lemma fill_cache_values:
  "dict_get (fold (fill_cache docker) imgs cache) i =
     (if i \<in> set imgs \<or> dict_get cache i \<noteq> None
      then Some \<lparr>ce_cpu = fst (image_values docker cache i), ce_ram_mb = snd (image_values docker cache i)\<rparr>
      else None)"
proof (induction imgs arbitrary: cache)
  case Nil
  then show ?case by (auto simp: image_values_def)
next
  case (Cons img imgs)
  have "image_values docker (fill_cache docker img cache) i = image_values docker cache i"
    by (auto simp: image_values_def fill_cache_get)
  then show ?case using Cons.IH [of "fill_cache docker img cache"] by (auto simp: fill_cache_get)
qed

lemma fill_cache_full: "(\<And>i. i \<in> set imgs \<Longrightarrow> dict_get cache i \<noteq> None) \<Longrightarrow> fold (fill_cache docker) imgs cache = cache"
  by (induction imgs) (auto simp: fill_cache_def)

lemma image_resource_effective:
  assumes "img \<in> set imgs"
  shows "effective (image_values docker file) (image_resource (fold (fill_cache docker) imgs file) n img)"
  using fill_cache_values [where docker = docker and imgs = imgs and cache = "file" and i = img] assms
  by (simp add: effective_def image_resource_def dict_get_or_def Let_def)

lemma node_resource_step:
  assumes "node_resource nodes specs cache (n, img) res = Inr res'"
    and "effective vals (image_resource cache n img)"
  shows "\<exists>r. res' = dict_set n r res \<and> vr_name r = n \<and> vr_image r = img \<and> effective vals r"
proof -
  let ?b = "image_resource cache n img"
  have b: "vr_name ?b = n" "vr_image ?b = img" by (simp_all add: image_resource_def Let_def)
  consider "res' = dict_set n ?b res"
    | node spec r where "apply_resource_spec ?b node spec = Inr r" "res' = dict_set n r res"
    using assms(1) by (auto simp: node_resource_def Let_def bindE_eq_Inr split: option.splits if_splits)
  then show ?thesis
  proof cases
    case 1
    then show ?thesis using b assms(2) by blast
  next
    case 2
    then show ?thesis using apply_spec_effective [OF 2(1) assms(2)] b by auto
  qed
qed

lemma node_resources_all:
  assumes "foldE (node_resource nodes specs cache) images res = Inr res'" "distinct (dict_keys res @ dict_keys images)"
    and "\<And>n img. (n, img) \<in> set images \<Longrightarrow> effective vals (image_resource cache n img)"
  shows "\<exists>new. res' = res @ new \<and> dict_keys new = dict_keys images
     \<and> list_all2 (\<lambda>(n, img) (m, r). m = n \<and> vr_name r = n \<and> vr_image r = img \<and> effective vals r) images new"
  using assms
proof (induction images arbitrary: res)
  case (Cons ni images)
  obtain n img where ni: "ni = (n, img)" by (cases ni)
  obtain t where t: "node_resource nodes specs cache (n, img) res = Inr t"
    "foldE (node_resource nodes specs cache) images t = Inr res'"
    using Cons.prems(1) ni by (auto split: sum.splits)
  obtain r where r: "t = dict_set n r res" "vr_name r = n" "vr_image r = img" "effective vals r"
    using node_resource_step [OF t(1)] Cons.prems(3) ni by auto
  have "t = res @ [(n, r)]" using r(1) Cons.prems(2) ni by (auto intro!: dict_set_new)
  moreover obtain new where "res' = t @ new" "dict_keys new = dict_keys images"
    "list_all2 (\<lambda>(n, img) (m, r). m = n \<and> vr_name r = n \<and> vr_image r = img \<and> effective vals r) images new"
    using Cons.IH [OF t(2)] Cons.prems(2,3) ni calculation by auto
  ultimately show ?case using r ni by (intro exI [of _ "(n, r) # new"]) simp
qed simp

lemma extract_resources_all:
  assumes "extract_resources iter docker images file no_cache nodes specs = (cache, Inr res)"
    and "dict_ok images" and "iter_ok iter"
  shows "list_all2 (\<lambda>(n, img) (m, r). m = n \<and> vr_name r = n \<and> vr_image r = img
           \<and> effective (image_values docker (if no_cache then [] else file)) r) images res"
proof -
  let ?file = "if no_cache then [] else file" and ?imgs = "iter (set (dict_values images))"
  have c: "cache = fold (fill_cache docker) ?imgs ?file"
    and r: "foldE (node_resource nodes specs cache) images [] = Inr res"
    using assms(1) by (auto simp: extract_resources_def Let_def)
  have "effective (image_values docker ?file) (image_resource cache n img)" if "(n, img) \<in> set images" for n img
  proof -
    have "img \<in> snd ` set images" using that by force
    then have "img \<in> set ?imgs" using iter_set [OF assms(3), of "set (dict_values images)"] by simp
    then show ?thesis unfolding c by (rule image_resource_effective)
  qed
  then obtain new where "res = [] @ new"
    "list_all2 (\<lambda>(n, img) (m, r). m = n \<and> vr_name r = n \<and> vr_image r = img
       \<and> effective (image_values docker ?file) r) images new"
    using node_resources_all [OF r] assms(2) by auto
  then show ?thesis by simp
qed

section \<open>Properties\<close>

text \<open>
  The resources of a lab are those of its nodes, in order; each names its node and the node's
  image, and each amount is the one the image has (from the cache file if that knows the image,
  else from its launch.py) or a positive override.
\<close>

theorem extract_resources_typed:
  assumes "extract_resources iter docker images file no_cache nodes specs = (cache, Inr res)"
    and "dict_ok images" and "iter_ok iter"
  shows "list_all2 (\<lambda>(n, img) (m, r). m = n \<and> vr_name r = n \<and> vr_image r = img
           \<and> effective (image_values docker (if no_cache then [] else file)) r) images res"
  using extract_resources_all [OF assms] .

text \<open>
  C26: the cache is transparent. Once resources have been extracted, extracting them again with
  the cache that was written gives the same result whatever docker would answer, and leaves the cache.
\<close>

theorem extract_resources_cached:
  assumes "extract_resources iter docker images file no_cache nodes specs = (cache, res)" and "iter_ok iter"
  shows "extract_resources iter docker' images cache False nodes specs = (cache, res)"
proof -
  let ?imgs = "iter (set (dict_values images))"
  have c: "cache = fold (fill_cache docker) ?imgs (if no_cache then [] else file)"
    and r: "res = foldE (node_resource nodes specs cache) images []"
    using assms(1) by (auto simp: extract_resources_def Let_def)
  have "fold (fill_cache docker') ?imgs cache = cache"
    by (rule fill_cache_full) (simp add: c fill_cache_values)
  then show ?thesis using r by (simp add: extract_resources_def Let_def)
qed

text \<open>The patterns are not anchored: the first name that ends in ram decides.\<close>

lemma ram_of_another_name: "parse_launch_py ''vram=16, ram=8192, smp=4'' = (4, 16)"
  by code_simp

section \<open>Witnesses\<close>

definition demo_docker :: "string \<Rightarrow> string option" where
  "demo_docker img = (if img = ''vr-xrv9k'' then Some ''ram=16384, smp=4'' else None)"

definition demo_node :: vdnode where
  "demo_node = \<lparr>nd_name = ''r1'', nd_kind = ''cisco_xrv9k'', nd_image = ''vr-xrv9k'', nd_mgmt_ipv4 = [],
     nd_mgmt_ipv4_explicit = False, nd_env = [(''VCPU'', '' 8 '')], nd_extra = [], nd_persist_id = []\<rparr>"

definition demo_images :: "(string, string) dict" where
  "demo_images = [(''r1'', ''vr-xrv9k''), (''r2'', ''alpine'')]"

definition demo_specs :: "(string, (string, yvalue) dict) dict" where
  "demo_specs = [(''r1'', [(''cpu'', VDict [(''source'', VStr ''env''), (''key'', VStr ''VCPU'')])])]"

lemma demo_extract:
  "extract_resources sorted_list_of_set demo_docker demo_images [] False [(''r1'', demo_node)] demo_specs =
     ([(''alpine'', \<lparr>ce_cpu = 2, ce_ram_mb = 4096\<rparr>), (''vr-xrv9k'', \<lparr>ce_cpu = 4, ce_ram_mb = 16384\<rparr>)],
      Inr [(''r1'', \<lparr>vr_name = ''r1'', vr_image = ''vr-xrv9k'', vr_cpu = 8, vr_ram_mb = 16384,
                    vr_cpu_source = ''env:VCPU'', vr_ram_mb_source = ''image:vr-xrv9k''\<rparr>),
           (''r2'', \<lparr>vr_name = ''r2'', vr_image = ''alpine'', vr_cpu = 2, vr_ram_mb = 4096,
                    vr_cpu_source = ''image:alpine'', vr_ram_mb_source = ''image:alpine''\<rparr>)])"
  by code_simp

lemma demo_images_ok: "dict_ok demo_images"
  by (simp add: demo_images_def)

theorem extract_resources_typed_witness:
  "\<exists>cache res.
     extract_resources sorted_list_of_set demo_docker demo_images [] False [(''r1'', demo_node)] demo_specs = (cache, Inr res)
   \<and> list_all2 (\<lambda>(n, img) (m, r). m = n \<and> vr_name r = n \<and> vr_image r = img
        \<and> effective (image_values demo_docker []) r) demo_images res"
  using extract_resources_typed [OF demo_extract demo_images_ok sorted_iter_ok] demo_extract by auto

theorem extract_resources_cached_witness:
  "\<exists>cache res. res \<noteq> Inl (ResourceError [] [])
   \<and> extract_resources sorted_list_of_set (\<lambda>_. None) demo_images cache False [(''r1'', demo_node)] demo_specs = (cache, res)"
  using extract_resources_cached [OF demo_extract sorted_iter_ok, of "\<lambda>_. None"] by blast

end
