(* ===== verification/Scheduler.thy ===== *)
theory Scheduler
  imports Topology
begin

text \<open>
  The scheduler, \<open>services/scheduler.py\<close>: first fit decreasing with sticky placements
  and a preference for workers, then the classification of links into local and
  cross-host ones. The abstract specification is a placement: which devices go to
  which host, within the host's capacity.
\<close>

section \<open>Errors\<close>

datatype schedule_error =
    InsufficientResources int int int int
  | NoHostFits string int int
  | RealNetUnscheduled string string
  | LinkUnscheduled string
  | NodeUnreachable string
  | IndexError
  | StopIteration

section \<open>Placing devices\<close>

record place_state =
  ps_assignments :: "(string, host_assignment) dict"
  ps_remaining_cpu :: "(string, int) dict"
  ps_remaining_ram :: "(string, int) dict"

definition init_host :: "string \<times> host_resources \<Rightarrow> place_state \<Rightarrow> place_state" where
  "init_host h st =
     (case h of (hname, hr) \<Rightarrow>
        st\<lparr>ps_assignments := dict_set hname
             \<lparr>ha_host_name = hname, ha_host_ip = hr_host hr, ha_vd_names = [],
              ha_cpu_used = 0, ha_ram_mb_used = 0\<rparr> (ps_assignments st),
           ps_remaining_cpu := dict_set hname (hr_cpu_available hr) (ps_remaining_cpu st),
           ps_remaining_ram := dict_set hname (hr_ram_mb_available hr) (ps_remaining_ram st)\<rparr>)"

definition init_state :: "(string, host_resources) dict \<Rightarrow> place_state" where
  "init_state hosts =
     fold init_host hosts \<lparr>ps_assignments = [], ps_remaining_cpu = [], ps_remaining_ram = []\<rparr>"

definition can_fit :: "place_state \<Rightarrow> vd_resources \<Rightarrow> string \<Rightarrow> bool" where
  "can_fit st vd hname =
     (case (dict_get (ps_remaining_cpu st) hname, dict_get (ps_remaining_ram st) hname) of
        (Some c, Some r) \<Rightarrow> c \<ge> vr_cpu vd \<and> r \<ge> vr_ram_mb vd
      | _ \<Rightarrow> False)"

text \<open>Lower device count first, then higher residual RAM and CPU, then the host name.\<close>

definition candidate_key :: "place_state \<Rightarrow> string \<Rightarrow> int \<times> int \<times> int \<times> string" where
  "candidate_key st hname =
     (- int (case dict_get (ps_assignments st) hname of Some a \<Rightarrow> length (ha_vd_names a) | None \<Rightarrow> 0),
      dict_get_or (ps_remaining_ram st) hname 0,
      dict_get_or (ps_remaining_cpu st) hname 0,
      hname)"

definition candidates ::
  "(string, host_resources) dict \<Rightarrow> place_state \<Rightarrow> vd_resources \<Rightarrow> bool \<Rightarrow> string list" where
  "candidates hosts st vd master =
     map fst (filter (\<lambda>(hname, hr). hr_is_master hr = master \<and> can_fit st vd hname) hosts)"

definition choose_host ::
  "(string, host_resources) dict \<Rightarrow> (string, string) dict \<Rightarrow> place_state \<Rightarrow> vd_resources \<Rightarrow> string option" where
  "choose_host hosts prefs st vd =
     (let fallback =
        (let workers = candidates hosts st vd False
         in if workers \<noteq> [] then py_max (candidate_key st) workers
            else py_max (candidate_key st) (candidates hosts st vd True))
      in case dict_get prefs (vr_name vd) of
           Some preferred \<Rightarrow>
             if preferred \<in> set (dict_keys hosts) \<and> can_fit st vd preferred
             then Some preferred else fallback
         | None \<Rightarrow> fallback)"

definition assign_vd :: "vd_resources \<Rightarrow> host_assignment \<Rightarrow> host_assignment" where
  "assign_vd vd a =
     a\<lparr>ha_vd_names := ha_vd_names a @ [vr_name vd],
       ha_cpu_used := ha_cpu_used a + vr_cpu vd,
       ha_ram_mb_used := ha_ram_mb_used a + vr_ram_mb vd\<rparr>"

text \<open>\<open>d[k] = f(d[k])\<close> on a present key.\<close>

definition dict_upd :: "'k \<Rightarrow> ('v \<Rightarrow> 'v) \<Rightarrow> ('k, 'v) dict \<Rightarrow> ('k, 'v) dict" where
  "dict_upd k f d = (case dict_get d k of Some v \<Rightarrow> dict_set k (f v) d | None \<Rightarrow> d)"

definition place_vd ::
  "(string, host_resources) dict \<Rightarrow> (string, string) dict \<Rightarrow> vd_resources \<Rightarrow> place_state
     \<Rightarrow> schedule_error + place_state" where
  "place_vd hosts prefs vd st =
     (case choose_host hosts prefs st vd of
        None \<Rightarrow> Inl (NoHostFits (vr_name vd) (vr_cpu vd) (vr_ram_mb vd))
      | Some best \<Rightarrow> Inr (st
          \<lparr>ps_assignments := dict_upd best (assign_vd vd) (ps_assignments st),
           ps_remaining_cpu := dict_upd best (\<lambda>c. c - vr_cpu vd) (ps_remaining_cpu st),
           ps_remaining_ram := dict_upd best (\<lambda>r. r - vr_ram_mb vd) (ps_remaining_ram st)\<rparr>))"

definition sorted_vds :: "(string, vd_resources) dict \<Rightarrow> vd_resources list" where
  "sorted_vds vds = sort_key (\<lambda>v. - weight v) (dict_values vds)"

section \<open>Classifying links\<close>

type_synonym ifaces = "(string option, string list) dict"

definition make_cross ::
  "string \<Rightarrow> nat \<Rightarrow> link \<Rightarrow> string option \<Rightarrow> string option \<Rightarrow> cross_host_link" where
  "make_cross lab vxlan_id l src_host tgt_host =
     \<lparr>ch_vxlan_id = vxlan_id,
      ch_source_node = lk_source l, ch_source_iface = lk_source_iface l,
      ch_target_node = lk_target l, ch_target_iface = lk_target_iface l,
      ch_source_host = src_host, ch_target_host = tgt_host,
      ch_source_host_iface = vxlan_host_iface lab (lk_source l) (lk_source_iface l),
      ch_target_host_iface = vxlan_host_iface lab (lk_target l) (lk_target_iface l)\<rparr>"

text \<open>The loop over \<open>topo.links\<close> of \<open>compute_schedule\<close>; the state is \<open>(local, cross, counter, ifaces)\<close>.\<close>

definition sched_link ::
  "string \<Rightarrow> (string, host_assignment) dict \<Rightarrow> link
     \<Rightarrow> link list \<times> cross_host_link list \<times> nat \<times> ifaces
     \<Rightarrow> link list \<times> cross_host_link list \<times> nat \<times> ifaces" where
  "sched_link lab asg l st =
     (case st of (local, cross, counter, ifs) \<Rightarrow>
       (let src_host = host_for_vd asg (lk_source l);
            tgt_host = host_for_vd asg (lk_target l)
        in if src_host = tgt_host then (local @ [l], cross, counter, ifs)
           else (let c = make_cross lab (dataplane_vxlan_base lab + counter) l src_host tgt_host
                 in (local, cross @ [c], counter + 1,
                     dict_append tgt_host (ch_target_host_iface c)
                       (dict_append src_host (ch_source_host_iface c) ifs)))))"

text \<open>
  Giving the links of one host their unique names, in order; \<open>exn\<close> is what the code
  raises when the names run out (\<open>unique[idx]\<close> in one caller, \<open>next(unique)\<close> in the other).
\<close>

definition take_name ::
  "schedule_error \<Rightarrow> bool \<Rightarrow> (string \<Rightarrow> cross_host_link \<Rightarrow> cross_host_link)
     \<Rightarrow> string list \<times> cross_host_link \<Rightarrow> schedule_error + string list \<times> cross_host_link" where
  "take_name exn here set_name st =
     (if here
      then (case st of ([], c) \<Rightarrow> Inl exn | (u # us, c) \<Rightarrow> Inr (us, set_name u c))
      else Inr st)"

fun rename_host ::
  "schedule_error \<Rightarrow> string option \<Rightarrow> string list \<Rightarrow> cross_host_link list
     \<Rightarrow> schedule_error + cross_host_link list" where
  "rename_host exn host us [] = Inr []"
| "rename_host exn host us (c # cs) =
     bindE (take_name exn (ch_source_host c = host) (\<lambda>u c. c\<lparr>ch_source_host_iface := u\<rparr>) (us, c))
       (\<lambda>st. bindE (take_name exn (ch_target_host c = host) (\<lambda>u c. c\<lparr>ch_target_host_iface := u\<rparr>) st)
         (\<lambda>(us', c'). bindE (rename_host exn host us' cs) (\<lambda>cs'. Inr (c' # cs'))))"

definition rename_all ::
  "schedule_error \<Rightarrow> ifaces \<Rightarrow> cross_host_link list \<Rightarrow> schedule_error + cross_host_link list" where
  "rename_all exn ifs cross =
     foldE (\<lambda>(host, names) cs. rename_host exn host (ensure_unique names) cs) ifs cross"

definition falsy :: "string option \<Rightarrow> bool" where
  "falsy h \<longleftrightarrow> h = None \<or> h = Some []"

text \<open>The loop over \<open>topo.real_net_links\<close>; an unscheduled one is skipped or raises.\<close>

fun place_real_net_links ::
  "bool \<Rightarrow> (string, host_assignment) dict \<Rightarrow> real_net_link list \<Rightarrow> schedule_error + real_net_link list" where
  "place_real_net_links allow asg [] = Inr []"
| "place_real_net_links allow asg (r # rs) =
     (let host = host_for_vd asg (rl_node r)
      in if falsy host then
           (if allow then bindE (place_real_net_links allow asg rs) (\<lambda>rs'. Inr (r # rs'))
            else Inl (RealNetUnscheduled (rl_real_net r) (rl_node r)))
         else bindE (place_real_net_links allow asg rs)
           (\<lambda>rs'. Inr (r\<lparr>rl_host := the host,
                         rl_bridge_iface := realnet_bridge_iface (rl_node r) (rl_iface r)\<rparr> # rs')))"

section \<open>compute_schedule\<close>

text \<open>
  The result is the plan and the real-net links, which the code updates in place in the
  topology.
\<close>

definition feasible :: "(string, vd_resources) dict \<Rightarrow> (string, host_resources) dict \<Rightarrow> bool" where
  "feasible vds hosts \<longleftrightarrow>
     \<not> (sum_list (map vr_cpu (dict_values vds)) > sum_list (map hr_cpu_available (dict_values hosts))
        \<or> sum_list (map vr_ram_mb (dict_values vds)) > sum_list (map hr_ram_mb_available (dict_values hosts)))"

definition place_all ::
  "(string, host_resources) dict \<Rightarrow> (string, string) dict \<Rightarrow> (string, vd_resources) dict
     \<Rightarrow> schedule_error + place_state" where
  "place_all hosts prefs vds = foldE (place_vd hosts prefs) (sorted_vds vds) (init_state hosts)"

definition schedule_links ::
  "topology \<Rightarrow> (string, host_assignment) dict \<Rightarrow> schedule_error + schedule_plan \<times> real_net_link list" where
  "schedule_links topo asg =
     (case fold (sched_link (tp_name topo) asg) (tp_links topo)
             ([], [], 0, map (\<lambda>h. (Some h, [])) (dict_keys asg)) of
        (local, cross, counter, ifs) \<Rightarrow>
          bindE (rename_all IndexError ifs cross) (\<lambda>cross'.
            bindE (place_real_net_links False asg (tp_real_net_links topo)) (\<lambda>rls.
              Inr (\<lparr>sp_lab_name = tp_name topo, sp_assignments = asg,
                    sp_cross_host_links = cross', sp_local_links = local,
                    sp_vrf_table_id = vrf_table_id (tp_name topo),
                    sp_mgmt_vxlan_id = mgmt_vxlan_id (tp_name topo)\<rparr>, rls))))"

definition compute_schedule ::
  "topology \<Rightarrow> (string, vd_resources) dict \<Rightarrow> (string, host_resources) dict
     \<Rightarrow> (string, string) dict \<Rightarrow> schedule_error + schedule_plan \<times> real_net_link list" where
  "compute_schedule topo vds hosts prefs =
     (if \<not> feasible vds hosts
      then Inl (InsufficientResources
             (sum_list (map vr_cpu (dict_values vds))) (sum_list (map vr_ram_mb (dict_values vds)))
             (sum_list (map hr_cpu_available (dict_values hosts)))
             (sum_list (map hr_ram_mb_available (dict_values hosts))))
      else bindE (place_all hosts prefs vds) (\<lambda>st. schedule_links topo (ps_assignments st)))"

section \<open>classify_links\<close>

text \<open>The loop over \<open>topo.links\<close> of \<open>classify_links\<close>; the state is \<open>(local, cross, ifaces)\<close>.\<close>

definition classify_link ::
  "string \<Rightarrow> bool \<Rightarrow> (string, host_assignment) dict \<Rightarrow> link
     \<Rightarrow> link list \<times> cross_host_link list \<times> ifaces
     \<Rightarrow> schedule_error + link list \<times> cross_host_link list \<times> ifaces" where
  "classify_link lab allow asg l st =
     (case st of (local, cross, ifs) \<Rightarrow>
       (let src_host = host_for_vd asg (lk_source l);
            tgt_host = host_for_vd asg (lk_target l)
        in if falsy src_host \<or> falsy tgt_host
           then (if allow then Inr (local, cross, ifs) else Inl (LinkUnscheduled (link_str l)))
           else if src_host = tgt_host then Inr (local @ [l], cross, ifs)
           else (let c = make_cross lab (dataplane_vxlan_base lab + length cross) l src_host tgt_host
                 in Inr (local, cross @ [c],
                     dict_append tgt_host (ch_target_host_iface c)
                       (dict_append src_host (ch_source_host_iface c) ifs)))))"

definition classify_links ::
  "topology \<Rightarrow> schedule_plan \<Rightarrow> bool \<Rightarrow> schedule_error + schedule_plan \<times> real_net_link list" where
  "classify_links topo plan allow =
     (let asg = sp_assignments plan
      in bindE (foldE (classify_link (tp_name topo) allow asg) (tp_links topo)
             ([], [], map (\<lambda>h. (Some h, [])) (dict_keys asg)))
           (\<lambda>(local, cross, ifs).
             bindE (rename_all StopIteration ifs cross) (\<lambda>cross'.
               bindE (place_real_net_links allow asg (tp_real_net_links topo)) (\<lambda>rls.
                 Inr (plan\<lparr>sp_local_links := local, sp_cross_host_links := cross'\<rparr>, rls)))))"

section \<open>gather_host_resources\<close>

text \<open>
  \<open>run name cmd\<close> is the standard output of a command on a host, or the text of the
  exception the SSH client raised.
\<close>

fun gather_host_resources ::
  "(string \<Rightarrow> string \<Rightarrow> string + string) \<Rightarrow> (string \<times> string) list
     \<Rightarrow> schedule_error + (string, host_resources) dict" where
  "gather_host_resources run [] = Inr []"
| "gather_host_resources run ((name, host) # clients) =
     (case (run name ''nproc'', run name (''free -m | awk '' @ [CHR 0x27] @ ''/^Mem:/{print $7}'' @ [CHR 0x27])) of
        (Inr cpu_str, Inr ram_str) \<Rightarrow>
          (case (py_int (str_strip cpu_str), py_int (str_strip ram_str)) of
             (Some cpu, Some ram_mb) \<Rightarrow>
               bindE (gather_host_resources run clients) (\<lambda>rest.
                 Inr ((name, \<lparr>hr_name = name, hr_host = host, hr_cpu_available = cpu,
                              hr_ram_mb_available = ram_mb, hr_is_master = (name = ''master'')\<rparr>) # rest))
           | _ \<Rightarrow> Inl (NodeUnreachable name))
      | _ \<Rightarrow> Inl (NodeUnreachable name))"

section \<open>The specification: placements\<close>

text \<open>
  A placement gives every host a list of devices. It is valid for some devices when it
  distributes exactly those and no host that received any is over its capacity.
\<close>

type_synonym placement = "string \<Rightarrow> vd_resources list"

abbreviation cpu_load :: "vd_resources list \<Rightarrow> int" where
  "cpu_load vs \<equiv> sum_list (map vr_cpu vs)"

abbreviation ram_load :: "vd_resources list \<Rightarrow> int" where
  "ram_load vs \<equiv> sum_list (map vr_ram_mb vs)"

definition valid_placement ::
  "(string, host_resources) dict \<Rightarrow> vd_resources list \<Rightarrow> placement \<Rightarrow> bool" where
  "valid_placement hosts vs p \<longleftrightarrow>
     mset vs = sum_list (map (\<lambda>h. mset (p h)) (dict_keys hosts))
     \<and> (\<forall>h hr. (h, hr) \<in> set hosts \<longrightarrow> p h = [] \<or>
          cpu_load (p h) \<le> hr_cpu_available hr \<and> ram_load (p h) \<le> hr_ram_mb_available hr)"

text \<open>The scheduler's assignments represent a placement.\<close>

definition represents :: "(string, host_resources) dict \<Rightarrow> (string, host_assignment) dict \<Rightarrow> placement \<Rightarrow> bool" where
  "represents hosts asg p \<longleftrightarrow>
     dict_keys asg = dict_keys hosts
     \<and> (\<forall>h \<in> set (dict_keys hosts). \<exists>a. dict_get asg h = Some a
          \<and> ha_vd_names a = map vr_name (p h)
          \<and> ha_cpu_used a = cpu_load (p h) \<and> ha_ram_mb_used a = ram_load (p h))"

definition remaining_ok :: "(string, host_resources) dict \<Rightarrow> place_state \<Rightarrow> placement \<Rightarrow> bool" where
  "remaining_ok hosts st p \<longleftrightarrow>
     (\<forall>h hr. (h, hr) \<in> set hosts \<longrightarrow>
        dict_get (ps_remaining_cpu st) h = Some (hr_cpu_available hr - cpu_load (p h))
        \<and> dict_get (ps_remaining_ram st) h = Some (hr_ram_mb_available hr - ram_load (p h)))"

definition place_inv :: "(string, host_resources) dict \<Rightarrow> vd_resources list \<Rightarrow> place_state \<Rightarrow> bool" where
  "place_inv hosts vs st \<longleftrightarrow>
     (\<exists>p. represents hosts (ps_assignments st) p \<and> remaining_ok hosts st p \<and> valid_placement hosts vs p)"

lemma dict_get_upd:
  "dict_get (dict_upd k f d) k' = (if k' = k then map_option f (dict_get d k) else dict_get d k')"
  by (auto simp: dict_upd_def split: option.splits)

lemma dict_keys_upd [simp]: "dict_keys (dict_upd k f d) = dict_keys d"
proof (cases "dict_get d k")
  case (Some v)
  then have "k \<in> set (dict_keys d)" by (force dest: map_of_SomeD)
  then show ?thesis by (simp add: dict_upd_def Some update_keys)
qed (simp add: dict_upd_def)

lemma choose_host_fits:
  assumes "choose_host hosts prefs st vd = Some h"
  shows "h \<in> set (dict_keys hosts) \<and> can_fit st vd h"
proof -
  have *: "py_max f (candidates hosts st vd m) = Some h \<Longrightarrow> ?thesis"
    for m and f :: "string \<Rightarrow> int \<times> int \<times> int \<times> string"
    by (drule py_max_mem) (force simp: candidates_def)
  show ?thesis
    using assms * by (auto simp: choose_host_def Let_def split: option.splits if_splits)
qed

lemma sum_mset_upd:
  assumes "distinct ks"
  shows "sum_list (map (\<lambda>h. mset ((p(b := p b @ [v])) h)) ks) =
    sum_list (map (\<lambda>h. mset (p h)) ks) + (if b \<in> set ks then {#v#} else {#})"
  using assms by (induction ks) auto

lemma place_vd_inv:
  assumes ok: "dict_ok hosts" and inv: "place_inv hosts vs st"
    and step: "place_vd hosts prefs vd st = Inr st'"
  shows "place_inv hosts (vs @ [vd]) st'"
proof -
  obtain b where b: "choose_host hosts prefs st vd = Some b"
    and st': "st' = st
          \<lparr>ps_assignments := dict_upd b (assign_vd vd) (ps_assignments st),
           ps_remaining_cpu := dict_upd b (\<lambda>c. c - vr_cpu vd) (ps_remaining_cpu st),
           ps_remaining_ram := dict_upd b (\<lambda>r. r - vr_ram_mb vd) (ps_remaining_ram st)\<rparr>"
    using step by (auto simp: place_vd_def split: option.splits)
  obtain p where p: "represents hosts (ps_assignments st) p" "remaining_ok hosts st p"
      "valid_placement hosts vs p"
    using inv by (auto simp: place_inv_def)
  let ?p = "p(b := p b @ [vd])"
  have bk: "b \<in> fst ` set hosts" and fit: "can_fit st vd b" using choose_host_fits [OF b] by auto
  have "represents hosts (ps_assignments st') ?p"
    using p(1) by (auto simp: represents_def st' dict_get_upd assign_vd_def)
  moreover have "remaining_ok hosts st' ?p"
    using p(2) by (auto simp: remaining_ok_def st' dict_get_upd)
  moreover have "valid_placement hosts (vs @ [vd]) ?p"
  proof -
    have "mset (vs @ [vd]) = sum_list (map (\<lambda>h. mset (?p h)) (dict_keys hosts))"
      using p(3) bk unfolding sum_mset_upd [OF ok] by (simp add: valid_placement_def)
    moreover have "cpu_load (?p b) \<le> hr_cpu_available hr \<and> ram_load (?p b) \<le> hr_ram_mb_available hr"
      if "(b, hr) \<in> set hosts" for hr
      using p(2) fit that by (force simp: remaining_ok_def can_fit_def)
    ultimately show ?thesis using p(3) by (auto simp: valid_placement_def)
  qed
  ultimately show ?thesis by (auto simp: place_inv_def)
qed

lemma init_state_eq:
  assumes "dict_ok hosts"
  shows "ps_assignments (init_state hosts) = map (\<lambda>(h, hr). (h,
             \<lparr>ha_host_name = h, ha_host_ip = hr_host hr, ha_vd_names = [],
              ha_cpu_used = 0, ha_ram_mb_used = 0\<rparr>)) hosts"
    and "ps_remaining_cpu (init_state hosts) = map (\<lambda>(h, hr). (h, hr_cpu_available hr)) hosts"
    and "ps_remaining_ram (init_state hosts) = map (\<lambda>(h, hr). (h, hr_ram_mb_available hr)) hosts"
proof -
  let ?a = "\<lambda>(h, hr). (h, \<lparr>ha_host_name = h, ha_host_ip = hr_host hr, ha_vd_names = [],
              ha_cpu_used = 0, ha_ram_mb_used = 0\<rparr>)"
  let ?c = "\<lambda>(h, hr). (h, hr_cpu_available hr)" and ?r = "\<lambda>(h, hr). (h, hr_ram_mb_available hr)"
  have proj: "ps_assignments (fold init_host hs st) = fold (\<lambda>(k, v). dict_set k v) (map ?a hs) (ps_assignments st)
     \<and> ps_remaining_cpu (fold init_host hs st) = fold (\<lambda>(k, v). dict_set k v) (map ?c hs) (ps_remaining_cpu st)
     \<and> ps_remaining_ram (fold init_host hs st) = fold (\<lambda>(k, v). dict_set k v) (map ?r hs) (ps_remaining_ram st)"
    for hs and st :: place_state
    by (induction hs arbitrary: st) (auto simp: init_host_def)
  have new: "fold (\<lambda>(k, v). dict_set k v) (map (\<lambda>(h, hr). (h, f h hr)) hosts) [] = map (\<lambda>(h, hr). (h, f h hr)) hosts"
    for f :: "string \<Rightarrow> host_resources \<Rightarrow> 'v"
    using fold_dict_set_new [of "map (\<lambda>(h, hr). (h, f h hr)) hosts" "[]"] assms
    by (simp add: comp_def split_beta)
  show "ps_assignments (init_state hosts) = map ?a hosts"
    "ps_remaining_cpu (init_state hosts) = map ?c hosts"
    "ps_remaining_ram (init_state hosts) = map ?r hosts"
    unfolding init_state_def by (simp_all add: proj new)
qed

lemma map_of_map_keyed: "dict_ok d \<Longrightarrow> (k, v) \<in> set d \<Longrightarrow> map_of (map (\<lambda>(k, v). (k, f k v)) d) k = Some (f k v)"
  by (rule map_of_is_SomeI) (force simp: comp_def split_beta)+

lemma place_inv_init: "dict_ok hosts \<Longrightarrow> place_inv hosts [] (init_state hosts)"
proof -
  assume ok: "dict_ok hosts"
  have "represents hosts (ps_assignments (init_state hosts)) (\<lambda>_. [])"
    using ok by (force simp: represents_def init_state_eq comp_def split_beta intro!: map_of_is_SomeI)
  moreover have "remaining_ok hosts (init_state hosts) (\<lambda>_. [])"
    using ok by (auto simp: remaining_ok_def init_state_eq map_of_map_keyed)
  moreover have "valid_placement hosts [] (\<lambda>_. [])"
    by (simp add: valid_placement_def, induction hosts) auto
  ultimately show ?thesis by (auto simp: place_inv_def)
qed

interpretation placement: keeps_invariant "place_vd hosts prefs" "\<lambda>vs st. dict_ok hosts \<and> place_inv hosts vs st"
  for hosts prefs
  by unfold_locales (blast intro: place_vd_inv)

lemma place_run_inv:
  assumes "dict_ok hosts" "place_inv hosts vs st" "foldE (place_vd hosts prefs) ws st = Inr st'"
  shows "place_inv hosts (vs @ ws) st'"
  using placement.run_keeps [OF _ assms(3)] assms(1,2) by blast

lemma place_all_inv:
  "dict_ok hosts \<Longrightarrow> place_all hosts prefs vds = Inr st \<Longrightarrow> place_inv hosts (sorted_vds vds) st"
  unfolding place_all_def using place_run_inv [OF _ place_inv_init] by fastforce

section \<open>Link classification: lemmas\<close>

text \<open>
  The host-side interface names a list of cross-host links puts on one host, in order;
  and a link without its host-side names.
\<close>

definition host_ifaces :: "string option \<Rightarrow> cross_host_link list \<Rightarrow> string list" where
  "host_ifaces h cs = concat (map (\<lambda>c.
     (if ch_source_host c = h then [ch_source_host_iface c] else []) @
     (if ch_target_host c = h then [ch_target_host_iface c] else [])) cs)"

definition erase_ifaces :: "cross_host_link \<Rightarrow> cross_host_link" where
  "erase_ifaces c = c\<lparr>ch_source_host_iface := [], ch_target_host_iface := []\<rparr>"

lemma host_ifaces_simps [simp]:
  "host_ifaces h [] = []"
  "host_ifaces h (c # cs) =
     (if ch_source_host c = h then [ch_source_host_iface c] else []) @
     (if ch_target_host c = h then [ch_target_host_iface c] else []) @ host_ifaces h cs"
  "host_ifaces h (cs @ ds) = host_ifaces h cs @ host_ifaces h ds"
  by (simp_all add: host_ifaces_def)

lemma take_name_ok:
  "(here \<longrightarrow> us \<noteq> []) \<Longrightarrow> take_name exn here f (us, c) =
     Inr (if here then tl us else us, if here then f (hd us) c else c)"
  by (cases us) (auto simp: take_name_def)

lemma rename_host_ok:
  "length us = length (host_ifaces h cs) \<Longrightarrow>
     \<exists>cs'. rename_host exn h us cs = Inr cs' \<and> map erase_ifaces cs' = map erase_ifaces cs
       \<and> host_ifaces h cs' = us \<and> (\<forall>h'. h' \<noteq> h \<longrightarrow> host_ifaces h' cs' = host_ifaces h' cs)"
proof (induction cs arbitrary: us)
  case (Cons c cs)
  let ?S = "ch_source_host c = h" and ?T = "ch_target_host c = h"
  define us1 c1 where 1: "us1 = (if ?S then tl us else us)"
    "c1 = (if ?S then c\<lparr>ch_source_host_iface := hd us\<rparr> else c)"
  define us2 c2 where 2: "us2 = (if ?T then tl us1 else us1)"
    "c2 = (if ?T then c1\<lparr>ch_target_host_iface := hd us1\<rparr> else c1)"
  have l0: "length us = (if ?S then 1 else 0) + (if ?T then 1 else 0) + length (host_ifaces h cs)"
    using Cons.prems by simp
  have l1: "length us1 = (if ?T then 1 else 0) + length (host_ifaces h cs)"
    using l0 by (simp add: 1)
  have len: "length us2 = length (host_ifaces h cs)" using l1 by (simp add: 2)
  have ne: "?S \<longrightarrow> us \<noteq> []" "?T \<longrightarrow> us1 \<noteq> []" using l0 l1 by auto
  obtain cs' where 3: "rename_host exn h us2 cs = Inr cs'" "map erase_ifaces cs' = map erase_ifaces cs"
      "host_ifaces h cs' = us2" "\<forall>h'. h' \<noteq> h \<longrightarrow> host_ifaces h' cs' = host_ifaces h' cs"
    using Cons.IH [OF len] by blast
  have "take_name exn ?S (\<lambda>u c. c\<lparr>ch_source_host_iface := u\<rparr>) (us, c) = Inr (us1, c1)"
    "take_name exn ?T (\<lambda>u c. c\<lparr>ch_target_host_iface := u\<rparr>) (us1, c1) = Inr (us2, c2)"
    unfolding 1 2 using ne by (auto simp: take_name_ok 1)
  then have "rename_host exn h us (c # cs) = Inr (c2 # cs')" using 3(1) by simp
  moreover have "map erase_ifaces (c2 # cs') = map erase_ifaces (c # cs)"
    using 3(2) by (simp add: erase_ifaces_def 1 2)
  moreover have "host_ifaces h (c2 # cs') = us"
    using 3(3) ne by (auto simp: 1 2)
  moreover have "\<forall>h'. h' \<noteq> h \<longrightarrow> host_ifaces h' (c2 # cs') = host_ifaces h' (c # cs)"
    using 3(4) by (auto simp: 1 2)
  ultimately show ?case by blast
qed simp

lemma rename_all_ok:
  assumes "dict_ok ifs" and "\<forall>(h, names) \<in> set ifs. names = host_ifaces h cs"
  shows "\<exists>cs'. rename_all exn ifs cs = Inr cs' \<and> map erase_ifaces cs' = map erase_ifaces cs
       \<and> (\<forall>h. host_ifaces h cs' =
            (if h \<in> fst ` set ifs then ensure_unique (host_ifaces h cs) else host_ifaces h cs))"
  using assms
proof (induction ifs arbitrary: cs)
  case Nil
  then show ?case by (simp add: rename_all_def)
next
  case (Cons hn ifs)
  obtain h names where hn: "hn = (h, names)" by (cases hn)
  have names: "names = host_ifaces h cs" using Cons.prems hn by simp
  obtain cs1 where 1: "rename_host exn h (ensure_unique names) cs = Inr cs1"
      "map erase_ifaces cs1 = map erase_ifaces cs" "host_ifaces h cs1 = ensure_unique names"
      "\<forall>h'. h' \<noteq> h \<longrightarrow> host_ifaces h' cs1 = host_ifaces h' cs"
    using rename_host_ok [of "ensure_unique names" h cs exn] names by (auto simp: ensure_unique_length)
  have "\<forall>(h', ns) \<in> set ifs. ns = host_ifaces h' cs1"
    using Cons.prems hn 1(4) by (force simp: image_iff)
  then obtain cs2 where 2: "rename_all exn ifs cs1 = Inr cs2"
      "map erase_ifaces cs2 = map erase_ifaces cs1"
      "\<forall>h. host_ifaces h cs2 =
            (if h \<in> fst ` set ifs then ensure_unique (host_ifaces h cs1) else host_ifaces h cs1)"
    using Cons.IH [of cs1] Cons.prems(1) by auto
  have "h \<notin> fst ` set ifs" using Cons.prems(1) hn by simp
  then have "\<forall>h'. host_ifaces h' cs2 =
      (if h' \<in> fst ` set (hn # ifs) then ensure_unique (host_ifaces h' cs) else host_ifaces h' cs)"
    using 2(3) 1(3,4) names hn by auto
  then show ?case using 1(1,2) 2(1,2) hn by (simp add: rename_all_def)
qed

text \<open>What the classification loop computes.\<close>

definition is_local :: "(string, host_assignment) dict \<Rightarrow> link \<Rightarrow> bool" where
  "is_local asg l \<longleftrightarrow> host_for_vd asg (lk_source l) = host_for_vd asg (lk_target l)"

definition cross_of :: "string \<Rightarrow> (string, host_assignment) dict \<Rightarrow> nat \<times> link \<Rightarrow> cross_host_link" where
  "cross_of lab asg il = make_cross lab (dataplane_vxlan_base lab + fst il) (snd il)
     (host_for_vd asg (lk_source (snd il))) (host_for_vd asg (lk_target (snd il)))"

definition cross_spec :: "string \<Rightarrow> (string, host_assignment) dict \<Rightarrow> link list \<Rightarrow> cross_host_link list" where
  "cross_spec lab asg ls = map (cross_of lab asg) (enumerate 0 (filter (\<lambda>l. \<not> is_local asg l) ls))"

text \<open>The interface dictionary holds, for every host, the names the links so far put on it.\<close>

definition ifaces_ok :: "ifaces \<Rightarrow> cross_host_link list \<Rightarrow> bool" where
  "ifaces_ok ifs cs \<longleftrightarrow> dict_ok ifs \<and> (\<forall>h. dict_get_or ifs h [] = host_ifaces h cs)"

lemma ifaces_ok_append:
  assumes "ifaces_ok ifs cs"
  shows "ifaces_ok (dict_append (ch_target_host c) (ch_target_host_iface c)
     (dict_append (ch_source_host c) (ch_source_host_iface c) ifs)) (cs @ [c])"
  using assms by (auto simp: ifaces_ok_def dict_append_ok dict_simps)

lemma ifaces_ok_entries:
  assumes "ifaces_ok ifs cs"
  shows "\<forall>(h, names) \<in> set ifs. names = host_ifaces h cs"
proof clarify
  fix h names assume "(h, names) \<in> set ifs"
  then have "dict_get ifs h = Some names" using assms by (simp add: ifaces_ok_def)
  then have "dict_get_or ifs h [] = names" by (simp add: dict_get_or_def)
  then show "names = host_ifaces h cs" using assms by (simp add: ifaces_ok_def)
qed

lemma cross_spec_snoc:
  "cross_spec lab asg (ls @ [l]) = cross_spec lab asg ls @
     (if is_local asg l then [] else [cross_of lab asg (length (cross_spec lab asg ls), l)])"
  by (simp add: cross_spec_def enumerate_append_eq)

lemma make_cross_hosts [simp]:
  "ch_source_host (cross_of lab asg il) = host_for_vd asg (lk_source (snd il))"
  "ch_target_host (cross_of lab asg il) = host_for_vd asg (lk_target (snd il))"
  by (simp_all add: cross_of_def make_cross_def)

lemma sched_link_local:
  "is_local asg l \<Longrightarrow> sched_link lab asg l (loc, cs, n, ifs) = (loc @ [l], cs, n, ifs)"
  by (simp add: sched_link_def is_local_def)

lemma sched_link_cross:
  assumes "\<not> is_local asg l" and "c = cross_of lab asg (n, l)"
  shows "sched_link lab asg l (loc, cs, n, ifs) =
    (loc, cs @ [c], Suc n, dict_append (ch_target_host c) (ch_target_host_iface c)
       (dict_append (ch_source_host c) (ch_source_host_iface c) ifs))"
  using assms by (simp add: sched_link_def is_local_def cross_of_def make_cross_def Let_def)

lemma dict_append_keys: "fst ` set (dict_append k x d) = insert k (fst ` set d)"
  by (simp add: dict_append_def dict_keys_set)

lemma sched_links_fold:
  assumes "ifaces_ok ifs0 []"
  shows "\<exists>ifs. fold (sched_link lab asg) ls ([], [], 0, ifs0) =
      (filter (is_local asg) ls, cross_spec lab asg ls, length (cross_spec lab asg ls), ifs)
    \<and> ifaces_ok ifs (cross_spec lab asg ls) \<and> fst ` set ifs0 \<subseteq> fst ` set ifs"
proof (induction ls rule: rev_induct)
  case Nil
  then show ?case using assms by (simp add: cross_spec_def)
next
  case (snoc l ls)
  then obtain ifs where ifs: "fold (sched_link lab asg) ls ([], [], 0, ifs0) =
      (filter (is_local asg) ls, cross_spec lab asg ls, length (cross_spec lab asg ls), ifs)"
    "ifaces_ok ifs (cross_spec lab asg ls)" "fst ` set ifs0 \<subseteq> fst ` set ifs" by blast
  let ?c = "cross_of lab asg (length (cross_spec lab asg ls), l)"
  show ?case
  proof (cases "is_local asg l")
    case True
    then show ?thesis using ifs by (simp add: sched_link_local cross_spec_snoc)
  next
    case False
    then show ?thesis using ifs ifaces_ok_append [OF ifs(2), of ?c]
      by (auto simp: sched_link_cross [OF False refl] cross_spec_snoc dict_append_keys)
  qed
qed

lemma ifaces_ok_init: "dict_ok asg \<Longrightarrow> ifaces_ok (map (\<lambda>h. (Some h, [])) (dict_keys asg)) []"
proof -
  assume ok: "dict_ok asg"
  have get: "map_of (map (\<lambda>h. (Some h, [])) ks) k = (if k \<in> Some ` set ks then Some [] else None)"
    for ks :: "string list" and k :: "string option"
    by (induction ks) auto
  have keys: "map fst (map (\<lambda>h. (Some h, [])) ks) = map Some ks" for ks :: "string list" by simp
  have "distinct (map Some (dict_keys asg))" using ok by (simp only: distinct_map) simp
  then show ?thesis unfolding ifaces_ok_def dict_get_or_def get keys by simp
qed

text \<open>What a link classification leaves in the plan, for every host it knows.\<close>

definition links_classified ::
  "topology \<Rightarrow> (string, host_assignment) dict \<Rightarrow> schedule_plan \<Rightarrow> bool" where
  "links_classified topo asg plan \<longleftrightarrow>
     sp_local_links plan = filter (is_local asg) (tp_links topo)
     \<and> map erase_ifaces (sp_cross_host_links plan)
         = map erase_ifaces (cross_spec (tp_name topo) asg (tp_links topo))
     \<and> (\<forall>h \<in> set (dict_keys asg). host_ifaces (Some h) (sp_cross_host_links plan)
         = ensure_unique (host_ifaces (Some h) (cross_spec (tp_name topo) asg (tp_links topo))))"

lemma take_name_exn:
  "take_name e here f st = Inr r \<Longrightarrow> take_name e' here f st = Inr r"
  by (auto simp: take_name_def split: if_splits list.splits prod.splits)

lemma rename_host_exn: "rename_host e h us cs = Inr cs' \<Longrightarrow> rename_host e' h us cs = Inr cs'"
proof (induction e h us cs arbitrary: cs' rule: rename_host.induct)
  case (2 e h us c cs)
  then show ?case by (fastforce simp: bindE_eq_Inr dest: take_name_exn [where e' = e'])
qed simp

lemma rename_all_exn: "rename_all e ifs cs = Inr cs' \<Longrightarrow> rename_all e' ifs cs = Inr cs'"
  unfolding rename_all_def
proof (induction ifs arbitrary: cs)
  case (Cons hn ifs)
  then show ?case by (auto split: prod.splits sum.splits dest: rename_host_exn [where e' = e'])
qed simp

lemma schedule_links_ok:
  assumes ok: "dict_ok asg"
  obtains ifs cross' where
    "fold (sched_link (tp_name topo) asg) (tp_links topo)
       ([], [], 0, map (\<lambda>h. (Some h, [])) (dict_keys asg)) =
     (filter (is_local asg) (tp_links topo), cross_spec (tp_name topo) asg (tp_links topo),
      length (cross_spec (tp_name topo) asg (tp_links topo)), ifs)"
    "\<And>exn. rename_all exn ifs (cross_spec (tp_name topo) asg (tp_links topo)) = Inr cross'"
    "map erase_ifaces cross' = map erase_ifaces (cross_spec (tp_name topo) asg (tp_links topo))"
    "\<forall>h \<in> set (dict_keys asg). host_ifaces (Some h) cross'
       = ensure_unique (host_ifaces (Some h) (cross_spec (tp_name topo) asg (tp_links topo)))"
proof -
  let ?cs = "cross_spec (tp_name topo) asg (tp_links topo)"
  let ?ifs0 = "map (\<lambda>h. (Some h, [])) (dict_keys asg) :: ifaces"
  obtain ifs where "fold (sched_link (tp_name topo) asg) (tp_links topo) ([], [], 0, ?ifs0) =
       (filter (is_local asg) (tp_links topo), ?cs, length ?cs, ifs)
     \<and> ifaces_ok ifs ?cs \<and> fst ` set ?ifs0 \<subseteq> fst ` set ifs"
    using sched_links_fold [OF ifaces_ok_init [OF ok], of "tp_name topo" asg "tp_links topo"] by (rule exE)
  then have f: "fold (sched_link (tp_name topo) asg) (tp_links topo) ([], [], 0, ?ifs0) =
       (filter (is_local asg) (tp_links topo), ?cs, length ?cs, ifs)"
    and i: "ifaces_ok ifs ?cs" and k: "fst ` set ?ifs0 \<subseteq> fst ` set ifs"
    by simp_all
  have "dict_ok ifs" using i by (simp add: ifaces_ok_def)
  then obtain cross' where "rename_all IndexError ifs ?cs = Inr cross'
    \<and> map erase_ifaces cross' = map erase_ifaces ?cs
    \<and> (\<forall>h. host_ifaces h cross' =
            (if h \<in> fst ` set ifs then ensure_unique (host_ifaces h ?cs) else host_ifaces h ?cs))"
    using rename_all_ok [OF _ ifaces_ok_entries [OF i], of IndexError] by blast
  then have r: "rename_all IndexError ifs ?cs = Inr cross'"
    "map erase_ifaces cross' = map erase_ifaces ?cs"
    "\<And>h. h \<in> fst ` set ifs \<Longrightarrow> host_ifaces h cross' = ensure_unique (host_ifaces h ?cs)"
    by simp_all
  have "Some h \<in> fst ` set ifs" if "h \<in> set (dict_keys asg)" for h using k that by force
  then have "\<forall>h \<in> set (dict_keys asg). host_ifaces (Some h) cross' = ensure_unique (host_ifaces (Some h) ?cs)"
    using r(3) by blast
  then show ?thesis by (rule that [OF f rename_all_exn [OF r(1)] r(2)])
qed

lemma schedule_links_classified:
  assumes "dict_ok asg" and "schedule_links topo asg = Inr (plan, rls)"
  shows "links_classified topo asg plan \<and> sp_assignments plan = asg"
proof -
  show ?thesis
    by (rule schedule_links_ok [OF assms(1), of topo])
      (use assms(2) in \<open>auto simp: schedule_links_def links_classified_def bindE_eq_Inr\<close>)
qed

text \<open>Both loops over the links agree when every endpoint is scheduled.\<close>

definition links_scheduled :: "(string, host_assignment) dict \<Rightarrow> link list \<Rightarrow> bool" where
  "links_scheduled asg ls \<longleftrightarrow>
     (\<forall>l \<in> set ls. \<not> falsy (host_for_vd asg (lk_source l)) \<and> \<not> falsy (host_for_vd asg (lk_target l)))"

lemma classify_link_agrees:
  assumes "\<not> falsy (host_for_vd asg (lk_source l))" "\<not> falsy (host_for_vd asg (lk_target l))"
  shows "classify_link lab allow asg l (loc, cs, ifs) =
    (case sched_link lab asg l (loc, cs, length cs, ifs) of (loc', cs', n', ifs') \<Rightarrow> Inr (loc', cs', ifs'))"
  using assms by (simp add: classify_link_def sched_link_def Let_def)

lemma sched_link_counter:
  "sched_link lab asg l (loc, cs, length cs, ifs) = (loc', cs', n', ifs') \<Longrightarrow> n' = length cs'"
  by (auto simp: sched_link_def Let_def split: if_splits)

lemma classify_fold_agrees:
  assumes "links_scheduled asg ls"
  shows "foldE (classify_link lab allow asg) ls (loc, cs, ifs) =
    (case fold (sched_link lab asg) ls (loc, cs, length cs, ifs) of (loc', cs', n', ifs') \<Rightarrow> Inr (loc', cs', ifs'))"
  using assms
proof (induction ls arbitrary: loc cs ifs)
  case (Cons l ls)
  obtain loc1 cs1 n1 ifs1 where 1: "sched_link lab asg l (loc, cs, length cs, ifs) = (loc1, cs1, n1, ifs1)"
    by (metis prod_cases4)
  have "classify_link lab allow asg l (loc, cs, ifs) = Inr (loc1, cs1, ifs1)"
    using Cons.prems 1 by (subst classify_link_agrees) (auto simp: links_scheduled_def)
  moreover have "links_scheduled asg ls" using Cons.prems by (auto simp: links_scheduled_def)
  ultimately show ?case using Cons.IH 1 sched_link_counter [OF 1] by simp
qed simp

lemma place_real_net_allow:
  "place_real_net_links False asg rs = Inr rs' \<Longrightarrow> place_real_net_links allow asg rs = Inr rs'"
  by (induction rs arbitrary: rs') (auto simp: Let_def bindE_eq_Inr split: if_splits)

lemma compute_schedule_ok:
  assumes "dict_ok hosts" and "compute_schedule topo vds hosts prefs = Inr (plan, rls)"
  shows "\<exists>st. place_inv hosts (sorted_vds vds) st \<and> dict_ok (ps_assignments st)
     \<and> schedule_links topo (ps_assignments st) = Inr (plan, rls)
     \<and> links_classified topo (ps_assignments st) plan \<and> sp_assignments plan = ps_assignments st"
proof -
  obtain st where st: "place_all hosts prefs vds = Inr st"
    and s: "schedule_links topo (ps_assignments st) = Inr (plan, rls)"
    using assms(2) by (auto simp: compute_schedule_def bindE_eq_Inr split: if_splits)
  have inv: "place_inv hosts (sorted_vds vds) st" using place_all_inv [OF assms(1) st] .
  then have ok: "dict_ok (ps_assignments st)"
    using assms(1) by (auto simp: place_inv_def represents_def)
  show ?thesis using inv ok s schedule_links_classified [OF ok s] by blast
qed

lemma mset_sorted_vds [simp]: "mset (sorted_vds vds) = mset (dict_values vds)"
  by (simp add: sorted_vds_def)

lemma sum_list_split:
  fixes f :: "vd_resources \<Rightarrow> int"
  assumes "mset vs = sum_list (map (\<lambda>h. mset (p h)) ks)"
  shows "sum_list (map f vs) = sum_list (map (\<lambda>h. sum_list (map f (p h))) ks)"
proof -
  have "sum_mset (image_mset f (sum_list (map (\<lambda>h. mset (p h)) ks))) =
      sum_list (map (\<lambda>h. sum_list (map f (p h))) ks)"
    by (induction ks) (simp_all add: sum_mset_sum_list flip: mset_map)
  then show ?thesis using assms by (metis mset_map sum_mset_sum_list)
qed

lemma choose_host_none:
  assumes "choose_host hosts prefs st vd = None"
  shows "\<forall>h \<in> set (dict_keys hosts). \<not> can_fit st vd h"
proof -
  have "candidates hosts st vd m = []" for m
    using assms by (cases m) (auto simp: choose_host_def Let_def split: option.splits if_splits)
  then have "hr_is_master hr = m \<Longrightarrow> (h, hr) \<in> set hosts \<Longrightarrow> \<not> can_fit st vd h" for h hr m
    by (auto simp: candidates_def filter_empty_conv)
  then show ?thesis by auto
qed

lemma place_all_error:
  "place_all hosts prefs vds = Inl e \<Longrightarrow> \<exists>n c r. e = NoHostFits n c r"
  unfolding place_all_def by (drule foldE_error) (auto simp: place_vd_def split: option.splits)

lemma rename_host_error: "rename_host exn h us cs = Inl e \<Longrightarrow> e = exn"
  by (induction exn h us cs rule: rename_host.induct)
    (auto simp: bindE_eq_Inl take_name_def split: if_splits list.splits prod.splits)

lemma rename_all_error: "rename_all exn ifs cs = Inl e \<Longrightarrow> e = exn"
  unfolding rename_all_def by (drule foldE_error) (auto dest: rename_host_error split: prod.splits)

lemma place_real_net_error:
  "place_real_net_links allow asg rs = Inl e \<Longrightarrow>
     \<exists>r \<in> set rs. e = RealNetUnscheduled (rl_real_net r) (rl_node r) \<and> falsy (host_for_vd asg (rl_node r))"
  by (induction rs) (auto simp: Let_def bindE_eq_Inl split: if_splits)

lemma schedule_links_error:
  assumes "schedule_links topo asg = Inl e"
  shows "e = IndexError \<or> (\<exists>r \<in> set (tp_real_net_links topo). e = RealNetUnscheduled (rl_real_net r) (rl_node r))"
proof -
  obtain loc cs n ifs where "fold (sched_link (tp_name topo) asg) (tp_links topo)
             ([], [], 0, map (\<lambda>h. (Some h, [])) (dict_keys asg)) = (loc, cs, n, ifs)"
    by (metis prod_cases4)
  then show ?thesis
    using assms by (auto simp: schedule_links_def bindE_eq_Inl dest: rename_all_error place_real_net_error)
qed

lemma schedule_links_error_real:
  assumes "dict_ok asg" and "schedule_links topo asg = Inl e"
  shows "\<exists>r \<in> set (tp_real_net_links topo). e = RealNetUnscheduled (rl_real_net r) (rl_node r)
     \<and> falsy (host_for_vd asg (rl_node r))"
  by (rule schedule_links_ok [OF assms(1), of topo])
    (use assms(2) place_real_net_error in \<open>auto simp: schedule_links_def bindE_eq_Inl\<close>)

text \<open>A device the placement covers has a host, and only a host without a name makes it look unscheduled.\<close>

lemma represents_scheduled:
  assumes "represents hosts asg p" "valid_placement hosts vs p" "n \<in> vr_name ` set vs"
  shows "\<exists>h. host_for_vd asg n = Some h \<and> h \<in> set (dict_keys hosts)"
proof -
  obtain v where v: "n = vr_name v" "v \<in># mset vs" using assms(3) by auto
  have "v \<in># sum_list (map (\<lambda>h. mset (p h)) (dict_keys hosts))" using v(2) assms(2) unfolding valid_placement_def by (simp only:)
  then obtain h where h: "h \<in> set (dict_keys hosts)" "v \<in> set (p h)" by auto
  then obtain a where "dict_get asg h = Some a" "n \<in> set (ha_vd_names a)"
    using assms(1) v(1) by (fastforce simp: represents_def)
  then have "host_for_vd asg n \<noteq> None" by (auto simp: host_for_vd_None dest: map_of_SomeD)
  then obtain h' where h': "host_for_vd asg n = Some h'" by blast
  then have "h' \<in> set (dict_keys asg)" by (force dest: host_for_vd_Some)
  moreover have "dict_keys asg = dict_keys hosts" using assms(1) unfolding represents_def by blast
  ultimately show ?thesis using h' by simp
qed

lemma falsy_unscheduled:
  assumes "represents hosts asg p" "valid_placement hosts vs p" "falsy (host_for_vd asg n)"
  shows "n \<notin> vr_name ` set vs \<or> [] \<in> set (dict_keys hosts)"
  using represents_scheduled [OF assms(1,2), of n] assms(3) by (auto simp: falsy_def)

lemma compute_schedule_insufficient:
  assumes "compute_schedule topo vds hosts prefs = Inl (InsufficientResources c r c' r')"
  shows "\<not> feasible vds hosts"
proof
  assume "feasible vds hosts"
  then show False
    using assms by (auto simp: compute_schedule_def bindE_eq_Inl dest: place_all_error schedule_links_error)
qed

section \<open>Properties\<close>

text \<open>
  C2: a schedule that is returned is a valid placement. Every device of the request is
  assigned to exactly one host, a host's bookkeeping is the sum of the devices it got,
  and no host is given more CPU or memory than it has.
\<close>

theorem compute_schedule_valid:
  assumes "dict_ok hosts" and "compute_schedule topo vds hosts prefs = Inr (plan, rls)"
  shows "\<exists>p. valid_placement hosts (dict_values vds) p \<and> represents hosts (sp_assignments plan) p"
  using compute_schedule_ok [OF assms] by (auto simp: place_inv_def valid_placement_def)

text \<open>
  C18: when the scheduler reports insufficient resources, no placement of the devices on the
  hosts exists at all (the hosts' free resources being non-negative).
\<close>

theorem insufficient_resources_sound:
  assumes "compute_schedule topo vds hosts prefs = Inl (InsufficientResources c r c' r')"
    and "\<And>h hr. (h, hr) \<in> set hosts \<Longrightarrow> 0 \<le> hr_cpu_available hr \<and> 0 \<le> hr_ram_mb_available hr"
  shows "\<not> valid_placement hosts (dict_values vds) p"
proof
  assume v: "valid_placement hosts (dict_values vds) p"
  have le: "sum_list (map f (dict_values vds)) \<le> sum_list (map g (dict_values hosts))"
    if "\<And>h hr. (h, hr) \<in> set hosts \<Longrightarrow> sum_list (map f (p h)) \<le> g hr"
    for f :: "vd_resources \<Rightarrow> int" and g :: "host_resources \<Rightarrow> int"
  proof -
    have "sum_list (map f (dict_values vds)) = sum_list (map (\<lambda>x. sum_list (map f (p (fst x)))) hosts)"
      using v sum_list_split [of "dict_values vds" p "dict_keys hosts" f]
      by (simp add: valid_placement_def comp_def)
    also have "\<dots> \<le> sum_list (map (\<lambda>x. g (snd x)) hosts)"
      using that by (intro sum_list_mono) auto
    finally show ?thesis by (simp add: comp_def)
  qed
  have bound: "cpu_load (p h) \<le> hr_cpu_available hr \<and> ram_load (p h) \<le> hr_ram_mb_available hr"
    if "(h, hr) \<in> set hosts" for h hr
    using v assms(2) [OF that] that unfolding valid_placement_def by (cases "p h") fastforce+
  have "feasible vds hosts"
    using le [of vr_cpu hr_cpu_available] le [of vr_ram_mb hr_ram_mb_available] bound
    by (auto simp: feasible_def not_less)
  then show False
    using assms(1) compute_schedule_insufficient by blast

qed

text \<open>
  C19: the scheduler fails for three reasons only. Besides insufficient totals, some device
  fits no host after the heavier ones were placed as far as the run came, or a real-net link
  names a node that is none of the devices to schedule. (A host with an empty name counts as no host in
  that test, so the last reason asks that no host has one.) The list of unique interface names never
  runs out.
\<close>

theorem compute_schedule_errors:
  assumes "dict_ok hosts" and "compute_schedule topo vds hosts prefs = Inl e"
  shows "(\<exists>c r c' r'. e = InsufficientResources c r c' r' \<and> \<not> feasible vds hosts)
    \<or> (\<exists>vd st. e = NoHostFits (vr_name vd) (vr_cpu vd) (vr_ram_mb vd)
          \<and> vd \<in> set (dict_values vds)
          \<and> (\<exists>ws. mset ws \<subseteq># mset (dict_values vds) \<and> place_inv hosts ws st)
          \<and> (\<forall>h \<in> set (dict_keys hosts). \<not> can_fit st vd h))
    \<or> (\<exists>r \<in> set (tp_real_net_links topo). e = RealNetUnscheduled (rl_real_net r) (rl_node r)
          \<and> (rl_node r \<notin> vr_name ` set (dict_values vds) \<or> [] \<in> set (dict_keys hosts)))"
proof (cases "feasible vds hosts")
  case False
  then show ?thesis using assms(2) by (auto simp: compute_schedule_def)
next
  case True
  show ?thesis
  proof (cases "place_all hosts prefs vds")
    case (Inl e')
    then have "e' = e" using assms(2) True by (simp add: compute_schedule_def)
    with Inl obtain ys vd zs st where sp: "sorted_vds vds = ys @ vd # zs"
      and run: "foldE (place_vd hosts prefs) ys (init_state hosts) = Inr st"
      and err: "place_vd hosts prefs vd st = Inl e"
      unfolding place_all_def by (blast dest: foldE_error)
    have inv: "place_inv hosts ys st" using place_run_inv [OF assms(1) place_inv_init run] assms(1) by simp
    have no: "choose_host hosts prefs st vd = None" and e: "e = NoHostFits (vr_name vd) (vr_cpu vd) (vr_ram_mb vd)"
      using err by (auto simp: place_vd_def split: option.splits)
    have "mset (dict_values vds) = mset ys + mset (vd # zs)" using mset_sorted_vds [of vds] sp by simp
    then have "mset ys \<subseteq># mset (dict_values vds)" "vd \<in> set (dict_values vds)"
      by (auto simp flip: set_mset_mset)
    then show ?thesis using inv e choose_host_none [OF no] by blast
  next
    case (Inr st)
    then have s: "schedule_links topo (ps_assignments st) = Inl e"
      using assms(2) True by (simp add: compute_schedule_def)
    obtain p where p: "represents hosts (ps_assignments st) p" "valid_placement hosts (sorted_vds vds) p"
      using place_all_inv [OF assms(1) Inr] by (auto simp: place_inv_def)
    then have "dict_ok (ps_assignments st)" using assms(1) by (simp add: represents_def)
    from schedule_links_error_real [OF this s] obtain r where r: "r \<in> set (tp_real_net_links topo)"
      "e = RealNetUnscheduled (rl_real_net r) (rl_node r)" "falsy (host_for_vd (ps_assignments st) (rl_node r))" by blast
    have "set (sorted_vds vds) = set (dict_values vds)" by (simp flip: set_mset_mset add: mset_sorted_vds)
    then show ?thesis using r(1,2) falsy_unscheduled [OF p r(3)] by auto
  qed
qed

text \<open>
  C17: the plan classifies the links of the topology completely and in order. Exactly the
  links between devices on one host are local; the others become cross-host links whose
  VXLAN identifiers count up from the lab's base without a gap, and the names they use on
  a host are \<open>ensure_unique\<close> of the generated ones, in order.
\<close>

theorem compute_schedule_links:
  assumes "dict_ok hosts" and "compute_schedule topo vds hosts prefs = Inr (plan, rls)"
  shows "links_classified topo (sp_assignments plan) plan
    \<and> map ch_vxlan_id (sp_cross_host_links plan) =
        map (\<lambda>i. dataplane_vxlan_base (tp_name topo) + i) [0..<length (sp_cross_host_links plan)]"
proof -
  have cl: "links_classified topo (sp_assignments plan) plan"
    using compute_schedule_ok [OF assms] by auto
  let ?cs = "cross_spec (tp_name topo) (sp_assignments plan) (tp_links topo)"
  have e: "map erase_ifaces (sp_cross_host_links plan) = map erase_ifaces ?cs"
    using cl by (simp add: links_classified_def)
  have "map ch_vxlan_id cs = map ch_vxlan_id (map erase_ifaces cs)" for cs
    by (simp add: comp_def erase_ifaces_def)
  then have "map ch_vxlan_id (sp_cross_host_links plan) = map ch_vxlan_id ?cs" using e by metis
  moreover have "length (sp_cross_host_links plan) = length ?cs" using e by (metis length_map)
  moreover have "map ch_vxlan_id ?cs = map (\<lambda>i. dataplane_vxlan_base (tp_name topo) + i) [0..<length ?cs]"
    by (rule nth_equalityI) (auto simp: cross_spec_def cross_of_def make_cross_def nth_enumerate_eq)
  ultimately show ?thesis using cl by simp
qed

text \<open>
  C39: \<open>classify_links\<close> and the classification inside \<open>compute_schedule\<close> are two copies of one
  algorithm: run on a plan that \<open>compute_schedule\<close> returned, it reproduces that plan and the
  placement of the real-net links, in either mode, as long as every link joins scheduled devices.
\<close>

theorem classify_links_agrees:
  assumes "dict_ok hosts" and "compute_schedule topo vds hosts prefs = Inr (plan, rls)"
    and "links_scheduled (sp_assignments plan) (tp_links topo)"
  shows "classify_links topo plan allow = Inr (plan, rls)"
proof -
  let ?asg = "sp_assignments plan"
  have ok: "dict_ok ?asg" and s: "schedule_links topo ?asg = Inr (plan, rls)"
    using compute_schedule_ok [OF assms(1,2)] by auto
  show ?thesis
  proof (rule schedule_links_ok [OF ok, of topo])
    fix ifs cross'
    let ?cs = "cross_spec (tp_name topo) ?asg (tp_links topo)"
    assume f: "fold (sched_link (tp_name topo) ?asg) (tp_links topo)
       ([], [], 0, map (\<lambda>h. (Some h, [])) (dict_keys ?asg)) =
         (filter (is_local ?asg) (tp_links topo), ?cs, length ?cs, ifs)"
      and r: "\<And>exn. rename_all exn ifs ?cs = Inr cross'"
    have "foldE (classify_link (tp_name topo) allow ?asg) (tp_links topo)
       ([], [], map (\<lambda>h. (Some h, [])) (dict_keys ?asg)) =
         Inr (filter (is_local ?asg) (tp_links topo), ?cs, ifs)"
      using classify_fold_agrees [of ?asg "tp_links topo" "tp_name topo" allow "[]" "[]"]
        assms(3) f by simp
    then show ?thesis
      using s f r place_real_net_allow [of ?asg "tp_real_net_links topo" rls allow]
      by (cases plan) (auto simp: schedule_links_def classify_links_def bindE_eq_Inr)
  qed
qed

text \<open>
  The placement policy. A sticky preference wins whenever the device still fits there;
  otherwise the master is used only when no worker can take the device, and among the
  eligible hosts one with the fewest devices is chosen.
\<close>

theorem choose_host_policy:
  assumes "dict_ok hosts"
  shows "(h \<in> set (dict_keys hosts) \<and> can_fit st vd h \<and> dict_get prefs (vr_name vd) = Some h
            \<longrightarrow> choose_host hosts prefs st vd = Some h)
    \<and> (choose_host hosts prefs st vd = Some h \<and> dict_get prefs (vr_name vd) \<noteq> Some h
         \<and> (h, hr) \<in> set hosts \<longrightarrow>
       (hr_is_master hr \<longrightarrow> candidates hosts st vd False = [])
       \<and> (\<forall>h' \<in> set (candidates hosts st vd (hr_is_master hr)).
            fst (candidate_key st h') \<le> fst (candidate_key st h)))"
proof -
  have key: "fst (candidate_key st h') \<le> fst (candidate_key st h)"
    if "py_max (candidate_key st) (candidates hosts st vd m) = Some h"
      "h' \<in> set (candidates hosts st vd m)" for m h'
    using py_max_ge [OF that] by (auto simp: less_eq_prod_def)
  have mem: "hr_is_master hr = m"
    if "py_max (candidate_key st) (candidates hosts st vd m) = Some h" "(h, hr) \<in> set hosts" for m
    using py_max_mem [OF that(1)] that(2) assms
    by (auto simp: candidates_def) (metis eq_key_imp_eq_value)+
  show ?thesis
    using key mem by (auto simp: choose_host_def Let_def split: option.splits if_splits)
qed

section \<open>Example\<close>

text \<open>Two hosts, two devices that do not fit on the worker together, and one link between them.\<close>

definition ex_host :: "string \<Rightarrow> int \<Rightarrow> int \<Rightarrow> bool \<Rightarrow> host_resources" where
  "ex_host n c r m = \<lparr>hr_name = n, hr_host = ''10.0.0.'' @ n, hr_cpu_available = c,
     hr_ram_mb_available = r, hr_is_master = m\<rparr>"

definition ex_vd :: "string \<Rightarrow> int \<Rightarrow> int \<Rightarrow> vd_resources" where
  "ex_vd n c r = \<lparr>vr_name = n, vr_image = ''img'', vr_cpu = c, vr_ram_mb = r,
     vr_cpu_source = [], vr_ram_mb_source = []\<rparr>"

definition ex_hosts :: "(string, host_resources) dict" where
  "ex_hosts = [(''master'', ex_host ''1'' 4 8192 True), (''w1'', ex_host ''2'' 4 8192 False)]"

definition ex_vds :: "(string, vd_resources) dict" where
  "ex_vds = [(''r1'', ex_vd ''r1'' 2 4096), (''r2'', ex_vd ''r2'' 4 4096)]"

definition ex_link :: link where
  "ex_link = \<lparr>lk_source = ''r1'', lk_source_iface = ''eth1'', lk_target = ''r2'', lk_target_iface = ''eth1''\<rparr>"

definition ex_mgmt :: mgmt_config where
  "ex_mgmt = \<lparr>mg_network = ''net'', mg_bridge = ''br-net'', mg_ipv4_subnet = ''10.1.0.0/24'',
     mg_ipv4_gw = ''10.1.0.254'', mg_docker_ipv4_gw = ''10.1.0.1'', mg_ipv6_subnet = [], mg_ipv6_gw = []\<rparr>"

definition ex_topo :: topology where
  "ex_topo = \<lparr>tp_name = ''lab'',
     tp_master = \<lparr>ih_name = ''master'', ih_host = ''10.0.0.1'', ih_ssh_user = ''root'', ih_ssh_key = [], ih_is_master = True\<rparr>,
     tp_workers = [], tp_nodes = [], tp_links = [ex_link], tp_mgmt = ex_mgmt, tp_real_nets = [],
     tp_real_net_links = [], tp_resource_specs = []\<rparr>"

lemmas ex_defs = ex_host_def ex_vd_def ex_hosts_def ex_vds_def ex_link_def ex_mgmt_def ex_topo_def

lemmas place_defs = place_all_def place_vd_def choose_host_def candidates_def candidate_key_def can_fit_def
  assign_vd_def dict_upd_def init_state_def init_host_def sorted_vds_def weight_def dict_get_or_def

definition ex_assignments :: "(string, host_assignment) dict" where
  "ex_assignments =
     [(''master'', \<lparr>ha_host_name = ''master'', ha_host_ip = ''10.0.0.1'', ha_vd_names = [''r1''],
        ha_cpu_used = 2, ha_ram_mb_used = 4096\<rparr>),
      (''w1'', \<lparr>ha_host_name = ''w1'', ha_host_ip = ''10.0.0.2'', ha_vd_names = [''r2''],
        ha_cpu_used = 4, ha_ram_mb_used = 4096\<rparr>)]"

lemma ex_place: "\<exists>st. place_all ex_hosts [] ex_vds = Inr st \<and> ps_assignments st = ex_assignments"
  by (simp add: ex_defs place_defs ex_assignments_def)

lemma schedule_links_total:
  assumes "dict_ok asg" and "tp_real_net_links topo = []"
  shows "\<exists>plan rls. schedule_links topo asg = Inr (plan, rls) \<and> sp_assignments plan = asg"
  by (rule schedule_links_ok [OF assms(1), of topo]) (simp add: schedule_links_def assms(2))

lemma ex_schedule:
  "\<exists>plan rls. compute_schedule ex_topo ex_vds ex_hosts [] = Inr (plan, rls) \<and> sp_assignments plan = ex_assignments"
proof -
  obtain st where st: "place_all ex_hosts [] ex_vds = Inr st" "ps_assignments st = ex_assignments"
    using ex_place by blast
  have "feasible ex_vds ex_hosts" by (simp add: feasible_def ex_defs)
  moreover have "\<exists>plan rls. schedule_links ex_topo ex_assignments = Inr (plan, rls) \<and> sp_assignments plan = ex_assignments"
    by (rule schedule_links_total) (simp_all add: ex_assignments_def ex_topo_def)
  ultimately show ?thesis using st by (simp add: compute_schedule_def)
qed

lemma ex_hosts_ok: "dict_ok ex_hosts"
  by (simp add: ex_defs)

theorem compute_schedule_valid_witness:
  "\<exists>plan rls p. compute_schedule ex_topo ex_vds ex_hosts [] = Inr (plan, rls)
     \<and> valid_placement ex_hosts (dict_values ex_vds) p \<and> represents ex_hosts ex_assignments p"
  using ex_schedule compute_schedule_valid [OF ex_hosts_ok, of ex_topo ex_vds "[]"] by metis

theorem insufficient_resources_sound_witness:
  "compute_schedule ex_topo ex_vds [(''master'', ex_host ''1'' 1 1 True)] [] = Inl (InsufficientResources 6 8192 1 1)
   \<and> \<not> valid_placement [(''master'', ex_host ''1'' 1 1 True)] (dict_values ex_vds) (\<lambda>_. dict_values ex_vds)"
proof -
  have e: "compute_schedule ex_topo ex_vds [(''master'', ex_host ''1'' 1 1 True)] []
      = Inl (InsufficientResources 6 8192 1 1)"
    by (simp add: compute_schedule_def feasible_def ex_defs)
  show ?thesis using e insufficient_resources_sound [OF e, of "\<lambda>_. dict_values ex_vds"]
    by (simp add: ex_host_def)
qed

theorem compute_schedule_errors_witness:
  "compute_schedule ex_topo ex_vds [(''m'', ex_host ''1'' 3 8192 True), (''w'', ex_host ''2'' 3 8192 False)] []
     = Inl (NoHostFits ''r2'' 4 4096)
   \<and> (\<exists>vd st. NoHostFits ''r2'' 4 4096 = NoHostFits (vr_name vd) (vr_cpu vd) (vr_ram_mb vd)
        \<and> (\<forall>h \<in> set (dict_keys [(''m'', ex_host ''1'' 3 8192 True), (''w'', ex_host ''2'' 3 8192 False)]).
             \<not> can_fit st vd h))"
proof -
  let ?hs = "[(''m'', ex_host ''1'' 3 8192 True), (''w'', ex_host ''2'' 3 8192 False)]"
  have e: "compute_schedule ex_topo ex_vds ?hs [] = Inl (NoHostFits ''r2'' 4 4096)"
    by (simp add: compute_schedule_def feasible_def ex_defs place_defs)
  have "dict_ok ?hs" by simp
  from compute_schedule_errors [OF this e] show ?thesis using e by auto
qed

theorem compute_schedule_links_witness:
  "\<exists>plan rls. compute_schedule ex_topo ex_vds ex_hosts [] = Inr (plan, rls)
     \<and> links_classified ex_topo ex_assignments plan \<and> sp_local_links plan = []"
proof -
  obtain plan rls where p: "compute_schedule ex_topo ex_vds ex_hosts [] = Inr (plan, rls)"
    "sp_assignments plan = ex_assignments" using ex_schedule by blast
  have "links_classified ex_topo ex_assignments plan"
    using compute_schedule_links [OF ex_hosts_ok p(1)] p(2) by simp
  moreover then have "sp_local_links plan = []"
    by (simp add: links_classified_def ex_defs is_local_def host_for_vd_def ex_assignments_def)
  ultimately show ?thesis using p by blast
qed

theorem classify_links_agrees_witness:
  "\<exists>plan rls. compute_schedule ex_topo ex_vds ex_hosts [] = Inr (plan, rls)
     \<and> classify_links ex_topo plan True = Inr (plan, rls)"
proof -
  obtain plan rls where p: "compute_schedule ex_topo ex_vds ex_hosts [] = Inr (plan, rls)"
    "sp_assignments plan = ex_assignments" using ex_schedule by blast
  have "links_scheduled (sp_assignments plan) (tp_links ex_topo)"
    by (simp add: p(2) links_scheduled_def ex_defs host_for_vd_def ex_assignments_def falsy_def)
  then show ?thesis using classify_links_agrees [OF ex_hosts_ok p(1)] p(1) by blast
qed

theorem choose_host_policy_witness:
  "choose_host ex_hosts [] (init_state ex_hosts) (ex_vd ''r2'' 4 4096) = Some ''w1''
   \<and> choose_host ex_hosts [(''r2'', ''master'')] (init_state ex_hosts) (ex_vd ''r2'' 4 4096) = Some ''master''
   \<and> fst (candidate_key (init_state ex_hosts) ''w1'') \<le> fst (candidate_key (init_state ex_hosts) ''w1'')"
proof -
  have "choose_host ex_hosts [] (init_state ex_hosts) (ex_vd ''r2'' 4 4096) = Some ''w1''"
    by (simp add: ex_defs place_defs)
  then show ?thesis
    using choose_host_policy [OF ex_hosts_ok, of "''master''" "init_state ex_hosts" "ex_vd ''r2'' 4 4096"
        "[(''r2'', ''master'')]"]
    by (simp add: ex_defs place_defs)
qed

end
