(* ===== verification/PlanLab.thy ===== *)
theory PlanLab
  imports Persistence Resources Scheduler
begin

text \<open>
  The planning pipeline, \<open>PlanController.run\<close> of \<open>controllers/plan.py\<close>: read the topology, assign
  management addresses, extract resources, check the images, query the hosts and compute the
  schedule. Connecting to the hosts and closing the connections is left out.
\<close>

section \<open>The pipeline\<close>

datatype plan_error =
    TopologyFailed topo_error | AddressesFailed config_error | ResourcesFailed resource_error
  | CommandFailed exn | ImagesNotAligned "(string, string list) dict" | SchedulingFailed schedule_error

text \<open>
  Everything outside the program: the site, the parsers, the files (topology, hosts, states of labs,
  cache of images, placement history), docker, what the hosts answer, the iteration order of sets.
\<close>

record surroundings =
  sr_site :: site
  sr_json :: json
  sr_read :: "string \<Rightarrow> document"
  sr_states :: "(string \<times> string) list"
  sr_hosts_file :: "string option"
  sr_file :: "(string \<times> document) option"
  sr_previous :: "string \<Rightarrow> deployment_state option"
  sr_iter :: "string set \<Rightarrow> string list"
  sr_docker :: "string \<Rightarrow> string option"
  sr_cache :: image_cache
  sr_no_cache :: bool
  sr_env :: env
  sr_ask :: "string \<Rightarrow> string \<Rightarrow> string + string"
  sr_history :: "yvalue option"

record lab_plan =
  lp_topo :: lab_topology
  lp_ledger :: ledger
  lp_resources :: "(string, vd_resources) dict"
  lp_host_resources :: "(string, host_resources) dict"
  lp_plan :: schedule_plan

definition images_of :: "lab_topology \<Rightarrow> (string, string) dict" where
  "images_of t = map (\<lambda>(n, nd). (n, nd_image nd)) (tp_nodes t)"

definition placement_preferences :: "surroundings \<Rightarrow> lab_topology \<Rightarrow> (string, string) dict" where
  "placement_preferences w t =
     (if pc_backend (lt_persistence t) = ''local-sticky''
      then load_placement_preferences (sr_history w) (tp_nodes t) else [])"

definition with_addresses :: "surroundings \<Rightarrow> lab_topology \<Rightarrow> plan_error + lab_topology \<times> ledger" where
  "with_addresses w t =
     (let reservations = (case sr_previous w (tp_name t) of None \<Rightarrow> [] | Some s \<Rightarrow> dep_mgmt_ip_reservations s)
      in bindE (map_sum AddressesFailed id
           (assign_sticky_mgmt_ipv4 (tp_nodes t) (mg_ipv4_subnet (tp_mgmt t)) reservations))
         (\<lambda>na. Inr (t\<lparr>tp_nodes := fst na\<rparr>, snd na)))"

definition check_images :: "surroundings \<Rightarrow> lab_topology \<Rightarrow> plan_error + unit" where
  "check_images w t =
     bindE (map_sum CommandFailed id
       (fst (check_images_on_hosts (sr_env w) (set (dict_values (images_of t))) (dict_keys (all_hosts (topology.truncate t))) [])))
       (\<lambda>missing. if missing \<noteq> [] then Inl (ImagesNotAligned missing) else Inr ())"

text \<open>Phases 1 to 5, once the nodes have their addresses.\<close>

definition plan_phases :: "surroundings \<Rightarrow> lab_topology \<times> ledger \<Rightarrow> plan_error + lab_plan" where
  "plan_phases w ta =
     (let t = fst ta; base = topology.truncate t in
     bindE (map_sum ResourcesFailed id
       (snd (extract_resources (sr_iter w) (sr_docker w) (images_of t) (sr_cache w) (sr_no_cache w) (tp_nodes t)
          (tp_resource_specs t)))) (\<lambda>resources.
     bindE (check_images w t) (\<lambda>_.
     bindE (map_sum SchedulingFailed id (gather_host_resources (sr_ask w) (all_host_ips base))) (\<lambda>hrs.
     bindE (map_sum SchedulingFailed id (compute_schedule base resources hrs (placement_preferences w t))) (\<lambda>pr.
     Inr \<lparr>lp_topo = t\<lparr>tp_real_net_links := snd pr\<rparr>, lp_ledger = snd ta, lp_resources = resources,
          lp_host_resources = hrs, lp_plan = fst pr\<rparr>)))))"

definition run_plan :: "surroundings \<Rightarrow> plan_error + lab_plan" where
  "run_plan w =
     bindE (map_sum TopologyFailed id
       (parse_topology (sr_site w) (sr_json w) (sr_read w) (sr_states w) (sr_hosts_file w) None (sr_file w))) (\<lambda>parsed.
     bindE (with_addresses w parsed) (plan_phases w))"

section \<open>What a plan promises\<close>

text \<open>The devices on the hosts are the given ones, each on one host and there once.\<close>

definition scheduled_once :: "(string, host_assignment) dict \<Rightarrow> string list \<Rightarrow> bool" where
  "scheduled_once asg names \<longleftrightarrow> mset (concat (map ha_vd_names (dict_values asg))) = mset names"

definition within_capacity :: "(string, host_resources) dict \<Rightarrow> (string, host_assignment) dict \<Rightarrow> bool" where
  "within_capacity hrs asg \<longleftrightarrow>
     list_all2 (\<lambda>(h, hr) (g, a). g = h \<and> (ha_vd_names a = []
        \<or> ha_cpu_used a \<le> hr_cpu_available hr \<and> ha_ram_mb_used a \<le> hr_ram_mb_available hr)) hrs asg"

definition plan_ok :: "lab_plan \<Rightarrow> bool" where
  "plan_ok p \<longleftrightarrow> (let t = lp_topo p; asg = sp_assignments (lp_plan p) in
     (\<exists>net. ipv4_network (mg_ipv4_subnet (tp_mgmt t)) = Some net \<and> address_plan net (tp_nodes t))
   \<and> dict_keys asg = dict_keys (all_hosts (topology.truncate t))
   \<and> scheduled_once asg (dict_keys (tp_nodes t))
   \<and> within_capacity (lp_host_resources p) asg
   \<and> links_classified (topology.truncate t) asg (lp_plan p)
   \<and> list_all (\<lambda>l. host_for_vd asg (lk_source l) \<noteq> None \<and> host_for_vd asg (lk_target l) \<noteq> None) (tp_links t))"

lemma dict_keys_resources:
  "list_all2 (\<lambda>(n, img) (m, r). m = n \<and> vr_name r = n \<and> P img r) images new \<Longrightarrow>
     map vr_name (dict_values new) = dict_keys images"
  by (induction rule: list_all2_induct) auto

lemma asg_names:
  assumes "represents hrs asg p" "dict_ok hrs"
  shows "map ha_vd_names (dict_values asg) = map (\<lambda>h. map vr_name (p h)) (dict_keys hrs)"
proof -
  have k: "dict_keys asg = dict_keys hrs" and
    g: "\<And>h. h \<in> set (dict_keys hrs) \<Longrightarrow> \<exists>a. dict_get asg h = Some a \<and> ha_vd_names a = map vr_name (p h)"
    using assms(1) unfolding represents_def by blast+
  have "dict_ok asg" using k assms(2) by simp
  have "map ha_vd_names (dict_values asg) = map (\<lambda>ha. map vr_name (p (fst ha))) asg"
  proof (subst map_map, rule map_cong [OF refl])
    fix ha assume h: "ha \<in> set asg"
    then have "dict_get asg (fst ha) = Some (snd ha)" using \<open>dict_ok asg\<close> by (simp add: map_of_is_SomeI)
    moreover have "fst ha \<in> set (dict_keys hrs)" using h k by (metis image_eqI set_map)
    ultimately show "(ha_vd_names \<circ> snd) ha = map vr_name (p (fst ha))" using g [of "fst ha"] by auto
  qed
  also have "\<dots> = map (\<lambda>h. map vr_name (p h)) (dict_keys asg)" by simp
  finally show ?thesis using k by simp
qed

lemma mset_concat_sum: "mset (concat xss) = sum_list (map mset xss)"
  by (induction xss) auto

lemma sum_list_image_mset: "image_mset f (sum_list (map g hs)) = sum_list (map (\<lambda>h. image_mset f (g h)) hs)"
  by (induction hs) auto

lemma placed_once:
  assumes "represents hrs asg p" "valid_placement hrs vs p" "dict_ok hrs"
  shows "scheduled_once asg (map vr_name vs)"
proof -
  have "mset (map vr_name vs) = sum_list (map (\<lambda>h. mset (map vr_name (p h))) (dict_keys hrs))"
    using assms(2) sum_list_image_mset [of vr_name "\<lambda>h. mset (p h)" "dict_keys hrs"]
    by (simp add: valid_placement_def)
  then show ?thesis
    unfolding scheduled_once_def mset_concat_sum asg_names [OF assms(1,3)] by (simp add: comp_def)
qed

lemma placed_within:
  assumes r: "represents hrs asg p" and v: "valid_placement hrs vs p" and d: "dict_ok hrs"
  shows "within_capacity hrs asg"
proof -
  have k: "map fst asg = map fst hrs" using r by (simp add: represents_def)
  then have len: "length asg = length hrs" by (metis length_map)
  have ok: "dict_ok asg" using k d by simp
  have "(\<lambda>(h, hr) (g, a). g = h \<and> (ha_vd_names a = []
        \<or> ha_cpu_used a \<le> hr_cpu_available hr \<and> ha_ram_mb_used a \<le> hr_ram_mb_available hr)) (hrs ! i) (asg ! i)"
    if i: "i < length hrs" for i
  proof -
    obtain h hr a where e: "hrs ! i = (h, hr)" "asg ! i = (h, a)"
      using k i len by (metis nth_map prod.collapse)
    have m: "(h, hr) \<in> set hrs" "(h, a) \<in> set asg" using e i len by (metis nth_mem)+
    then have "dict_get asg h = Some a" using ok by (simp add: map_of_is_SomeI)
    moreover obtain a' where "dict_get asg h = Some a'" "ha_vd_names a' = map vr_name (p h)"
      "ha_cpu_used a' = cpu_load (p h)" "ha_ram_mb_used a' = ram_load (p h)"
      using r m(1) by (force simp: represents_def)
    ultimately show ?thesis using v m(1) e by (auto simp: valid_placement_def)
  qed
  then show ?thesis using len by (simp add: within_capacity_def list_all2_conv_all_nth)
qed

lemma scheduled_host: "scheduled_once asg names \<Longrightarrow> n \<in> set names \<Longrightarrow> host_for_vd asg n \<noteq> None"
proof -
  assume "scheduled_once asg names" "n \<in> set names"
  then have "n \<in> set (concat (map ha_vd_names (dict_values asg)))"
    unfolding scheduled_once_def by (metis mset_eq_setD)
  then show "host_for_vd asg n \<noteq> None" unfolding host_for_vd_None by fastforce
qed

lemma schedule_facts:
  assumes "dict_ok hrs" "compute_schedule topo vds hrs prefs = Inr (plan, rls)"
  shows "\<exists>pl. represents hrs (sp_assignments plan) pl \<and> valid_placement hrs (sorted_vds vds) pl
     \<and> links_classified topo (sp_assignments plan) plan"
proof -
  obtain st where st: "place_inv hrs (sorted_vds vds) st" "links_classified topo (ps_assignments st) plan"
    "sp_assignments plan = ps_assignments st"
    using compute_schedule_ok [OF assms] by blast
  then show ?thesis unfolding place_inv_def by metis
qed

lemma gathered:
  "gather_host_resources ask clients = Inr hrs \<Longrightarrow> dict_keys hrs = dict_keys clients"
proof (induction ask clients arbitrary: hrs rule: gather_host_resources.induct)
  case (2 ask name host clients)
  then show ?case by (auto simp: bindE_eq_Inr split: sum.splits option.splits)
qed simp

text \<open>What the phases have produced when a run succeeds.\<close>

lemma plan_phases_stages:
  assumes "plan_phases w (t, l) = Inr p"
  shows "snd (extract_resources (sr_iter w) (sr_docker w) (images_of t) (sr_cache w) (sr_no_cache w) (tp_nodes t)
          (tp_resource_specs t)) = Inr (lp_resources p)
     \<and> gather_host_resources (sr_ask w) (all_host_ips (topology.truncate t)) = Inr (lp_host_resources p)
     \<and> compute_schedule (topology.truncate t) (lp_resources p) (lp_host_resources p) (placement_preferences w t)
          = Inr (lp_plan p, tp_real_net_links (lp_topo p))
     \<and> lp_topo p = t\<lparr>tp_real_net_links := tp_real_net_links (lp_topo p)\<rparr>"
  by (insert assms, unfold plan_phases_def Let_def, elim bindE_InrE) auto

lemma addresses_assigned:
  assumes "with_addresses w parsed = Inr (t, ledger)" "dict_ok (tp_nodes parsed)"
    and "\<And>s. sr_previous w (tp_name parsed) = Some s \<Longrightarrow> dict_ok (dep_mgmt_ip_reservations s)"
  shows "(\<exists>net. ipv4_network (mg_ipv4_subnet (tp_mgmt t)) = Some net \<and> address_plan net (tp_nodes t))
     \<and> dict_keys (tp_nodes t) = dict_keys (tp_nodes parsed) \<and> tp_links t = tp_links parsed"
proof -
  let ?res = "case sr_previous w (tp_name parsed) of None \<Rightarrow> [] | Some s \<Rightarrow> dep_mgmt_ip_reservations s"
  obtain na where na: "assign_sticky_mgmt_ipv4 (tp_nodes parsed) (mg_ipv4_subnet (tp_mgmt parsed)) ?res = Inr na"
    and t: "(t, ledger) = (parsed\<lparr>tp_nodes := fst na\<rparr>, snd na)"
    using assms(1) unfolding with_addresses_def Let_def by (elim bindE_InrE) auto
  have "dict_ok ?res" using assms(3) by (auto split: option.splits)
  then show ?thesis
    using assign_address_plan [of "tp_nodes parsed" _ ?res "fst na" "snd na"] na t assms(2) by auto
qed

lemma resources_named:
  assumes "snd (extract_resources iter docker (images_of t) cache no_cache nodes specs) = Inr res"
    and "dict_ok (tp_nodes t)" and "iter_ok iter"
  shows "map vr_name (dict_values res) = dict_keys (tp_nodes t)"
proof -
  obtain c where "extract_resources iter docker (images_of t) cache no_cache nodes specs = (c, Inr res)"
    using assms(1) by (metis prod.collapse)
  moreover have "dict_ok (images_of t)" "dict_keys (images_of t) = dict_keys (tp_nodes t)"
    using assms(2) by (simp_all add: images_of_def comp_def split_beta)
  ultimately show ?thesis
    using dict_keys_resources [OF extract_resources_all [of iter docker "images_of t" cache no_cache nodes specs c res]] assms(3)
    by simp
qed

section \<open>Property\<close>

text \<open>
  C1: a plan that the pipeline returns is complete and consistent. Every node of the topology file is
  on exactly one host, and nothing else is; no host that was given nodes is asked for more than it
  reported free; the hosts are the master and the workers; every node has a management address of the
  subnet that is not reserved and that no other node has; every link joins nodes that are placed, and
  is local exactly when they are on one host.
\<close>

theorem run_plan_ok:
  assumes run: "run_plan w = Inr p"
    and doc: "sr_file w = Some (text, Document raw)" "well_keyed raw"
    and iter: "iter_ok (sr_iter w)"
    and prev: "\<And>lab s. sr_previous w lab = Some s \<Longrightarrow> dict_ok (dep_mgmt_ip_reservations s)"
  shows "plan_ok p"
proof -
  obtain parsed t l where
    parsed: "parse_topology (sr_site w) (sr_json w) (sr_read w) (sr_states w) (sr_hosts_file w) None (sr_file w) = Inr parsed" and
    t: "with_addresses w parsed = Inr (t, l)" and lab: "plan_phases w (t, l) = Inr p"
    using run unfolding run_plan_def by (elim bindE_InrE) (auto split: sum.splits)
  note stages = plan_phases_stages [OF lab]
  note hrs = stages [THEN conjunct2, THEN conjunct1] and sched = stages [THEN conjunct2, THEN conjunct2, THEN conjunct1]
    and topo = stages [THEN conjunct2, THEN conjunct2, THEN conjunct2]
  have typed: "topology_typed parsed"
    using parse_topology_well_formed [OF parsed [unfolded doc(1)] doc(2)] .
  then have nodes: "dict_ok (tp_nodes parsed)" by (simp add: topology_typed_def)
  have addr: "(\<exists>net. ipv4_network (mg_ipv4_subnet (tp_mgmt t)) = Some net \<and> address_plan net (tp_nodes t))"
    "dict_keys (tp_nodes t) = dict_keys (tp_nodes parsed)" "tp_links t = tp_links parsed"
    using addresses_assigned [OF t nodes] prev by blast+
  have names: "map vr_name (dict_values (lp_resources p)) = dict_keys (tp_nodes t)"
    by (rule resources_named [OF conjunct1 [OF stages] _ iter]) (use addr nodes in simp)
  have hk: "dict_keys (lp_host_resources p) = dict_keys (all_hosts (topology.truncate t))"
    using gathered [OF hrs] by (simp add: all_host_ips_def comp_def split_beta)
  then have hok: "dict_ok (lp_host_resources p)" using dict_ok_all_hosts by metis
  obtain pl where pl: "represents (lp_host_resources p) (sp_assignments (lp_plan p)) pl"
      "valid_placement (lp_host_resources p) (sorted_vds (lp_resources p)) pl"
    and cl: "links_classified (topology.truncate t) (sp_assignments (lp_plan p)) (lp_plan p)"
    using schedule_facts [OF hok sched] by blast
  have once: "scheduled_once (sp_assignments (lp_plan p)) (dict_keys (tp_nodes t))"
  proof -
    have "mset (map vr_name (sorted_vds (lp_resources p))) = mset (dict_keys (tp_nodes t))"
      unfolding names [symmetric] mset_map mset_sorted_vds ..
    then show ?thesis using placed_once [OF pl hok] unfolding scheduled_once_def by (rule trans [rotated])
  qed
  have ends: "\<And>l. l \<in> set (tp_links t) \<Longrightarrow> lk_source l \<in> set (dict_keys (tp_nodes t)) \<and> lk_target l \<in> set (dict_keys (tp_nodes t))"
  proof -
    fix l assume "l \<in> set (tp_links t)"
    then have "lk_source l \<in> set (dict_keys (tp_nodes parsed)) \<and> lk_target l \<in> set (dict_keys (tp_nodes parsed))"
      using typed unfolding addr(3) by (auto simp: topology_typed_def links_ok_def list_all_iff)
    then show "lk_source l \<in> set (dict_keys (tp_nodes t)) \<and> lk_target l \<in> set (dict_keys (tp_nodes t))"
      unfolding addr(2) .
  qed
  show ?thesis
  proof -
    have e: "tp_nodes (lp_topo p) = tp_nodes t" "tp_links (lp_topo p) = tp_links t" "tp_mgmt (lp_topo p) = tp_mgmt t"
      "all_hosts (topology.truncate (lp_topo p)) = all_hosts (topology.truncate t)"
      "links_classified (topology.truncate (lp_topo p)) = links_classified (topology.truncate t)"
      by (subst topo, simp add: all_hosts_def links_classified_def topology.truncate_def fun_eq_iff)+
    have "dict_keys (sp_assignments (lp_plan p)) = dict_keys (all_hosts (topology.truncate t))"
      using pl(1) hk by (simp add: represents_def)
    then show ?thesis
      unfolding plan_ok_def Let_def e using addr(1) once placed_within [OF pl hok] cl scheduled_host [OF once] ends
      by (auto simp: list_all_iff)
  qed
qed

definition tiny_document :: yvalue where
  "tiny_document = VDict
     [(''name'', VStr ''tiny''),
      (''infrastructure'', VDict [(''master'', VDict [(''host'', VStr ''10.0.0.1'')])]),
      (''mgmt'', VDict [(''ipv4-subnet'', VStr ''10.9.0.0/29'')]),
      (''topology'', VDict
         [(''nodes'', VDict
             [(''r1'', VDict [(''kind'', VStr ''linux''), (''image'', VStr ''alpine'')]), (''r2'', VNone)]),
          (''links'', VList [VDict [(''endpoints'', VList [VStr ''r1:eth1'', VStr ''r2:eth1''])]])])]"

definition demo_surroundings :: surroundings where
  "demo_surroundings = \<lparr>sr_site = plain_site, sr_json = (\<lambda>_. None), sr_read = (\<lambda>_. NoFile), sr_states = [],
     sr_hosts_file = None, sr_file = Some ([], Document tiny_document), sr_previous = (\<lambda>_. None),
     sr_iter = sorted_list_of_set, sr_docker = (\<lambda>_. None), sr_cache = [], sr_no_cache = False,
     sr_env = (\<lambda>_ _. Inr (0, [], [])), sr_ask = (\<lambda>_ cmd. Inr (if cmd = ''nproc'' then ''8'' else '' 16000 '')),
     sr_history = None\<rparr>"

text \<open>Everything up to the placement is computed; the classification of links always succeeds here.\<close>

definition ready :: "surroundings \<Rightarrow> bool" where
  "ready w =
     (case bindE (map_sum TopologyFailed id
         (parse_topology (sr_site w) (sr_json w) (sr_read w) (sr_states w) (sr_hosts_file w) None (sr_file w))) (with_addresses w) of
        Inl _ \<Rightarrow> False
      | Inr ta \<Rightarrow>
         (case snd (extract_resources (sr_iter w) (sr_docker w) (images_of (fst ta)) (sr_cache w) (sr_no_cache w) (tp_nodes (fst ta))
            (tp_resource_specs (fst ta))) of
            Inl _ \<Rightarrow> False
          | Inr res \<Rightarrow>
             (case gather_host_resources (sr_ask w) (all_host_ips (topology.truncate (fst ta))) of
                Inl _ \<Rightarrow> False
              | Inr hrs \<Rightarrow> \<not> isl (check_images w (fst ta)) \<and> feasible res hrs \<and> tp_real_net_links (fst ta) = []
                 \<and> (case place_all hrs (placement_preferences w (fst ta)) res of
                      Inl _ \<Rightarrow> False | Inr st \<Rightarrow> dict_ok (ps_assignments st)))))"

lemma demo_ready: "ready demo_surroundings"
  by code_simp

lemma ready_runs:
  assumes "ready w"
  shows "\<exists>p. run_plan w = Inr p"
proof -
  obtain parsed ta res hrs st where
    parse: "parse_topology (sr_site w) (sr_json w) (sr_read w) (sr_states w) (sr_hosts_file w) None (sr_file w) = Inr parsed" and
    ta: "with_addresses w parsed = Inr ta" and
    res: "snd (extract_resources (sr_iter w) (sr_docker w) (images_of (fst ta)) (sr_cache w) (sr_no_cache w) (tp_nodes (fst ta))
            (tp_resource_specs (fst ta))) = Inr res" and
    hrs: "gather_host_resources (sr_ask w) (all_host_ips (topology.truncate (fst ta))) = Inr hrs" and
    img: "\<not> isl (check_images w (fst ta))" and f: "feasible res hrs" and real: "tp_real_net_links (fst ta) = []" and
    st: "place_all hrs (placement_preferences w (fst ta)) res = Inr st" "dict_ok (ps_assignments st)"
    using assms unfolding ready_def by (auto split: sum.splits simp: bindE_eq_Inr)
  have "tp_real_net_links (topology.truncate (fst ta)) = []" using real by (simp add: topology.truncate_def)
  then obtain plan rls where "schedule_links (topology.truncate (fst ta)) (ps_assignments st) = Inr (plan, rls)"
    using schedule_links_total [OF st(2)] by blast
  then have "compute_schedule (topology.truncate (fst ta)) res hrs (placement_preferences w (fst ta)) = Inr (plan, rls)"
    using f st(1) by (simp add: compute_schedule_def)
  moreover obtain u where "check_images w (fst ta) = Inr u" using img by (cases "check_images w (fst ta)") auto
  ultimately show ?thesis using parse ta res hrs by (simp add: run_plan_def plan_phases_def Let_def)
qed

theorem run_plan_ok_witness:
  "\<exists>p. run_plan demo_surroundings = Inr p \<and> plan_ok p"
proof -
  obtain p where p: "run_plan demo_surroundings = Inr p" using ready_runs [OF demo_ready] by blast
  have "well_keyed tiny_document" by code_simp
  then have "plan_ok p"
    using run_plan_ok [OF p, of "[]" tiny_document] by (simp add: demo_surroundings_def sorted_iter_ok)
  then show ?thesis using p by blast
qed

end
