(* ===== verification/NetSetup.thy ===== *)
theory NetSetup
  imports Remote Ipv4
begin

text \<open>
  The management network on a host, \<open>services/netsetup.py\<close> (VRF, bridge, VXLAN, firewall
  rules, DHCP), and the VXLAN tunnels of cross-host links, \<open>services/vxlan.py\<close>.
\<close>

section \<open>Firewall rules\<close>

definition quoted :: "string \<Rightarrow> string" where
  "quoted s = [CHR 0x27] @ s @ [CHR 0x27]"

definition mgmt_rule :: "string \<Rightarrow> string \<Rightarrow> string \<Rightarrow> string" where
  "mgmt_rule direction bridge lab_name =
     ''-'' @ direction @ '' '' @ bridge @ '' -m comment --comment '' @ quoted (''dnlab mgmt '' @ lab_name) @ '' -j ACCEPT''"

definition install_cmd :: "string \<Rightarrow> string \<Rightarrow> string \<Rightarrow> string" where
  "install_cmd bridge lab_name direction =
     ''iptables -C DOCKER-USER '' @ mgmt_rule direction bridge lab_name @ '' 2>/dev/null || iptables -I DOCKER-USER 1 ''
       @ mgmt_rule direction bridge lab_name"

definition remove_cmd :: "string \<Rightarrow> string \<Rightarrow> string \<Rightarrow> string" where
  "remove_cmd bridge lab_name direction =
     ''while iptables -C DOCKER-USER '' @ mgmt_rule direction bridge lab_name @ '' 2>/dev/null; do iptables -D DOCKER-USER ''
       @ mgmt_rule direction bridge lab_name @ ''; done''"

definition install_mgmt_bridge_firewall_rules :: "env \<Rightarrow> string \<Rightarrow> string \<Rightarrow> string \<Rightarrow> unit action" where
  "install_mgmt_bridge_firewall_rules env client bridge lab_name =
     forA [''i'', ''o''] (\<lambda>direction. exec_cmd env client (install_cmd bridge lab_name direction) False)"

definition remove_mgmt_bridge_firewall_rules :: "env \<Rightarrow> string \<Rightarrow> string \<Rightarrow> string \<Rightarrow> unit action" where
  "remove_mgmt_bridge_firewall_rules env client bridge lab_name =
     forA [''i'', ''o''] (\<lambda>direction. exec_cmd env client (remove_cmd bridge lab_name direction) False)"

section \<open>Setting up and tearing down the management network\<close>

definition link_add :: "string \<Rightarrow> string \<Rightarrow> string" where
  "link_add iface spec = ''ip link add '' @ iface @ '' type '' @ spec"

definition link_del :: "string \<Rightarrow> string" where
  "link_del iface = ''ip link delete '' @ iface @ '' 2>/dev/null''"

text \<open>\<open>topo.mgmt.ipv4_subnet.split("/")[1]\<close> raises an \<open>IndexError\<close> on a subnet without prefix.\<close>

definition subnet_prefix :: "string \<Rightarrow> string action" where
  "subnet_prefix subnet =
     (case str_split (CHR ''/'') subnet of
        _ # p # _ \<Rightarrow> retA p
      | _ \<Rightarrow> raiseA (Raised ''list index out of range''))"

definition mgmt_commands :: "topology \<Rightarrow> schedule_plan \<Rightarrow> string \<Rightarrow> string \<Rightarrow> string list" where
  "mgmt_commands topo plan underlay prefix =
     (let vrf = vrf_name (tp_name topo);
          bridge = mg_bridge (tp_mgmt topo);
          vxlan_iface = mgmt_vxlan_iface (tp_name topo);
          gw = or_else (mg_docker_ipv4_gw (tp_mgmt topo)) (mg_ipv4_gw (tp_mgmt topo))
      in [link_add vrf (''vrf table '' @ show_nat (sp_vrf_table_id plan)),
          ''ip link set '' @ vrf @ '' up'',
          link_add bridge ''bridge'',
          ''ip link set '' @ bridge @ '' up'',
          ''ip link set '' @ bridge @ '' master '' @ vrf,
          ''ip addr add '' @ gw @ ''/'' @ prefix @ '' dev '' @ bridge,
          link_add vxlan_iface (''vxlan id '' @ show_nat (sp_mgmt_vxlan_id plan) @ '' dstport 4789 dev '' @ underlay @ '' nolearning''),
          ''ip link set '' @ vxlan_iface @ '' master '' @ bridge,
          ''ip link set '' @ vxlan_iface @ '' up''])"

definition fdb_cmd :: "string \<Rightarrow> string \<Rightarrow> string" where
  "fdb_cmd vxlan_iface other_ip = ''bridge fdb append 00:00:00:00:00:00 dev '' @ vxlan_iface @ '' dst '' @ other_ip"

definition setup_mgmt_infra ::
  "env \<Rightarrow> topology \<Rightarrow> string \<Rightarrow> schedule_plan \<Rightarrow> string \<Rightarrow> string \<Rightarrow> (string, string) dict \<Rightarrow> unit action" where
  "setup_mgmt_infra env topo underlay plan client host_name host_ips =
     bindA (subnet_prefix (mg_ipv4_subnet (tp_mgmt topo))) (\<lambda>prefix.
     if dict_get host_ips host_name = None then raiseA (KeyErr host_name)
     else
       seqA (forA (mgmt_commands topo plan underlay prefix) (\<lambda>cmd. exec_cmd env client cmd False))
      (seqA (install_mgmt_bridge_firewall_rules env client (mg_bridge (tp_mgmt topo)) (tp_name topo))
            (forA (filter (\<lambda>other. fst other \<noteq> host_name) host_ips)
               (\<lambda>other. exec_cmd env client (fdb_cmd (mgmt_vxlan_iface (tp_name topo)) (snd other)) False))))"

definition pid_file :: "string \<Rightarrow> string" where
  "pid_file lab_name = ''/var/run/dnsmasq-'' @ lab_name @ ''.pid''"

definition dhcp_range :: "string \<Rightarrow> string \<times> string" where
  "dhcp_range subnet =
     (let octets = str_split (CHR ''.'') (hd (str_split (CHR ''/'') subnet));
          base = octets ! 0 @ ''.'' @ octets ! 1 @ ''.'' @ octets ! 2
      in (base @ ''.100'', base @ ''.199''))"

definition setup_dhcp :: "env \<Rightarrow> topology \<Rightarrow> string \<Rightarrow> unit action" where
  "setup_dhcp env topo client =
     (if length (str_split (CHR ''.'') (hd (str_split (CHR ''/'') (mg_ipv4_subnet (tp_mgmt topo))))) < 3
      then raiseA (Raised ''list index out of range'')
      else
        (case dhcp_range (mg_ipv4_subnet (tp_mgmt topo)) of (dhcp_start, dhcp_end) \<Rightarrow>
           exec_cmd env client
             (''nohup dnsmasq --interface='' @ mg_bridge (tp_mgmt topo) @ '' --bind-interfaces --dhcp-range='' @ dhcp_start
              @ '','' @ dhcp_end @ '',12h --dhcp-option=3,'' @ mg_ipv4_gw (tp_mgmt topo) @ '' --pid-file='' @ pid_file (tp_name topo)
              @ '' --no-daemon & > /dev/null 2>&1 &'') False))"

definition stop_dnsmasq_cmd :: "string \<Rightarrow> string" where
  "stop_dnsmasq_cmd lab_name = ''[ -f '' @ pid_file lab_name @ '' ] && kill $(cat '' @ pid_file lab_name
     @ '') 2>/dev/null; rm -f '' @ pid_file lab_name"

definition teardown_mgmt_infra :: "env \<Rightarrow> string \<Rightarrow> string \<Rightarrow> string \<Rightarrow> unit action" where
  "teardown_mgmt_infra env lab_name bridge client =
     seqA (exec_cmd env client (stop_dnsmasq_cmd lab_name) False)
    (seqA (remove_mgmt_bridge_firewall_rules env client bridge lab_name)
          (forA [mgmt_vxlan_iface lab_name, bridge, vrf_name lab_name] (\<lambda>iface. exec_cmd env client (link_del iface) False)))"

section \<open>Tunnels of cross-host links (services/vxlan.py)\<close>

definition vxlan_create_cmd :: "string \<Rightarrow> nat \<Rightarrow> string \<Rightarrow> string" where
  "vxlan_create_cmd remote vni iface =
     ''containerlab tools vxlan create --remote '' @ remote @ '' --id '' @ show_nat vni @ '' --link '' @ iface"

definition create_dataplane_tunnel ::
  "env \<Rightarrow> cross_host_link \<Rightarrow> string \<Rightarrow> string \<Rightarrow> string \<Rightarrow> string \<Rightarrow> unit action" where
  "create_dataplane_tunnel env link src_client tgt_client src_host_ip tgt_host_ip =
     seqA (exec_cmd env src_client (vxlan_create_cmd tgt_host_ip (ch_vxlan_id link) (ch_source_host_iface link)) True)
          (exec_cmd env tgt_client (vxlan_create_cmd src_host_ip (ch_vxlan_id link) (ch_target_host_iface link)) True)"

definition delete_vxlan_iface :: "env \<Rightarrow> string \<Rightarrow> string \<Rightarrow> unit action" where
  "delete_vxlan_iface env client host_iface =
     bindA (run_no_check env client (''ip link delete '' @ take 15 (''vx-'' @ host_iface))) (\<lambda>_. retA ())"

definition destroy_dataplane_tunnel :: "env \<Rightarrow> cross_host_link \<Rightarrow> string \<Rightarrow> string \<Rightarrow> unit action" where
  "destroy_dataplane_tunnel env link src_client tgt_client =
     forA [(src_client, ch_source_host_iface link), (tgt_client, ch_target_host_iface link)]
       (\<lambda>(client, host_iface). delete_vxlan_iface env client host_iface)"

text \<open>The status of a link: its two sides in order, starting from up.\<close>

definition side_status :: "env \<Rightarrow> string list \<Rightarrow> string option \<times> string \<Rightarrow> string \<Rightarrow> string action" where
  "side_status env clients side status =
     (case side of (host_name, iface) \<Rightarrow>
        (case host_name of
           Some h \<Rightarrow>
             if h \<in> set clients then
               bindA (run_no_check env h (''ip link show '' @ iface @ '' 2>/dev/null | head -1''))
                 (\<lambda>(rc, out, err). retA (if rc \<noteq> 0 \<or> \<not> str_in ''UP'' (str_upper out) then ''down'' else status))
             else retA ''error''
         | None \<Rightarrow> retA ''error''))"

definition link_status :: "env \<Rightarrow> string list \<Rightarrow> cross_host_link \<Rightarrow> string action" where
  "link_status env clients link =
     bindA (side_status env clients (ch_source_host link, ch_source_host_iface link) ''up'')
       (side_status env clients (ch_target_host link, ch_target_host_iface link))"

definition cross_host_str :: "cross_host_link \<Rightarrow> string" where
  "cross_host_str l = ch_source_node l @ '':'' @ ch_source_iface l @ '' <-> '' @ ch_target_node l @ '':'' @ ch_target_iface l"

definition verify_tunnels :: "env \<Rightarrow> cross_host_link list \<Rightarrow> string list \<Rightarrow> (string \<times> nat \<times> string) list action" where
  "verify_tunnels env links clients =
     mapA (\<lambda>link. bindA (link_status env clients link)
       (\<lambda>status. retA (cross_host_str link, ch_vxlan_id link, status))) links"

section \<open>What is executed\<close>

lemma performs_cmds: "connected env \<Longrightarrow> performs (forA xs (\<lambda>x. exec_cmd env client (f x) False)) () (map (\<lambda>x. Run client (f x) False) xs)"
proof -
  assume "connected env"
  then have "performs (forA xs (\<lambda>x. exec_cmd env client (f x) False)) () (concat (map (\<lambda>x. [Run client (f x) False]) xs))"
    by (intro performs_for performs_exec)
  then show ?thesis by simp
qed

definition mgmt_ifaces :: "topology \<Rightarrow> string list" where
  "mgmt_ifaces topo = [vrf_name (tp_name topo), mg_bridge (tp_mgmt topo), mgmt_vxlan_iface (tp_name topo)]"

definition setup_events :: "topology \<Rightarrow> string \<Rightarrow> schedule_plan \<Rightarrow> string \<Rightarrow> string \<Rightarrow> string \<Rightarrow> (string, string) dict \<Rightarrow> event list" where
  "setup_events topo underlay plan prefix client host_name host_ips =
     map (\<lambda>c. Run client c False)
       (mgmt_commands topo plan underlay prefix
        @ map (install_cmd (mg_bridge (tp_mgmt topo)) (tp_name topo)) [''i'', ''o'']
        @ map (\<lambda>other. fdb_cmd (mgmt_vxlan_iface (tp_name topo)) (snd other)) (filter (\<lambda>other. fst other \<noteq> host_name) host_ips))"

definition teardown_events :: "topology \<Rightarrow> string \<Rightarrow> event list" where
  "teardown_events topo client =
     map (\<lambda>c. Run client c False)
       (stop_dnsmasq_cmd (tp_name topo) # map (remove_cmd (mg_bridge (tp_mgmt topo)) (tp_name topo)) [''i'', ''o'']
        @ map link_del (rev (mgmt_ifaces topo)))"

lemma setup_performs:
  assumes "connected env" "subnet_prefix (mg_ipv4_subnet (tp_mgmt topo)) = retA prefix" "dict_get host_ips host_name \<noteq> None"
  shows "performs (setup_mgmt_infra env topo underlay plan client host_name host_ips) ()
     (setup_events topo underlay plan prefix client host_name host_ips)"
proof -
  have "performs (forA (mgmt_commands topo plan underlay prefix) (\<lambda>cmd. exec_cmd env client cmd False)) ()
      (map (\<lambda>c. Run client c False) (mgmt_commands topo plan underlay prefix))"
    using performs_cmds [OF assms(1), of "mgmt_commands topo plan underlay prefix" client "\<lambda>c. c"] by simp
  moreover have "performs (install_mgmt_bridge_firewall_rules env client bridge lab) ()
      (map (\<lambda>d. Run client (install_cmd bridge lab d) False) [''i'', ''o''])" for bridge lab
    unfolding install_mgmt_bridge_firewall_rules_def by (rule performs_cmds [OF assms(1)])
  moreover have "performs (forA others (\<lambda>other. exec_cmd env client (fdb_cmd v (snd other)) False)) ()
      (map (\<lambda>other. Run client (fdb_cmd v (snd other)) False) others)" for others :: "(string, string) dict" and v
    by (rule performs_cmds [OF assms(1)])
  ultimately have "performs (seqA (forA (mgmt_commands topo plan underlay prefix) (\<lambda>cmd. exec_cmd env client cmd False))
      (seqA (install_mgmt_bridge_firewall_rules env client (mg_bridge (tp_mgmt topo)) (tp_name topo))
            (forA (filter (\<lambda>other. fst other \<noteq> host_name) host_ips)
               (\<lambda>other. exec_cmd env client (fdb_cmd (mgmt_vxlan_iface (tp_name topo)) (snd other)) False)))) ()
     (map (\<lambda>c. Run client c False) (mgmt_commands topo plan underlay prefix)
      @ map (\<lambda>d. Run client (install_cmd (mg_bridge (tp_mgmt topo)) (tp_name topo) d) False) [''i'', ''o'']
      @ map (\<lambda>other. Run client (fdb_cmd (mgmt_vxlan_iface (tp_name topo)) (snd other)) False)
          (filter (\<lambda>other. fst other \<noteq> host_name) host_ips))"
    by (intro performs_seq)
  then show ?thesis
    using assms(2,3)
    by (auto simp: setup_mgmt_infra_def setup_events_def performs_def bindA_def retA_def comp_def)
qed

lemma teardown_performs:
  assumes "connected env"
  shows "performs (teardown_mgmt_infra env (tp_name topo) (mg_bridge (tp_mgmt topo)) client) () (teardown_events topo client)"
proof -
  have r: "performs (remove_mgmt_bridge_firewall_rules env client bridge lab) ()
      (map (\<lambda>d. Run client (remove_cmd bridge lab d) False) [''i'', ''o''])" for bridge lab
    unfolding remove_mgmt_bridge_firewall_rules_def by (rule performs_cmds [OF assms])
  have l: "performs (forA ifaces (\<lambda>iface. exec_cmd env client (link_del iface) False)) ()
      (map (\<lambda>iface. Run client (link_del iface) False) ifaces)" for ifaces
    by (rule performs_cmds [OF assms])
  show ?thesis
    unfolding teardown_mgmt_infra_def
    using performs_seq [OF performs_exec [OF assms, of client "stop_dnsmasq_cmd (tp_name topo)"]
        performs_seq [OF r [of "mg_bridge (tp_mgmt topo)" "tp_name topo"]
          l [of "[mgmt_vxlan_iface (tp_name topo), mg_bridge (tp_mgmt topo), vrf_name (tp_name topo)]"]]]
    by (simp add: teardown_events_def mgmt_ifaces_def)
qed

section \<open>Properties\<close>

text \<open>
  As long as the host answers, setting up the management network of a lab on it issues a
  fixed list of commands, whatever they return, and tearing it down removes what that list
  creates: of the commands that add an interface there is one for the VRF, the bridge and the
  VXLAN device each, and the teardown ends by deleting these three in the opposite order, after
  removing the firewall rule of each direction that the setup installs.
\<close>

theorem teardown_undoes_setup:
  assumes "connected env" "subnet_prefix (mg_ipv4_subnet (tp_mgmt topo)) = retA prefix" "dict_get host_ips host_name \<noteq> None"
  shows "\<exists>adds rules others pid.
     setup_mgmt_infra env topo underlay plan client host_name host_ips tr
       = (Inr (), tr @ map (\<lambda>c. Run client c False)
            (mgmt_commands topo plan underlay prefix @ map (install_cmd (mg_bridge (tp_mgmt topo)) (tp_name topo)) rules @ others))
     \<and> filter (\<lambda>c. startswith c ''ip link add '') (mgmt_commands topo plan underlay prefix)
       = map (\<lambda>(iface, spec). link_add iface spec) adds
     \<and> map fst adds = mgmt_ifaces topo
     \<and> teardown_mgmt_infra env (tp_name topo) (mg_bridge (tp_mgmt topo)) client tr'
       = (Inr (), tr' @ map (\<lambda>c. Run client c False)
            (pid # map (remove_cmd (mg_bridge (tp_mgmt topo)) (tp_name topo)) rules @ map link_del (rev (map fst adds))))"
proof -
  let ?vrf = "vrf_name (tp_name topo)" and ?br = "mg_bridge (tp_mgmt topo)" and ?vx = "mgmt_vxlan_iface (tp_name topo)"
  let ?adds = "[(?vrf, ''vrf table '' @ show_nat (sp_vrf_table_id plan)), (?br, ''bridge''),
     (?vx, ''vxlan id '' @ show_nat (sp_mgmt_vxlan_id plan) @ '' dstport 4789 dev '' @ underlay @ '' nolearning'')]"
  have f: "filter (\<lambda>c. startswith c ''ip link add '') (mgmt_commands topo plan underlay prefix)
      = map (\<lambda>(iface, spec). link_add iface spec) ?adds"
    by (simp add: mgmt_commands_def Let_def link_add_def startswith_def)
  have s: "setup_mgmt_infra env topo underlay plan client host_name host_ips tr
      = (Inr (), tr @ setup_events topo underlay plan prefix client host_name host_ips)"
    using setup_performs [OF assms] by (simp add: performs_def)
  have t: "teardown_mgmt_infra env (tp_name topo) ?br client tr' = (Inr (), tr' @ teardown_events topo client)"
    using teardown_performs [OF assms(1)] by (simp add: performs_def)
  show ?thesis
    by (rule exI [of _ ?adds], rule exI [of _ "[''i'', ''o'']"],
        rule exI [of _ "map (\<lambda>other. fdb_cmd ?vx (snd other)) (filter (\<lambda>other. fst other \<noteq> host_name) host_ips)"],
        rule exI [of _ "stop_dnsmasq_cmd (tp_name topo)"])
      (simp only: s t f setup_events_def teardown_events_def, simp add: mgmt_ifaces_def)
qed

definition demo_topo :: topology where
  "demo_topo = \<lparr>tp_name = ''lab'', tp_master = \<lparr>ih_name = ''master'', ih_host = ''10.0.0.1'', ih_ssh_user = ''root'', ih_ssh_key = [], ih_is_master = True\<rparr>,
     tp_workers = [], tp_nodes = [], tp_links = [],
     tp_mgmt = \<lparr>mg_network = ''n'', mg_bridge = ''br'', mg_ipv4_subnet = ''10.9.0.0/24'', mg_ipv4_gw = ''10.9.0.254'',
       mg_docker_ipv4_gw = ''10.9.0.1'', mg_ipv6_subnet = [], mg_ipv6_gw = []\<rparr>,
     tp_real_nets = [], tp_real_net_links = [], tp_resource_specs = []\<rparr>"

definition quiet :: env where
  "quiet tr ev = Inr (0, [], [])"

lemma quiet_connected: "connected quiet"
  by (simp add: connected_def quiet_def)

theorem teardown_undoes_setup_witness:
  "\<exists>evs. setup_mgmt_infra quiet demo_topo ''eth0'' \<lparr>sp_lab_name = ''lab'', sp_assignments = [], sp_cross_host_links = [],
       sp_local_links = [], sp_vrf_table_id = 7, sp_mgmt_vxlan_id = 8\<rparr> ''master'' ''master'' [(''master'', ''10.0.0.1'')] [] = (Inr (), evs)"
  using teardown_undoes_setup [where env = quiet and topo = demo_topo and prefix = "''24''" and underlay = "''eth0''"
      and host_name = "''master''" and host_ips = "[(''master'', ''10.0.0.1'')]" and client = "''master''" and tr = "[]" and tr' = "[]"]
  by (simp add: quiet_connected subnet_prefix_def demo_topo_def) blast

text \<open>
  The DHCP range is taken from the first three octets of the subnet. Both ends of it lie in
  the management subnet exactly when the subnet is a /24 or larger: for every smaller one the
  server would hand out addresses of other networks.
\<close>

theorem dhcp_range_in_subnet:
  assumes "net_ok n"
  shows "\<exists>first last. dhcp_range (show_net n) = (show_ip first, show_ip last)
     \<and> (in_net first n \<and> in_net last n \<longleftrightarrow> nw_prefix n \<le> 24)"
proof -
  let ?b = "nw_addr n div 256"
  have lt: "nw_addr n < 2 ^ 32" using assms by (simp add: net_ok_def)
  have b: "?b < 2 ^ 24" using lt by (simp add: less_mult_imp_div_less)
  have oct: "to_octets (256 * ?b + c) = [to_octets (nw_addr n) ! 0, to_octets (nw_addr n) ! 1, to_octets (nw_addr n) ! 2, c]"
    if "c < 256" for c
    using that by (simp add: to_octets_nested)
  have "str_split (CHR ''/'') (show_net n) = [show_ip (nw_addr n), show_nat (nw_prefix n)]"
    using str_split_append [OF slash_not_in_ip] str_split_no_sep [OF dot_not_digit(2)] by (simp add: show_net_def)
  moreover have "show_nat 100 = ''100''" "show_nat 199 = ''199''" by (simp_all add: show_nat.simps)
  ultimately have r: "dhcp_range (show_net n) = (show_ip (256 * ?b + 100), show_ip (256 * ?b + 199))"
    using oct [of 100] oct [of 199]
    by (simp add: dhcp_range_def split_show_ip Let_def length_to_octets
        show_ip_def [of "256 * ?b + 100"] show_ip_def [of "256 * ?b + 199"])
  have "in_net (256 * ?b + 100) n \<and> in_net (256 * ?b + 199) n \<longleftrightarrow> nw_prefix n \<le> 24"
  proof
    assume "nw_prefix n \<le> 24"
    then have d: "(256::nat) dvd block n"
      unfolding block_def using le_imp_power_dvd [of 8 "32 - nw_prefix n" "2::nat"] by simp
    then have "256 dvd nw_addr n" using assms by (auto simp: net_ok_def intro: dvd_trans)
    moreover have "256 \<le> block n" using d by (intro dvd_imp_le) simp_all
    ultimately have "256 * ?b = nw_addr n" "nw_addr n + 255 \<le> broadcast n" by (auto simp: broadcast_def)
    then show "in_net (256 * ?b + 100) n \<and> in_net (256 * ?b + 199) n"
      by (simp add: in_net_iff [OF assms])
  next
    assume h: "in_net (256 * ?b + 100) n \<and> in_net (256 * ?b + 199) n"
    show "nw_prefix n \<le> 24"
    proof (rule ccontr)
      assume "\<not> nw_prefix n \<le> 24"
      then have d: "block n dvd 128"
        unfolding block_def using le_imp_power_dvd [of "32 - nw_prefix n" 7 "2::nat"] by simp
      then obtain k where k: "128 = block n * k" by (auto simp: dvd_def)
      have "x div 128 = y div 128" if "x div block n = y div block n" for x y
        unfolding k div_mult2_eq that ..
      moreover have "(256 * ?b + 100) div block n = (256 * ?b + 199) div block n"
        using h unfolding in_net_def by (metis block_pos(2) mult_cancel2)
      ultimately have "(256 * ?b + 100) div 128 = (256 * ?b + 199) div 128" by blast
      moreover have "(256 * x + 100) div 128 = 2 * x" "(256 * x + 199) div 128 = 2 * x + 1" for x :: nat
        by - (rule div_nat_eqI; simp)+
      ultimately show False by (metis n_not_Suc_n Suc_eq_plus1)
    qed
  qed
  then show ?thesis using r by blast
qed

theorem dhcp_range_in_subnet_witness:
  "\<exists>first last. dhcp_range (show_net \<lparr>nw_addr = 167772160, nw_prefix = 29\<rparr>) = (show_ip first, show_ip last)
     \<and> \<not> (in_net first \<lparr>nw_addr = 167772160, nw_prefix = 29\<rparr> \<and> in_net last \<lparr>nw_addr = 167772160, nw_prefix = 29\<rparr>)"
  using dhcp_range_in_subnet [of "\<lparr>nw_addr = 167772160, nw_prefix = 29\<rparr>"] by (auto simp: net_ok_def block_def)

end
