(* ===== verification/WarmLinks.thy ===== *)
theory WarmLinks
  imports Topology
begin

text \<open>
  Warm links, \<open>services/warm_links.py\<close>: which images can connect interfaces while they run, how
  an image's verified labels decide about a node, and how many ports a node gets.
\<close>

section \<open>Profiles\<close>

record profile =
  pf_default_ports :: int
  pf_max_ports :: int
  pf_vm_index :: int

definition prof :: "int \<Rightarrow> int \<Rightarrow> profile" where
  "prof d m = \<lparr>pf_default_ports = d, pf_max_ports = m, pf_vm_index = 0\<rparr>"

definition profiles :: "(string, profile) dict" where
  "profiles =
     [(''dnlab_frr'', prof 8 8),
      (''openwrt'', prof 8 64),
      (''dnlab_opnsense'', prof 8 64),
      (''nvidia_cumulusvx'', prof 16 64),
      (''mikrotik_ros'', prof 16 31),
      (''cisco_vios'', prof 15 15),
      (''juniper_vjunosrouter'', prof 16 97),
      (''juniper_vjunosswitch'', prof 16 57),
      (''juniper_vjunosevolved'', prof 16 17),
      (''cisco_n9kv'', prof 16 129),
      (''cisco_nxos'', prof 16 32),
      (''cisco_cat9kv'', prof 9 9),
      (''cisco_c9800cl'', prof 3 3),
      (''cisco_xrv9k'', prof 16 128)]"

definition image_profile_patterns :: "(string \<times> string) list" where
  "image_profile_patterns =
     [(''dnlab_frr'', ''dnlab_frr''),
      (''dnlab_opnsense'', ''dnlab_opnsense''),
      (''nvidia_cumulusvx'', ''nvidia_cumulusvx''),
      (''mikrotik_ros'', ''mikrotik''),
      (''juniper_vjunosrouter'', ''vjunos-router''),
      (''juniper_vjunosrouter'', ''vjunosrouter''),
      (''juniper_vjunosswitch'', ''vjunos-switch''),
      (''juniper_vjunosswitch'', ''vjunosswitch''),
      (''juniper_vjunosevolved'', ''vjunosevolved''),
      (''cisco_c9800cl'', ''c9800''),
      (''cisco_cat9kv'', ''cat9kv''),
      (''cisco_n9kv'', ''n9kv''),
      (''cisco_nxos'', ''nxos''),
      (''cisco_xrv9k'', ''xrv9k''),
      (''cisco_vios'', ''vios''),
      (''openwrt'', ''openwrt'')]"

definition image_status_env :: string where
  "image_status_env = ''DNLAB_WARM_LINKS_IMAGE_STATUS''"

definition base_digest_env :: string where
  "base_digest_env = ''DNLAB_WARM_LINKS_BASE_DIGEST''"

definition profile_key :: "vdnode \<Rightarrow> string option" where
  "profile_key node =
     (case List.find (\<lambda>(key, fragment). str_in fragment (str_lower (nd_image node))) image_profile_patterns of
        Some (key, _) \<Rightarrow> Some key
      | None \<Rightarrow> if dict_get profiles (nd_kind node) \<noteq> None then Some (nd_kind node) else None)"

text \<open>\<open>PROFILES.get(key) if key else None\<close>: the empty key is false.\<close>

definition profile_for_node :: "vdnode \<Rightarrow> profile option" where
  "profile_for_node node =
     (case profile_key node of
        Some key \<Rightarrow> if key \<noteq> [] then dict_get profiles key else None
      | None \<Rightarrow> None)"

definition node_image_status :: "vdnode \<Rightarrow> string" where
  "node_image_status node = str_lower (dict_get_or (nd_env node) image_status_env [])"

definition is_enabled :: "vdnode \<Rightarrow> bool" where
  "is_enabled node \<longleftrightarrow> profile_for_node node \<noteq> None
     \<and> node_image_status node \<in> {''validated'', ''experimental''}"

definition status_for_node :: "vdnode \<Rightarrow> string" where
  "status_for_node node =
     (if profile_for_node node = None then ''unsupported''
      else if node_image_status node = ''validated'' then ''validated''
      else if node_image_status node \<in> {''missing'', ''unsupported''} then node_image_status node
      else if is_enabled node then ''experimental-enabled'' else ''experimental'')"

section \<open>Image labels\<close>

definition capabilities :: "(string, string) dict \<Rightarrow> string list" where
  "capabilities labels =
     filter (\<lambda>c. c \<noteq> []) (map str_strip (str_split (CHR '','') (dict_get_or labels ''org.dnlab.capabilities'' [])))"

definition label_status :: "(string, string) dict \<Rightarrow> string" where
  "label_status labels =
     (let status = str_lower (dict_get_or labels ''org.dnlab.warm-links.status'' ''experimental'')
      in if ''warm-links-v1'' \<notin> set (capabilities labels) \<or> status \<notin> {''validated'', ''experimental''}
         then ''unsupported'' else status)"

definition apply_image_labels :: "vdnode \<Rightarrow> (string, string) dict \<Rightarrow> vdnode \<times> string" where
  "apply_image_labels node labels =
     (let status = label_status labels;
          env1 = dict_set image_status_env status (nd_env node);
          digest = dict_get_or labels ''org.opencontainers.image.base.digest'' [];
          env2 = (if digest \<noteq> [] then dict_set base_digest_env (snd (str_rpartition (CHR ''@'') digest)) env1
                  else dict_pop base_digest_env env1)
      in (node\<lparr>nd_env := env2\<rparr>, status))"

text \<open>
  \<open>inspect_image_on_host\<close>: the answer of \<open>docker image inspect\<close> is a parameter, \<^const>\<open>None\<close> when
  the command fails and otherwise the labels it prints (none for empty, null or malformed output).
\<close>

definition inspect_image_on_host :: "vdnode \<Rightarrow> (string, string) dict option \<Rightarrow> vdnode \<times> string" where
  "inspect_image_on_host node inspected =
     (case inspected of
        None \<Rightarrow> (node\<lparr>nd_env := dict_pop base_digest_env (dict_set image_status_env ''missing'' (nd_env node))\<rparr>, ''missing'')
      | Some labels \<Rightarrow> apply_image_labels node labels)"

section \<open>Capacity\<close>

definition iface_index :: "string \<Rightarrow> nat" where
  "iface_index iface =
     (let d = drop 3 iface
      in if startswith iface ''eth'' \<and> d \<noteq> [] \<and> list_all is_digit d \<and> hd d \<noteq> CHR ''0'' then read_digits d else 0)"

definition used_ports :: "topology \<Rightarrow> string \<Rightarrow> nat list" where
  "used_ports topo node_name =
     concat (map (\<lambda>l. (if lk_source l = node_name then [iface_index (lk_source_iface l)] else [])
                    @ (if lk_target l = node_name then [iface_index (lk_target_iface l)] else [])) (tp_links topo))
     @ map (\<lambda>l. iface_index (rl_iface l)) (filter (\<lambda>l. rl_node l = node_name) (tp_real_net_links topo))"

definition highest_used_port :: "topology \<Rightarrow> string \<Rightarrow> nat" where
  "highest_used_port topo node_name = fold max (used_ports topo node_name) 0"

datatype capacity_error = UnknownNode | PortsNotAnInteger | CapacityExceeded int

text \<open>\<open>int(node.env.get("DNLAB_WARM_PORTS", 0) or 0)\<close> on a text value.\<close>

definition requested_ports :: "vdnode \<Rightarrow> int option" where
  "requested_ports node =
     (let v = dict_get_or (nd_env node) ''DNLAB_WARM_PORTS'' [] in if v = [] then Some 0 else py_int v)"

definition capacity_for_node :: "topology \<Rightarrow> string \<Rightarrow> capacity_error + int" where
  "capacity_for_node topo node_name =
     (case dict_get (tp_nodes topo) node_name of
        None \<Rightarrow> Inl UnknownNode
      | Some node \<Rightarrow>
          (case profile_for_node node of
             None \<Rightarrow> Inr 0
           | Some profile \<Rightarrow>
               if \<not> is_enabled node then Inr 0
               else (case requested_ports node of
                       None \<Rightarrow> Inl PortsNotAnInteger
                     | Some requested \<Rightarrow>
                         (let capacity = max (pf_default_ports profile)
                                            (max (int (highest_used_port topo node_name)) requested)
                          in if capacity > pf_max_ports profile then Inl (CapacityExceeded capacity)
                             else Inr capacity))))"

section \<open>Properties\<close>

lemma fold_max_ge: "x \<in> set xs \<or> x \<le> a \<Longrightarrow> x \<le> fold max xs (a::nat)"
  by (induction xs arbitrary: a) (auto simp: le_max_iff_disj)

lemma profiles_ok: "(k, p) \<in> set profiles \<Longrightarrow> 0 < pf_default_ports p \<and> pf_default_ports p \<le> pf_max_ports p"
  by (auto simp: profiles_def prof_def)

lemma profile_for_node_ok: "profile_for_node node = Some p \<Longrightarrow> 0 < pf_default_ports p \<and> pf_default_ports p \<le> pf_max_ports p"
  using profiles_ok by (auto simp: profile_for_node_def split: option.splits if_splits dest!: map_of_SomeD)

lemma iface_index_ge: "k = iface_index i \<Longrightarrow> startswith i ''eth'' \<Longrightarrow> drop 3 i = show_nat n \<Longrightarrow> 0 < n \<Longrightarrow> k = n"
  using show_nat_hd [of n] by (simp add: iface_index_def Let_def show_nat_digits)

lemma used_ports_link:
  "l \<in> set (tp_links topo) \<Longrightarrow> lk_source l = n \<Longrightarrow> iface_index (lk_source_iface l) \<in> set (used_ports topo n)"
  "l \<in> set (tp_links topo) \<Longrightarrow> lk_target l = n \<Longrightarrow> iface_index (lk_target_iface l) \<in> set (used_ports topo n)"
  by (auto simp: used_ports_def intro!: bexI [of _ l])

lemma fold_max_mem: "fold max xs (d :: nat) \<in> insert d (set xs)"
proof (induction xs arbitrary: d)
  case (Cons x xs)
  then show ?case using Cons.IH [of "max x d"] by (auto simp: max_def split: if_splits)
qed simp

text \<open>
  C40: the warm ports of a device are as many as asked for, but cover its links. The capacity of a device whose
  warm links are off is zero. Otherwise it is the largest of the default of its profile, the number that
  the device's environment asks for, and every port that a link uses, as long as the profile allows that
  many; if it does not the capacity is refused with that number, and a request that is no number is
  refused too.
\<close>

theorem capacity_for_node_bounds:
  assumes "dict_get (tp_nodes topo) name = Some node"
  shows "if \<not> is_enabled node then capacity_for_node topo name = Inr 0
     else \<exists>p. profile_for_node node = Some p \<and>
       (case requested_ports node of
          None \<Rightarrow> capacity_for_node topo name = Inl PortsNotAnInteger
        | Some requested \<Rightarrow>
            \<exists>cap. 0 < cap \<and> pf_default_ports p \<le> cap \<and> requested \<le> cap
              \<and> (\<forall>port \<in> set (used_ports topo name). int port \<le> cap)
              \<and> cap \<in> {pf_default_ports p, requested} \<union> int ` set (used_ports topo name)
              \<and> capacity_for_node topo name = (if cap \<le> pf_max_ports p then Inr cap else Inl (CapacityExceeded cap)))"
proof (cases "is_enabled node")
  case False
  then show ?thesis using assms by (simp add: capacity_for_node_def split: option.split)
next
  case True
  then obtain p where p: "profile_for_node node = Some p" by (auto simp: is_enabled_def)
  show ?thesis
  proof (cases "requested_ports node")
    case None
    then show ?thesis using True p assms by (simp add: capacity_for_node_def)
  next
    case (Some requested)
    let ?h = "highest_used_port topo name"
    define cap where "cap = max (pf_default_ports p) (max (int ?h) requested)"
    have d: "0 < pf_default_ports p" using profile_for_node_ok [OF p] by simp
    have "int port \<le> cap" if "port \<in> set (used_ports topo name)" for port
      using fold_max_ge [of port "used_ports topo name" 0] that by (simp add: highest_used_port_def cap_def)
    moreover have "?h \<in> insert 0 (set (used_ports topo name))" unfolding highest_used_port_def by (rule fold_max_mem)
    then have "cap \<in> {pf_default_ports p, requested} \<union> int ` set (used_ports topo name)"
      using d by (auto simp: cap_def max_def)
    moreover have "capacity_for_node topo name = (if cap \<le> pf_max_ports p then Inr cap else Inl (CapacityExceeded cap))"
      using True p Some assms unfolding capacity_for_node_def cap_def Let_def
      by (simp only: option.case simp_thms if_False not_le [symmetric] if_not_P split: if_split) blast
    moreover have "0 < cap" "pf_default_ports p \<le> cap" "requested \<le> cap" using d by (simp_all add: cap_def)
    ultimately show ?thesis using True p Some by auto
  qed
qed

definition warm_node :: "string \<Rightarrow> vdnode" where
  "warm_node ports = \<lparr>nd_name = ''r1'', nd_kind = ''linux'', nd_image = ''vrnetlab/OpenWRT:1'', nd_mgmt_ipv4 = [],
     nd_mgmt_ipv4_explicit = False, nd_env = [(''DNLAB_WARM_LINKS_IMAGE_STATUS'', ''Validated''), (''DNLAB_WARM_PORTS'', ports)],
     nd_extra = [], nd_persist_id = []\<rparr>"

definition warm_topo :: "string \<Rightarrow> topology" where
  "warm_topo ports = \<lparr>tp_name = ''lab'', tp_master = \<lparr>ih_name = ''master'', ih_host = [], ih_ssh_user = [], ih_ssh_key = [], ih_is_master = True\<rparr>,
     tp_workers = [], tp_nodes = [(''r1'', warm_node ports)],
     tp_links = [\<lparr>lk_source = ''r1'', lk_source_iface = ''eth12'', lk_target = ''r1'', lk_target_iface = ''eth3''\<rparr>],
     tp_mgmt = \<lparr>mg_network = [], mg_bridge = [], mg_ipv4_subnet = [], mg_ipv4_gw = [],
       mg_docker_ipv4_gw = [], mg_ipv6_subnet = [], mg_ipv6_gw = []\<rparr>,
     tp_real_nets = [], tp_real_net_links = [], tp_resource_specs = []\<rparr>"

lemma warm_texts: "str_lower ''vrnetlab/OpenWRT:1'' = ''vrnetlab/openwrt:1''" "str_lower ''Validated'' = ''validated''"
  by code_simp+

lemma warm_node_profile: "profile_for_node (warm_node ports) = Some (prof 8 64)"
  by (simp add: profile_for_node_def profile_key_def warm_node_def image_profile_patterns_def warm_texts
      startswith_def profiles_def)

lemma warm_node_enabled: "is_enabled (warm_node ports)"
  using warm_node_profile [of ports]
  by (simp add: is_enabled_def node_image_status_def warm_node_def image_status_env_def dict_get_or_def warm_texts)

lemma warm_capacity: "capacity_for_node (warm_topo ''20'') ''r1'' = Inr 20"
proof -
  have "dict_get (tp_nodes (warm_topo ''20'')) ''r1'' = Some (warm_node ''20'')" by (simp add: warm_topo_def)
  moreover have "requested_ports (warm_node ''20'') = Some 20"
    by (simp add: requested_ports_def warm_node_def dict_get_or_def py_int_def str_strip_def strip_by_def is_space_def
        is_digit_def read_digits_def)
  moreover have "highest_used_port (warm_topo ''20'') ''r1'' = 12"
    by (simp add: highest_used_port_def used_ports_def warm_topo_def iface_index_def startswith_def is_digit_def read_digits_def)
  ultimately show ?thesis
    using warm_node_profile [of "''20''"] warm_node_enabled [of "''20''"] by (simp add: capacity_for_node_def prof_def)
qed

theorem capacity_for_node_bounds_witness:
  "\<exists>p. profile_for_node (warm_node ''20'') = Some p \<and> (20::int) \<le> pf_max_ports p \<and> pf_default_ports p \<le> 20"
proof -
  have "dict_get (tp_nodes (warm_topo ''20'')) ''r1'' = Some (warm_node ''20'')" by (simp add: warm_topo_def)
  moreover have "requested_ports (warm_node ''20'') = Some 20"
    by (simp add: requested_ports_def warm_node_def dict_get_or_def py_int_def str_strip_def strip_by_def is_space_def
        is_digit_def read_digits_def)
  ultimately show ?thesis
    using capacity_for_node_bounds [of "warm_topo ''20''" "''r1''" "warm_node ''20''"] warm_node_enabled [of "''20''"]
    by (auto simp: warm_capacity split: if_splits)
qed

text \<open>
  A node is enabled after inspecting its image exactly when it has a known profile, the
  image is present, declares the capability \<open>warm-links-v1\<close> and calls itself validated or
  experimental; whatever the node's environment said before does not matter.
\<close>

theorem inspect_decides:
  "(is_enabled (fst (inspect_image_on_host node inspected)) \<longleftrightarrow>
     profile_for_node node \<noteq> None \<and>
     (\<exists>labels. inspected = Some labels \<and> ''warm-links-v1'' \<in> set (capabilities labels)
        \<and> str_lower (dict_get_or labels ''org.dnlab.warm-links.status'' ''experimental'') \<in> {''validated'', ''experimental''}))
   \<and> dict_get (nd_env (fst (inspect_image_on_host node inspected))) image_status_env
       = Some (snd (inspect_image_on_host node inspected))"
proof -
  have prof: "profile_for_node (node\<lparr>nd_env := e\<rparr>) = profile_for_node node" for e
  proof -
    have "nd_image (node\<lparr>nd_env := e\<rparr>) = nd_image node" "nd_kind (node\<lparr>nd_env := e\<rparr>) = nd_kind node" by simp_all
    then show ?thesis by (simp only: profile_for_node_def profile_key_def)
  qed
  have ne: "base_digest_env \<noteq> image_status_env" by (simp add: base_digest_env_def image_status_env_def)
  have low: "str_lower ''validated'' = ''validated''" "str_lower ''experimental'' = ''experimental''"
    "str_lower ''unsupported'' = ''unsupported''" "str_lower ''missing'' = ''missing''" by code_simp+
  show ?thesis
  proof (cases inspected)
    case None
    then show ?thesis
      using ne by (auto simp: inspect_image_on_host_def is_enabled_def prof node_image_status_def dict_get_or_def low)
  next
    case (Some labels)
    let ?env = "nd_env (fst (apply_image_labels node labels))"
    have env: "dict_get ?env image_status_env = Some (label_status labels)"
      using ne by (simp add: apply_image_labels_def Let_def)
    have "is_enabled (fst (apply_image_labels node labels)) \<longleftrightarrow>
        profile_for_node node \<noteq> None \<and> str_lower (label_status labels) \<in> {''validated'', ''experimental''}"
      using env by (simp add: is_enabled_def node_image_status_def dict_get_or_def)
        (simp add: apply_image_labels_def Let_def prof)
    moreover have "str_lower (label_status labels) \<in> {''validated'', ''experimental''} \<longleftrightarrow>
        ''warm-links-v1'' \<in> set (capabilities labels)
        \<and> str_lower (dict_get_or labels ''org.dnlab.warm-links.status'' ''experimental'') \<in> {''validated'', ''experimental''}"
      by (auto simp: label_status_def Let_def low)
    moreover have "snd (apply_image_labels node labels) = label_status labels" by (simp add: apply_image_labels_def Let_def)
    ultimately show ?thesis using Some env by (simp add: inspect_image_on_host_def)
  qed
qed

end
