(* ===== verification/RuntimeLinks.thy ===== *)
theory RuntimeLinks
  imports Remote WarmLinks
begin

text \<open>
  Runtime links between the devices of a lab, \<open>services/runtime_links.py\<close>: the desired links of
  a schedule, their stable identifiers, and the commands that create, delete and reconcile them.
  A link is changed in place by the code; here the operations return it, together with the
  exception they end with, if any.
\<close>

section \<open>Desired links\<close>

definition node_endpoint :: "string \<Rightarrow> string \<Rightarrow> (string, string) dict" where
  "node_endpoint node iface = [(''node'', node), (''iface'', iface)]"

definition warm_enabled :: "topology \<Rightarrow> string \<Rightarrow> exn + bool" where
  "warm_enabled topo node =
     (case dict_get (tp_nodes topo) node of None \<Rightarrow> Inl (KeyErr node) | Some n \<Rightarrow> Inr (is_enabled n))"

definition endpoint_name :: "topology \<Rightarrow> string \<Rightarrow> string \<Rightarrow> string \<Rightarrow> string \<Rightarrow> exn + string" where
  "endpoint_name topo node iface link_id fallback =
     bindE (warm_enabled topo node) (\<lambda>warm. Inr
       (if warm then runtime_port_endpoint (tp_name topo) node iface
        else or_else fallback (runtime_host_endpoint (tp_name topo) node iface link_id)))"

definition base_link :: "string \<Rightarrow> string \<Rightarrow> runtime_link_state" where
  "base_link link_id link_type =
     \<lparr>lst_id = link_id, lst_link_type = link_type, lst_endpoint_a = [], lst_endpoint_b = [], lst_host_a = [], lst_host_b = [],
      lst_host_endpoint_a = [], lst_host_endpoint_b = [], lst_container_a = [], lst_container_b = [],
      lst_warm_a = False, lst_warm_b = False, lst_vxlan_id = 0, lst_state = ''down'', lst_last_error = [],
      lst_validation_error = False\<rparr>"

definition same_host_link :: "topology \<Rightarrow> schedule_plan \<Rightarrow> nat \<times> link \<Rightarrow> exn + runtime_link_state" where
  "same_host_link topo plan il =
     (case il of (idx, l) \<Rightarrow>
        (let link_id = ''l'' @ show_nat idx;
             host = (case host_for_vd (sp_assignments plan) (lk_source l) of None \<Rightarrow> [] | Some h \<Rightarrow> h)
         in bindE (endpoint_name topo (lk_source l) (lk_source_iface l) link_id []) (\<lambda>ea.
            bindE (endpoint_name topo (lk_target l) (lk_target_iface l) link_id []) (\<lambda>eb.
            bindE (warm_enabled topo (lk_source l)) (\<lambda>wa.
            bindE (warm_enabled topo (lk_target l)) (\<lambda>wb.
            Inr ((base_link link_id ''same_host'')
              \<lparr>lst_endpoint_a := node_endpoint (lk_source l) (lk_source_iface l),
               lst_endpoint_b := node_endpoint (lk_target l) (lk_target_iface l),
               lst_host_a := host, lst_host_b := host, lst_host_endpoint_a := ea, lst_host_endpoint_b := eb,
               lst_container_a := micro_vd_container_name (tp_name topo) (lk_source l),
               lst_container_b := micro_vd_container_name (tp_name topo) (lk_target l),
               lst_warm_a := wa, lst_warm_b := wb\<rparr>)))))))"

text \<open>A host the scheduler did not find, \<^const>\<open>None\<close> in the plan, is the empty name here.\<close>

definition cross_host_runtime_link :: "topology \<Rightarrow> nat \<times> cross_host_link \<Rightarrow> exn + runtime_link_state" where
  "cross_host_runtime_link topo il =
     (case il of (idx, l) \<Rightarrow>
        (let link_id = ''vx'' @ show_nat idx
         in bindE (endpoint_name topo (ch_source_node l) (ch_source_iface l) link_id (ch_source_host_iface l)) (\<lambda>ea.
            bindE (endpoint_name topo (ch_target_node l) (ch_target_iface l) link_id (ch_target_host_iface l)) (\<lambda>eb.
            bindE (warm_enabled topo (ch_source_node l)) (\<lambda>wa.
            bindE (warm_enabled topo (ch_target_node l)) (\<lambda>wb.
            Inr ((base_link link_id ''cross_host'')
              \<lparr>lst_endpoint_a := node_endpoint (ch_source_node l) (ch_source_iface l),
               lst_endpoint_b := node_endpoint (ch_target_node l) (ch_target_iface l),
               lst_host_a := (case ch_source_host l of None \<Rightarrow> [] | Some h \<Rightarrow> h),
               lst_host_b := (case ch_target_host l of None \<Rightarrow> [] | Some h \<Rightarrow> h),
               lst_host_endpoint_a := ea, lst_host_endpoint_b := eb,
               lst_container_a := micro_vd_container_name (tp_name topo) (ch_source_node l),
               lst_container_b := micro_vd_container_name (tp_name topo) (ch_target_node l),
               lst_warm_a := wa, lst_warm_b := wb, lst_vxlan_id := int (ch_vxlan_id l)\<rparr>)))))))"

definition real_net_runtime_link :: "topology \<Rightarrow> nat \<times> real_net_link \<Rightarrow> exn + runtime_link_state" where
  "real_net_runtime_link topo il =
     (case il of (idx, l) \<Rightarrow>
        (let link_id = ''rn'' @ show_nat idx
         in bindE (endpoint_name topo (rl_node l) (rl_iface l) link_id
                (or_else (rl_bridge_iface l) (realnet_bridge_iface (rl_node l) (rl_iface l)))) (\<lambda>ea.
            bindE (warm_enabled topo (rl_node l)) (\<lambda>wa.
            Inr ((base_link link_id ''real_net'')
              \<lparr>lst_endpoint_a := node_endpoint (rl_node l) (rl_iface l),
               lst_endpoint_b := [(''real_net'', rl_real_net l)],
               lst_host_a := rl_host l, lst_host_b := rl_host l, lst_host_endpoint_a := ea,
               lst_host_endpoint_b := realnet_bridge_name (tp_name topo) (rl_real_net l),
               lst_container_a := micro_vd_container_name (tp_name topo) (rl_node l), lst_warm_a := wa\<rparr>)))))"

definition build_runtime_links :: "topology \<Rightarrow> schedule_plan \<Rightarrow> exn + runtime_link_state list" where
  "build_runtime_links topo plan =
     bindE (mapE (same_host_link topo plan) (enumerate 0 (sp_local_links plan))) (\<lambda>ls.
     bindE (mapE (cross_host_runtime_link topo) (enumerate 0 (sp_cross_host_links plan))) (\<lambda>vs.
     bindE (mapE (real_net_runtime_link topo) (enumerate 0 (tp_real_net_links topo))) (\<lambda>rs.
     Inr (ls @ vs @ rs))))"

section \<open>Stable identifiers\<close>

definition canonical_key :: "runtime_link_state \<Rightarrow> (string \<times> string) list list" where
  "canonical_key l = sort [sort (lst_endpoint_a l), sort (lst_endpoint_b l)]"

text \<open>
  \<open>while f(i) in used: i += 1\<close>. The loop takes at most as many turns as there are used names;
  \<open>next_free_free\<close> below shows that it never ends for lack of turns.
\<close>

fun skip_used :: "(nat \<Rightarrow> 'a) \<Rightarrow> 'a set \<Rightarrow> nat \<Rightarrow> nat \<Rightarrow> nat" where
  "skip_used f used 0 i = i"
| "skip_used f used (Suc turns) i = (if f i \<in> used then skip_used f used turns (i + 1) else i)"

definition next_free :: "(nat \<Rightarrow> 'a) \<Rightarrow> 'a set \<Rightarrow> nat" where
  "next_free f used = skip_used f used (card used) 0"

definition id_prefix :: "string \<Rightarrow> string" where
  "id_prefix link_type =
     (if link_type = ''same_host'' then ''l'' else if link_type = ''cross_host'' then ''vx''
      else if link_type = ''real_net'' then ''rn'' else ''p'')"

definition new_id :: "string \<Rightarrow> string set \<Rightarrow> string" where
  "new_id link_type used = id_prefix link_type @ show_nat (next_free (\<lambda>i. id_prefix link_type @ show_nat i) used)"

definition new_vxlan :: "int \<Rightarrow> int set \<Rightarrow> int" where
  "new_vxlan candidate used = candidate + int (next_free (\<lambda>i. candidate + int i) used)"

definition adopt :: "runtime_link_state \<Rightarrow> runtime_link_state \<Rightarrow> runtime_link_state" where
  "adopt prior link =
     (let same = (set (lst_endpoint_a link) = set (lst_endpoint_a prior))
      in link\<lparr>lst_id := lst_id prior, lst_vxlan_id := lst_vxlan_id prior,
           lst_host_endpoint_a := (if same then lst_host_endpoint_a prior else lst_host_endpoint_b prior),
           lst_host_endpoint_b := (if same then lst_host_endpoint_b prior else lst_host_endpoint_a prior),
           lst_state := lst_state prior, lst_last_error := lst_last_error prior,
           lst_validation_error := lst_validation_error prior\<rparr>)"

text \<open>A link without a predecessor gets the next free identifier, and a cross-host link a free VXLAN id.\<close>

definition renew ::
  "runtime_link_state \<Rightarrow> string set \<Rightarrow> int set \<Rightarrow> runtime_link_state \<times> string set \<times> int set" where
  "renew link used_ids used_vxlans =
     (let i = new_id (lst_link_type link) used_ids
      in if lst_link_type link = ''cross_host''
         then (let v = new_vxlan (lst_vxlan_id link) used_vxlans
               in (link\<lparr>lst_id := i, lst_vxlan_id := v\<rparr>, insert i used_ids, insert v used_vxlans))
         else (link\<lparr>lst_id := i\<rparr>, insert i used_ids, used_vxlans))"

definition prior_of ::
  "((string \<times> string) list list, runtime_link_state) dict \<Rightarrow> runtime_link_state \<Rightarrow> runtime_link_state option" where
  "prior_of old link =
     (case dict_get old (canonical_key link) of
        Some prior \<Rightarrow> if lst_link_type prior = lst_link_type link then Some prior else None
      | None \<Rightarrow> None)"

fun merge_links ::
  "((string \<times> string) list list, runtime_link_state) dict \<Rightarrow> runtime_link_state list \<Rightarrow> string set \<Rightarrow> int set \<Rightarrow> runtime_link_state list" where
  "merge_links old [] used_ids used_vxlans = []"
| "merge_links old (link # links) used_ids used_vxlans =
     (case prior_of old link of
        Some prior \<Rightarrow> adopt prior link # merge_links old links used_ids used_vxlans
      | None \<Rightarrow> (case renew link used_ids used_vxlans of
          (link', used_ids', used_vxlans') \<Rightarrow> link' # merge_links old links used_ids' used_vxlans'))"

definition merge_runtime_links :: "runtime_link_state list \<Rightarrow> runtime_link_state list \<Rightarrow> runtime_link_state list" where
  "merge_runtime_links rebuilt previous =
     merge_links (dict_of (map (\<lambda>l. (canonical_key l, l)) previous)) rebuilt
       (set (map lst_id previous)) (set (filter (\<lambda>v. v \<noteq> 0) (map lst_vxlan_id previous)))"

definition pending_link :: "(string, string) dict \<Rightarrow> (string, string) dict \<Rightarrow> string list \<Rightarrow> runtime_link_state" where
  "pending_link ea eb missing =
     (base_link [] ''pending'')\<lparr>lst_endpoint_a := ea, lst_endpoint_b := eb, lst_state := ''partial'',
       lst_last_error := ''endpoint not started: '' @ str_join '', '' missing\<rparr>"

definition pending_runtime_links :: "topology \<Rightarrow> string set \<Rightarrow> runtime_link_state list" where
  "pending_runtime_links topo scheduled =
     map (\<lambda>l. pending_link (node_endpoint (lk_source l) (lk_source_iface l)) (node_endpoint (lk_target l) (lk_target_iface l))
            (sort (remdups (filter (\<lambda>n. n \<notin> scheduled) [lk_source l, lk_target l]))))
       (filter (\<lambda>l. \<not> {lk_source l, lk_target l} \<subseteq> scheduled) (tp_links topo))
     @ map (\<lambda>l. pending_link (node_endpoint (rl_node l) (rl_iface l)) [(''real_net'', rl_real_net l)] [rl_node l])
         (filter (\<lambda>l. rl_node l \<notin> scheduled) (tp_real_net_links topo))"

section \<open>Names and commands\<close>

definition nodes_in_link :: "runtime_link_state \<Rightarrow> string list" where
  "nodes_in_link link =
     filter (\<lambda>n. n \<noteq> []) (List.map_filter (\<lambda>e. dict_get e ''node'') [lst_endpoint_a link, lst_endpoint_b link])"

definition stopped_endpoints :: "runtime_link_state \<Rightarrow> string set \<Rightarrow> string list" where
  "stopped_endpoints link running = filter (\<lambda>n. n \<notin> running) (nodes_in_link link)"

definition runtime_bridge_name :: "runtime_link_state \<Rightarrow> string" where
  "runtime_bridge_name link = take 15 (''br-rt-'' @ take 8 (sha1_hexdigest (encode (lst_id link))))"

definition vxlan_altname :: "string \<Rightarrow> string" where
  "vxlan_altname host_endpoint = ''vx-'' @ host_endpoint"

definition forward_rule :: "string \<Rightarrow> string \<Rightarrow> string" where
  "forward_rule dir bridge = ''-'' @ dir @ '' '' @ bridge @ '' -m comment --comment '' @ sq (''dnlab runtime '' @ bridge) @ '' -j ACCEPT''"

definition ensure_forwarding_cmd :: "string \<Rightarrow> string" where
  "ensure_forwarding_cmd bridge =
     ''iptables -C FORWARD '' @ forward_rule ''i'' bridge @ '' 2>/dev/null || iptables -I FORWARD 1 '' @ forward_rule ''i'' bridge
     @ ''; iptables -C FORWARD '' @ forward_rule ''o'' bridge @ '' 2>/dev/null || iptables -I FORWARD 1 '' @ forward_rule ''o'' bridge"

definition remove_forwarding_cmd :: "string \<Rightarrow> string" where
  "remove_forwarding_cmd bridge =
     ''while iptables -C FORWARD '' @ forward_rule ''i'' bridge @ '' 2>/dev/null; do iptables -D FORWARD '' @ forward_rule ''i'' bridge
     @ ''; done; while iptables -C FORWARD '' @ forward_rule ''o'' bridge @ '' 2>/dev/null; do iptables -D FORWARD ''
     @ forward_rule ''o'' bridge @ ''; done''"

section \<open>Carriers of warm links\<close>

text \<open>
  The world an operation runs in: what commands return, the monotonic clock in milliseconds as
  a function of the trace, and the time to wait for a link controller.
\<close>

record world =
  w_env :: env
  w_now :: "trace \<Rightarrow> nat"
  w_ready_timeout :: nat

definition retry_interval :: nat where
  "retry_interval = 250"

definition not_ready :: "exn \<Rightarrow> bool" where
  "not_ready e \<longleftrightarrow> str_in ''no such file or directory'' (str_lower (exn_str e))
     \<or> str_in ''connection refused'' (str_lower (exn_str e))"

text \<open>
  \<open>_run_linkctl_when_ready\<close>: try until it works, fails for another reason, or the deadline has
  passed. The number of turns is bounded by the time to wait; \<open>linkctl_ends\<close> shows that the
  bound is never what ends the loop.
\<close>

fun linkctl_loop :: "world \<Rightarrow> nat \<Rightarrow> nat \<Rightarrow> string \<Rightarrow> string \<Rightarrow> unit action" where
  "linkctl_loop w deadline 0 host cmd = raiseA OutOfFuel"
| "linkctl_loop w deadline (Suc turns) host cmd =
     catchA (exec_cmd (w_env w) host cmd True)
       (\<lambda>e tr. if \<not> not_ready e \<or> deadline \<le> w_now w tr then raiseA e tr
                else seqA sleepA (linkctl_loop w deadline turns host cmd) tr)"

definition run_linkctl_when_ready :: "world \<Rightarrow> string \<Rightarrow> string \<Rightarrow> unit action" where
  "run_linkctl_when_ready w host cmd tr =
     linkctl_loop w (w_now w tr + w_ready_timeout w) (w_ready_timeout w div retry_interval + 2) host cmd tr"

definition valid_eth :: "string \<Rightarrow> bool" where
  "valid_eth iface \<longleftrightarrow> startswith iface ''eth'' \<and> drop 3 iface \<noteq> [] \<and> list_all is_digit (drop 3 iface) \<and> hd (drop 3 iface) \<noteq> CHR ''0''"

definition safe_name :: "string \<Rightarrow> bool" where
  "safe_name s \<longleftrightarrow> s \<noteq> [] \<and> list_all is_safe s"

definition linkctl_cmd :: "string \<Rightarrow> string \<Rightarrow> string \<Rightarrow> string" where
  "linkctl_cmd container iface state = ''docker exec '' @ container @ '' dnlab-linkctl '' @ iface @ '' '' @ state"

definition deferred_cmd :: "string \<Rightarrow> string \<Rightarrow> string" where
  "deferred_cmd container iface = ''docker exec -d '' @ container @ '' sh -c ''
     @ shlex_quote (''while [ ! -S /run/dnlab-link-control.sock ]; do sleep 0.25; done; exec dnlab-linkctl '' @ iface @ '' up'')"

definition set_carrier ::
  "world \<Rightarrow> string list \<Rightarrow> string \<Rightarrow> bool \<Rightarrow> bool \<Rightarrow> bool \<times> string \<times> string \<times> string \<Rightarrow> unit action" where
  "set_carrier w clients state check defer target =
     (case target of (enabled, host, container, iface) \<Rightarrow>
        if \<not> enabled then retA ()
        else if \<not> safe_name container \<or> \<not> valid_eth iface
        then raiseA (Raised (''unsafe warm-link target '' @ container @ '':'' @ iface))
        else if host \<notin> set clients
        then (if check then raiseA (Raised (''host client unavailable for warm-link target '' @ host)) else retA ())
        else if defer \<and> state = ''up'' then exec_cmd (w_env w) host (deferred_cmd container iface) check
        else if \<not> check \<or> state \<noteq> ''up'' then exec_cmd (w_env w) host (linkctl_cmd container iface state) check
        else run_linkctl_when_ready w host (linkctl_cmd container iface state))"

definition carrier_targets :: "runtime_link_state \<Rightarrow> (bool \<times> string \<times> string \<times> string) list" where
  "carrier_targets link =
     [(lst_warm_a link, lst_host_a link, lst_container_a link, dict_get_or (lst_endpoint_a link) ''iface'' []),
      (lst_warm_b link, lst_host_b link, lst_container_b link, dict_get_or (lst_endpoint_b link) ''iface'' [])]"

definition set_link_carriers :: "world \<Rightarrow> runtime_link_state \<Rightarrow> string list \<Rightarrow> string \<Rightarrow> bool \<Rightarrow> bool \<Rightarrow> unit action" where
  "set_link_carriers w link clients state check defer =
     forA (carrier_targets link) (set_carrier w clients state check defer)"

section \<open>Creating and deleting\<close>

definition ensure_bridge_cmd :: "string \<Rightarrow> string" where
  "ensure_bridge_cmd bridge = ''ip link show '' @ bridge @ '' >/dev/null 2>&1 || ip link add '' @ bridge @ '' type bridge''"

definition bridge_delete_cmd :: "string \<Rightarrow> string" where
  "bridge_delete_cmd iface = ''ip link delete '' @ iface @ '' 2>/dev/null''"

definition link_up_cmd :: "string \<Rightarrow> string" where
  "link_up_cmd iface = ''ip link set '' @ iface @ '' up''"

definition link_master_cmd :: "string \<Rightarrow> string \<Rightarrow> string" where
  "link_master_cmd iface bridge = ''ip link set '' @ iface @ '' master '' @ bridge"

definition link_nomaster_cmd :: "string \<Rightarrow> string" where
  "link_nomaster_cmd iface = ''ip link set '' @ iface @ '' nomaster 2>/dev/null''"

definition create_same_host :: "world \<Rightarrow> runtime_link_state \<Rightarrow> string list \<Rightarrow> bool \<Rightarrow> unit action" where
  "create_same_host w link clients defer =
     bindA (client_of clients (lst_host_a link)) (\<lambda>client.
     let bridge = runtime_bridge_name link in
     seqA (exec_cmd (w_env w) client (ensure_bridge_cmd bridge) True)
    (seqA (exec_cmd (w_env w) client (link_up_cmd bridge) True)
    (seqA (exec_cmd (w_env w) client (ensure_forwarding_cmd bridge) False)
    (catchA
       (seqA (forA [lst_host_endpoint_a link, lst_host_endpoint_b link]
                (\<lambda>iface. seqA (exec_cmd (w_env w) client (link_up_cmd iface) True)
                              (exec_cmd (w_env w) client (link_master_cmd iface bridge) True)))
             (set_link_carriers w link clients ''up'' True defer))
       (\<lambda>e. seqA (set_link_carriers w link clients ''down'' False False)
           (seqA (exec_cmd (w_env w) client (remove_forwarding_cmd bridge) False)
           (seqA (exec_cmd (w_env w) client (bridge_delete_cmd bridge) False)
                 (raiseA e))))))))"

definition delete_same_host :: "world \<Rightarrow> runtime_link_state \<Rightarrow> string list \<Rightarrow> unit action" where
  "delete_same_host w link clients =
     seqA (set_link_carriers w link clients ''down'' False False)
       (if lst_host_a link \<in> set clients
        then seqA (exec_cmd (w_env w) (lst_host_a link) (remove_forwarding_cmd (runtime_bridge_name link)) False)
                  (exec_cmd (w_env w) (lst_host_a link) (bridge_delete_cmd (runtime_bridge_name link)) False)
        else retA ())"

definition vxlan_ensure_cmd :: "string \<Rightarrow> int \<Rightarrow> string \<Rightarrow> string" where
  "vxlan_ensure_cmd remote vni iface =
     ''ip link show '' @ vxlan_altname iface @ '' >/dev/null 2>&1 || containerlab tools vxlan create --remote '' @ remote
     @ '' --id '' @ show_int vni @ '' --link '' @ iface"

definition delete_cross_host_network :: "world \<Rightarrow> runtime_link_state \<Rightarrow> string list \<Rightarrow> unit action" where
  "delete_cross_host_network w link clients =
     forA [(lst_host_a link, lst_host_endpoint_a link), (lst_host_b link, lst_host_endpoint_b link)]
       (\<lambda>(host, iface). if host \<in> set clients
                        then exec_cmd (w_env w) host (bridge_delete_cmd (vxlan_altname iface)) False else retA ())"

text \<open>\<open>underlay_ips[host]\<close> raises a \<open>KeyError\<close>.\<close>

definition underlay_of :: "(string, string) dict \<Rightarrow> string \<Rightarrow> string action" where
  "underlay_of ips host = (case dict_get ips host of None \<Rightarrow> raiseA (KeyErr host) | Some ip \<Rightarrow> retA ip)"

definition create_cross_host ::
  "world \<Rightarrow> runtime_link_state \<Rightarrow> string list \<Rightarrow> (string, string) dict \<Rightarrow> bool \<Rightarrow> unit action" where
  "create_cross_host w link clients underlay_ips defer =
     bindA (client_of clients (lst_host_a link)) (\<lambda>src.
     bindA (client_of clients (lst_host_b link)) (\<lambda>dst.
     catchA
       (bindA (underlay_of underlay_ips (lst_host_b link)) (\<lambda>ip_b.
        seqA (exec_cmd (w_env w) src (vxlan_ensure_cmd ip_b (lst_vxlan_id link) (lst_host_endpoint_a link)) True)
       (bindA (underlay_of underlay_ips (lst_host_a link)) (\<lambda>ip_a.
        seqA (exec_cmd (w_env w) dst (vxlan_ensure_cmd ip_a (lst_vxlan_id link) (lst_host_endpoint_b link)) True)
             (set_link_carriers w link clients ''up'' True defer)))))
       (\<lambda>e. seqA (set_link_carriers w link clients ''down'' False False)
           (seqA (delete_cross_host_network w link clients)
                 (raiseA e)))))"

definition delete_cross_host :: "world \<Rightarrow> runtime_link_state \<Rightarrow> string list \<Rightarrow> unit action" where
  "delete_cross_host w link clients =
     seqA (set_link_carriers w link clients ''down'' False False) (delete_cross_host_network w link clients)"

definition create_realnet :: "world \<Rightarrow> runtime_link_state \<Rightarrow> string list \<Rightarrow> bool \<Rightarrow> unit action" where
  "create_realnet w link clients defer =
     bindA (client_of clients (lst_host_a link)) (\<lambda>client.
     seqA (exec_cmd (w_env w) client (link_up_cmd (lst_host_endpoint_a link)) True)
    (catchA
       (seqA (exec_cmd (w_env w) client (link_master_cmd (lst_host_endpoint_a link) (lst_host_endpoint_b link)) True)
             (set_link_carriers w link clients ''up'' True defer))
       (\<lambda>e. seqA (set_link_carriers w link clients ''down'' False False)
           (seqA (exec_cmd (w_env w) client (link_nomaster_cmd (lst_host_endpoint_a link)) False)
                 (raiseA e)))))"

definition delete_realnet :: "world \<Rightarrow> runtime_link_state \<Rightarrow> string list \<Rightarrow> unit action" where
  "delete_realnet w link clients =
     seqA (set_link_carriers w link clients ''down'' False False)
       (if lst_host_a link \<in> set clients
        then exec_cmd (w_env w) (lst_host_a link) (link_nomaster_cmd (lst_host_endpoint_a link)) False else retA ())"

text \<open>
  The public operations record the outcome in the link. \<open>running_nodes or nodes\<close>: an empty set
  of running nodes is replaced by the nodes of the link.
\<close>

definition settle :: "string \<Rightarrow> runtime_link_state \<Rightarrow> unit action \<Rightarrow> trace \<Rightarrow> (exn option \<times> runtime_link_state) \<times> trace" where
  "settle ok_state link act tr =
     (case act tr of
        (Inr _, tr') \<Rightarrow> ((None, link\<lparr>lst_state := ok_state, lst_last_error := []\<rparr>), tr')
      | (Inl e, tr') \<Rightarrow> ((Some e, link\<lparr>lst_state := ''error'', lst_last_error := exn_str e\<rparr>), tr'))"

definition create_action :: "world \<Rightarrow> runtime_link_state \<Rightarrow> string list \<Rightarrow> (string, string) dict \<Rightarrow> bool \<Rightarrow> unit action" where
  "create_action w link clients underlay_ips defer =
     (if lst_link_type link = ''same_host'' then create_same_host w link clients defer
      else if lst_link_type link = ''cross_host'' then create_cross_host w link clients underlay_ips defer
      else if lst_link_type link = ''real_net'' then create_realnet w link clients defer
      else raiseA (Raised (''unsupported link_type '' @ sq (lst_link_type link))))"

definition create_link ::
  "world \<Rightarrow> runtime_link_state \<Rightarrow> string list \<Rightarrow> (string, string) dict \<Rightarrow> string set \<Rightarrow> bool
     \<Rightarrow> trace \<Rightarrow> (exn option \<times> runtime_link_state) \<times> trace" where
  "create_link w link clients underlay_ips running_nodes defer tr =
     (let running = (if running_nodes = {} then set (nodes_in_link link) else running_nodes);
          missing = stopped_endpoints link running
      in if missing \<noteq> []
         then ((None, link\<lparr>lst_state := ''partial'',
                   lst_last_error := ''endpoint stopped: '' @ str_join '', '' (sort (remdups missing))\<rparr>), tr)
         else settle ''up'' link (create_action w link clients underlay_ips defer) tr)"

definition delete_action :: "world \<Rightarrow> runtime_link_state \<Rightarrow> string list \<Rightarrow> unit action" where
  "delete_action w link clients =
     (if lst_link_type link = ''same_host'' then delete_same_host w link clients
      else if lst_link_type link = ''cross_host'' then delete_cross_host w link clients
      else if lst_link_type link = ''real_net'' then delete_realnet w link clients
      else retA ())"

definition delete_link ::
  "world \<Rightarrow> runtime_link_state \<Rightarrow> string list \<Rightarrow> trace \<Rightarrow> (exn option \<times> runtime_link_state) \<times> trace" where
  "delete_link w link clients tr = settle ''down'' link (delete_action w link clients) tr"

text \<open>
  The loops over links stop at the first exception: the links before it and the failing one
  have their new state, the rest keeps the old one.
\<close>

fun each_link ::
  "(runtime_link_state \<Rightarrow> bool) \<Rightarrow> (runtime_link_state \<Rightarrow> trace \<Rightarrow> (exn option \<times> runtime_link_state) \<times> trace)
     \<Rightarrow> runtime_link_state list \<Rightarrow> trace \<Rightarrow> (exn option \<times> runtime_link_state list) \<times> trace" where
  "each_link sel op [] tr = ((None, []), tr)"
| "each_link sel op (l # ls) tr =
     (if sel l then
        (case op l tr of
           ((Some e, l'), tr') \<Rightarrow> ((Some e, l' # ls), tr')
         | ((None, l'), tr') \<Rightarrow>
             (case each_link sel op ls tr' of ((r, ls'), tr'') \<Rightarrow> ((r, l' # ls'), tr'')))
      else (case each_link sel op ls tr of ((r, ls'), tr') \<Rightarrow> ((r, l # ls'), tr')))"

definition delete_node_links ::
  "world \<Rightarrow> string \<Rightarrow> runtime_link_state list \<Rightarrow> string list \<Rightarrow> trace \<Rightarrow> (exn option \<times> runtime_link_state list) \<times> trace" where
  "delete_node_links w node links clients =
     each_link (\<lambda>l. node \<in> set (nodes_in_link l)) (\<lambda>l. delete_link w l clients) links"

definition reconcile_all_links ::
  "world \<Rightarrow> runtime_link_state list \<Rightarrow> string list \<Rightarrow> (string, string) dict \<Rightarrow> string set \<Rightarrow> bool
     \<Rightarrow> trace \<Rightarrow> (exn option \<times> runtime_link_state list) \<times> trace" where
  "reconcile_all_links w links clients underlay_ips running_nodes defer =
     each_link (\<lambda>l. \<not> (lst_validation_error l \<or> lst_link_type l = ''pending''))
       (\<lambda>l. create_link w l clients underlay_ips running_nodes defer) links"

definition reconcile_node_links ::
  "world \<Rightarrow> string \<Rightarrow> runtime_link_state list \<Rightarrow> string list \<Rightarrow> (string, string) dict \<Rightarrow> string set
     \<Rightarrow> trace \<Rightarrow> (exn option \<times> runtime_link_state list) \<times> trace" where
  "reconcile_node_links w node links clients underlay_ips running_nodes =
     each_link (\<lambda>l. node \<in> set (nodes_in_link l) \<and> \<not> lst_validation_error l)
       (\<lambda>l. create_link w l clients underlay_ips running_nodes False) links"

section \<open>Identifiers: lemmas\<close>

lemma skip_used_free:
  assumes "inj f" "finite used"
  shows "card (used \<inter> f ` {i..}) \<le> turns \<Longrightarrow> f (skip_used f used turns i) \<notin> used"
proof (induction turns arbitrary: i)
  case 0
  then have "used \<inter> f ` {i..} = {}" using assms(2) by simp
  then show ?case by auto
next
  case (Suc turns)
  have "card (used \<inter> f ` {i + 1..}) \<le> turns" if u: "f i \<in> used"
  proof -
    have "f ` {i..} = insert (f i) (f ` {i + 1..})" unfolding image_insert [symmetric] by (rule arg_cong [of _ _ "image f"]) auto
    moreover have "f i \<notin> f ` {i + 1..}" using assms(1) by (auto simp: inj_eq)
    ultimately have "used \<inter> f ` {i + 1..} = (used \<inter> f ` {i..}) - {f i}" by (metis Diff_insert_absorb Int_Diff)
    moreover have "f i \<in> used \<inter> f ` {i..}" using u by auto
    ultimately show ?thesis using Suc.prems assms(2) by (simp add: card_Diff_singleton)
  qed
  then show ?case using Suc.IH by auto
qed

lemma next_free_free: "inj f \<Longrightarrow> finite used \<Longrightarrow> f (next_free f used) \<notin> used"
  unfolding next_free_def by (rule skip_used_free) (auto intro: card_mono)

interpretation link_ids: fresh_supply "\<lambda>l. new_id (lst_link_type l)"
  by unfold_locales
    (simp add: new_id_def next_free_free [where f = "\<lambda>i. id_prefix t @ show_nat i" for t] inj_def)

interpretation link_vnis: fresh_supply "\<lambda>l. new_vxlan (lst_vxlan_id l)"
  by unfold_locales
    (simp add: new_vxlan_def next_free_free [where f = "\<lambda>i. c + int i" for c] inj_def)

lemma adopt_fields [simp]:
  "lst_id (adopt p l) = lst_id p" "lst_vxlan_id (adopt p l) = lst_vxlan_id p" "lst_state (adopt p l) = lst_state p"
  "lst_last_error (adopt p l) = lst_last_error p" "lst_link_type (adopt p l) = lst_link_type l"
  "lst_endpoint_a (adopt p l) = lst_endpoint_a l" "lst_endpoint_b (adopt p l) = lst_endpoint_b l"
  by (simp_all add: adopt_def Let_def)

lemma renew_cross:
  "lst_link_type l = ''cross_host'' \<Longrightarrow> renew l U V =
     (l\<lparr>lst_id := new_id (lst_link_type l) U, lst_vxlan_id := new_vxlan (lst_vxlan_id l) V\<rparr>,
      insert (new_id (lst_link_type l) U) U, insert (new_vxlan (lst_vxlan_id l) V) V)"
  by (simp add: renew_def Let_def)

lemma renew_other:
  "lst_link_type l \<noteq> ''cross_host'' \<Longrightarrow>
     renew l U V = (l\<lparr>lst_id := new_id (lst_link_type l) U\<rparr>, insert (new_id (lst_link_type l) U) U, V)"
  by (simp add: renew_def Let_def)

lemmas renew_cases = renew_cross renew_other

text \<open>Identifiers and VXLAN ids of a merge are assigned as by a supply of fresh names.\<close>

lemma merge_ids:
  "map lst_id (merge_links old ls U V) = assign (\<lambda>l. map_option lst_id (prior_of old l)) (\<lambda>l. new_id (lst_link_type l)) ls U"
proof (induction ls arbitrary: U V)
  case (Cons l ls)
  then show ?case
    by (cases "lst_link_type l = ''cross_host''") (auto simp: renew_cases Let_def split: option.split)
qed simp

lemma merge_vnis:
  "map lst_vxlan_id (filter (\<lambda>l. lst_link_type l = ''cross_host'') (merge_links old ls U V))
   = assign (\<lambda>l. map_option lst_vxlan_id (prior_of old l)) (\<lambda>l. new_vxlan (lst_vxlan_id l))
       (filter (\<lambda>l. lst_link_type l = ''cross_host'') ls) V"
proof (induction ls arbitrary: U V)
  case (Cons l ls)
  then show ?case
    by (cases "lst_link_type l = ''cross_host''") (auto simp: renew_cases Let_def split: option.split)
qed simp

lemma length_merge [simp]: "length (merge_links old ls U V) = length ls"
  using arg_cong [OF merge_ids [of old ls U V], of length] by simp

lemma merge_nth:
  "i < length ls \<Longrightarrow> \<exists>U' V'. merge_links old ls U V ! i =
     (case prior_of old (ls ! i) of Some p \<Rightarrow> adopt p (ls ! i) | None \<Rightarrow> fst (renew (ls ! i) U' V'))"
proof (induction ls arbitrary: i U V)
  case (Cons l ls)
  show ?case
  proof (cases i)
    case 0
    have "\<exists>U' V'. x = fst (renew l U' V')" if "renew l U V = (x, u)" for x u using that by (metis fst_conv)
    then show ?thesis using 0 by (auto split: option.split prod.split)
  next
    case (Suc j)
    then show ?thesis using Cons.prems Cons.IH [of j] by (auto split: option.split prod.split)
  qed
qed simp

text \<open>The interface on the host that carries each end of a link.\<close>

definition wiring :: "runtime_link_state \<Rightarrow> ((string \<times> string) set \<times> string) set" where
  "wiring l = {(set (lst_endpoint_a l), lst_host_endpoint_a l), (set (lst_endpoint_b l), lst_host_endpoint_b l)}"

lemma sort_pair_eq: "sort [x, y] = sort [x', y'] \<Longrightarrow> (x = x' \<and> y = y') \<or> (x = y' \<and> y = x')"
  by (auto split: if_splits)

lemma adopt_wiring:
  assumes "canonical_key p = canonical_key l"
  shows "wiring (adopt p l) = wiring p"
proof -
  have "(set (lst_endpoint_a p) = set (lst_endpoint_a l) \<and> set (lst_endpoint_b p) = set (lst_endpoint_b l))
      \<or> (set (lst_endpoint_a p) = set (lst_endpoint_b l) \<and> set (lst_endpoint_b p) = set (lst_endpoint_a l))"
    using sort_pair_eq [OF assms [unfolded canonical_key_def]] by (metis set_sort)
  then show ?thesis by (auto simp: wiring_def adopt_def Let_def)
qed

definition previous_index :: "runtime_link_state list \<Rightarrow> ((string \<times> string) list list, runtime_link_state) dict" where
  "previous_index previous = dict_of (map (\<lambda>l. (canonical_key l, l)) previous)"

lemma previous_index_Some:
  "dict_get (previous_index previous) k = Some p \<Longrightarrow> p \<in> set previous \<and> canonical_key p = k"
  unfolding previous_index_def dict_get_dict_of by (drule map_of_SomeD) auto

lemma prior_of_Some:
  "prior_of (previous_index previous) l = Some p \<Longrightarrow>
     p \<in> set previous \<and> canonical_key p = canonical_key l \<and> lst_link_type p = lst_link_type l"
  by (auto simp: prior_of_def dest: previous_index_Some split: option.splits if_splits)

lemma prior_of_complete:
  assumes "distinct (map canonical_key previous)" "p \<in> set previous"
    "canonical_key p = canonical_key l" "lst_link_type p = lst_link_type l"
  shows "prior_of (previous_index previous) l = Some p"
proof -
  have "dict_get (previous_index previous) (canonical_key l) = Some p"
    unfolding previous_index_def dict_get_dict_of using assms
    by (intro map_of_is_SomeI) (auto simp: comp_def image_iff simp flip: rev_map)
  then show ?thesis using assms(4) by (simp add: prior_of_def)
qed

lemma merge_def_index:
  "merge_runtime_links rebuilt previous = merge_links (previous_index previous) rebuilt (lst_id ` set previous)
     ((lst_vxlan_id ` set previous) - {0})"
proof -
  have "set (filter (\<lambda>v. v \<noteq> 0) (map lst_vxlan_id previous)) = (lst_vxlan_id ` set previous) - {0}" by auto
  then show ?thesis by (simp add: merge_runtime_links_def previous_index_def)
qed

lemma map_filter_cons: "List.map_filter f (x # xs) = (case f x of None \<Rightarrow> [] | Some y \<Rightarrow> [y]) @ List.map_filter f xs"
  by (simp add: map_filter_simps split: option.split)

lemma kept_distinct:
  assumes "distinct (map canonical_key ls)"
    and "\<And>l p. l \<in> set ls \<Longrightarrow> prior_of (previous_index previous) l = Some p \<Longrightarrow> P p"
    and "inj_on f {p \<in> set previous. P p}"
  shows "distinct (List.map_filter (\<lambda>l. map_option f (prior_of (previous_index previous) l)) ls)"
    and "set (List.map_filter (\<lambda>l. map_option f (prior_of (previous_index previous) l)) ls)
      \<subseteq> f ` {p \<in> set previous. P p \<and> canonical_key p \<in> canonical_key ` set ls}"
proof -
  let ?k = "\<lambda>l. map_option f (prior_of (previous_index previous) l)"
  have s: "set (List.map_filter ?k xs) \<subseteq> f ` {p \<in> set previous. P p \<and> canonical_key p \<in> canonical_key ` set xs}"
    if "set xs \<subseteq> set ls" for xs
    using that
  proof (induction xs)
    case (Cons x xs)
    then show ?case using prior_of_Some [of previous x] assms(2) [of x]
      by (auto simp: map_filter_cons split: option.split)
  qed (simp add: map_filter_simps)
  show "set (List.map_filter ?k ls) \<subseteq> f ` {p \<in> set previous. P p \<and> canonical_key p \<in> canonical_key ` set ls}"
    by (rule s) simp
  have "distinct (List.map_filter ?k xs)" if "set xs \<subseteq> set ls" "distinct (map canonical_key xs)" for xs
    using that
  proof (induction xs)
    case (Cons x xs)
    have "f p \<notin> set (List.map_filter ?k xs)" if p: "prior_of (previous_index previous) x = Some p" for p
    proof
      assume "f p \<in> set (List.map_filter ?k xs)"
      then obtain q where q: "f p = f q" "q \<in> set previous" "P q" "canonical_key q \<in> canonical_key ` set xs"
        using s [of xs] Cons.prems(1) by auto
      have "p = q" using inj_onD [OF assms(3) q(1)] q prior_of_Some [OF p] assms(2) [OF _ p] Cons.prems(1) by auto
      then show False using q(4) prior_of_Some [OF p] Cons.prems(2) by auto
    qed
    then show ?case using Cons by (auto simp: map_filter_cons split: option.split)
  qed (simp add: map_filter_simps)
  then show "distinct (List.map_filter ?k ls)" using assms(1) by simp
qed

definition cross :: "runtime_link_state \<Rightarrow> bool" where
  "cross l \<longleftrightarrow> lst_link_type l = ''cross_host''"

lemma merge_renewed_fields:
  assumes "i < length ls" "prior_of old (ls ! i) = None"
  shows "lst_link_type (merge_links old ls U V ! i) = lst_link_type (ls ! i)
     \<and> lst_endpoint_a (merge_links old ls U V ! i) = lst_endpoint_a (ls ! i)
     \<and> lst_endpoint_b (merge_links old ls U V ! i) = lst_endpoint_b (ls ! i)"
proof -
  obtain U' V' where "merge_links old ls U V ! i = fst (renew (ls ! i) U' V')"
    using merge_nth [OF assms(1), of old U V] assms(2) by auto
  then show ?thesis by (cases "lst_link_type (ls ! i) = ''cross_host''") (simp_all add: renew_cases)
qed

lemma merge_adopted:
  "i < length ls \<Longrightarrow> prior_of old (ls ! i) = Some p \<Longrightarrow> merge_links old ls U V ! i = adopt p (ls ! i)"
  using merge_nth [of i ls old U V] by auto

lemma merge_graph:
  "map (\<lambda>l. (canonical_key l, lst_link_type l)) (merge_links old ls U V) = map (\<lambda>l. (canonical_key l, lst_link_type l)) ls"
proof (rule nth_equalityI)
  fix i assume "i < length (map (\<lambda>l. (canonical_key l, lst_link_type l)) (merge_links old ls U V))"
  then have i: "i < length ls" by simp
  show "map (\<lambda>l. (canonical_key l, lst_link_type l)) (merge_links old ls U V) ! i
      = map (\<lambda>l. (canonical_key l, lst_link_type l)) ls ! i"
  proof (cases "prior_of old (ls ! i)")
    case None
    then show ?thesis using merge_renewed_fields [OF i None, of U V] i by (simp add: canonical_key_def)
  next
    case (Some p)
    then show ?thesis using merge_adopted [OF i Some] i by (simp add: canonical_key_def)
  qed
qed simp

text \<open>
  C8: a change of the topology keeps the runtime identity of every link it does not touch. When
  the identifiers and the VXLAN ids of the links before the change were unique, then after it
  the links are the desired ones, their identifiers are unique, and so are the VXLAN ids of
  cross-host links; a link that existed before with the same endpoints, in either order, and of
  the same type has its identifier, VXLAN id and state and the same host interface at each
  end; and a link that did not gets an identifier that no link had before.
\<close>

theorem merge_runtime_links_stable:
  assumes "distinct (map lst_id previous)" "distinct (map canonical_key previous)" "distinct (map canonical_key rebuilt)"
    and "distinct (map lst_vxlan_id (filter cross previous))" "\<forall>p \<in> set previous. cross p \<longrightarrow> lst_vxlan_id p \<noteq> 0"
  defines "m \<equiv> merge_runtime_links rebuilt previous"
  shows "map (\<lambda>l. (canonical_key l, lst_link_type l)) m = map (\<lambda>l. (canonical_key l, lst_link_type l)) rebuilt
     \<and> distinct (map lst_id m)
     \<and> distinct (map lst_vxlan_id (filter cross m))
     \<and> (\<forall>i < length rebuilt. \<forall>p \<in> set previous.
          canonical_key p = canonical_key (rebuilt ! i) \<and> lst_link_type p = lst_link_type (rebuilt ! i) \<longrightarrow>
            lst_id (m ! i) = lst_id p \<and> lst_vxlan_id (m ! i) = lst_vxlan_id p \<and> lst_state (m ! i) = lst_state p
            \<and> wiring (m ! i) = wiring p)
     \<and> (\<forall>i < length rebuilt.
          (\<nexists>p. p \<in> set previous \<and> canonical_key p = canonical_key (rebuilt ! i) \<and> lst_link_type p = lst_link_type (rebuilt ! i)) \<longrightarrow>
            lst_id (m ! i) \<notin> lst_id ` set previous)"
proof -
  let ?old = "previous_index previous" and ?U = "lst_id ` set previous" and ?V = "(lst_vxlan_id ` set previous) - {0}"
  have m: "m = merge_links ?old rebuilt ?U ?V" by (simp add: m_def merge_def_index)
  have inj: "inj_on lst_id {p \<in> set previous. True}" using assms(1) by (simp add: distinct_map)
  note ids = kept_distinct [where P = "\<lambda>_. True" and ls = rebuilt, OF assms(3) TrueI inj]
  have "distinct (map lst_id m)"
    unfolding m merge_ids using ids by (intro link_ids.assign_distinct) auto
  moreover have "distinct (map lst_vxlan_id (filter cross m))"
  proof -
    let ?ls = "filter (\<lambda>l. lst_link_type l = ''cross_host'') rebuilt"
    have "inj_on lst_vxlan_id {p \<in> set previous. cross p}" using assms(4) by (simp add: distinct_map)
    moreover have "distinct (map canonical_key ?ls)" using assms(3) by (rule distinct_map_filter)
    moreover have "cross p" if "l \<in> set ?ls" "prior_of ?old l = Some p" for l p
      using that prior_of_Some by (auto simp: cross_def)
    ultimately have vnis: "distinct (List.map_filter (\<lambda>l. map_option lst_vxlan_id (prior_of ?old l)) ?ls)"
      "set (List.map_filter (\<lambda>l. map_option lst_vxlan_id (prior_of ?old l)) ?ls) \<subseteq> lst_vxlan_id ` {p \<in> set previous. cross p \<and> canonical_key p \<in> canonical_key ` set ?ls}"
      using kept_distinct [of ?ls previous cross lst_vxlan_id] by auto
    have f: "filter cross ls = filter (\<lambda>l. lst_link_type l = ''cross_host'') ls" for ls by (simp add: cross_def [abs_def])
    show ?thesis
      unfolding m f merge_vnis using vnis assms(5) by (intro link_vnis.assign_distinct) auto
  qed
  moreover have "lst_id (m ! i) = lst_id p \<and> lst_vxlan_id (m ! i) = lst_vxlan_id p \<and> lst_state (m ! i) = lst_state p
      \<and> wiring (m ! i) = wiring p"
    if "i < length rebuilt" "p \<in> set previous" "canonical_key p = canonical_key (rebuilt ! i)"
      "lst_link_type p = lst_link_type (rebuilt ! i)" for i p
    using merge_adopted [OF that(1) prior_of_complete [OF assms(2) that(2-4)], of ?U ?V] adopt_wiring [OF that(3)]
    by (simp add: m)
  moreover have "lst_id (m ! i) \<notin> ?U"
    if h: "i < length rebuilt" "\<nexists>p. p \<in> set previous \<and> canonical_key p = canonical_key (rebuilt ! i) \<and> lst_link_type p = lst_link_type (rebuilt ! i)" for i
  proof -
    have "prior_of ?old (rebuilt ! i) = None" using h(2) prior_of_Some by (metis not_Some_eq)
    then have "map lst_id m ! i \<notin> ?U"
      unfolding m merge_ids using h(1) by (intro link_ids.assign_new) simp_all
    then show ?thesis using h(1) m by simp
  qed
  ultimately show ?thesis using merge_graph m by blast
qed

definition demo_link :: "string \<Rightarrow> string \<Rightarrow> string \<Rightarrow> string \<Rightarrow> int \<Rightarrow> runtime_link_state" where
  "demo_link link_id link_type a b vni =
     (base_link link_id link_type)\<lparr>lst_endpoint_a := node_endpoint a ''eth1'', lst_endpoint_b := node_endpoint b ''eth2'', lst_vxlan_id := vni\<rparr>"

lemma demo_link_fields [simp]:
  "lst_id (demo_link i t a b v) = i" "lst_link_type (demo_link i t a b v) = t" "lst_vxlan_id (demo_link i t a b v) = v"
  "canonical_key (demo_link i t a b v) = sort [[(''iface'', ''eth1''), (''node'', a)], [(''iface'', ''eth2''), (''node'', b)]]"
  by (simp_all add: demo_link_def base_link_def canonical_key_def node_endpoint_def)

theorem merge_runtime_links_stable_witness:
  "lst_id (merge_runtime_links [demo_link ''vx0'' ''cross_host'' ''r1'' ''r3'' 5000, demo_link ''vx1'' ''cross_host'' ''r2'' ''r3'' 5001]
     [demo_link ''vx0'' ''cross_host'' ''r2'' ''r3'' 5000] ! 1) = ''vx0''"
proof -
  let ?p = "[demo_link ''vx0'' ''cross_host'' ''r2'' ''r3'' 5000]"
  let ?r = "[demo_link ''vx0'' ''cross_host'' ''r1'' ''r3'' 5000, demo_link ''vx1'' ''cross_host'' ''r2'' ''r3'' 5001]"
  have h: "distinct (map lst_id ?p)" "distinct (map canonical_key ?p)" "distinct (map canonical_key ?r)"
    "distinct (map lst_vxlan_id (filter cross ?p))" "\<forall>p \<in> set ?p. cross p \<longrightarrow> lst_vxlan_id p \<noteq> 0"
    by (simp_all add: cross_def)
  have "\<forall>i < length ?r. \<forall>p \<in> set ?p. canonical_key p = canonical_key (?r ! i) \<and> lst_link_type p = lst_link_type (?r ! i)
      \<longrightarrow> lst_id (merge_runtime_links ?r ?p ! i) = lst_id p"
    using merge_runtime_links_stable [OF h] by blast
  from this [rule_format, of 1 "?p ! 0"] show ?thesis by simp
qed

section \<open>Waiting for the link controller\<close>

text \<open>A monotonic clock, on which a pause takes at least its duration.\<close>

definition clock_ok :: "world \<Rightarrow> bool" where
  "clock_ok w \<longleftrightarrow> (\<forall>tr ev. w_now w tr \<le> w_now w (tr @ [ev])) \<and> (\<forall>tr. w_now w tr + retry_interval \<le> w_now w (tr @ [Sleep]))"

definition attempts :: "nat \<Rightarrow> string \<Rightarrow> string \<Rightarrow> event list" where
  "attempts k host cmd = concat (replicate k [Run host cmd True, Sleep]) @ [Run host cmd True]"

lemma exec_checked_error:
  "exec_cmd env host cmd check tr = (Inl e, tr') \<Longrightarrow> e \<noteq> OutOfFuel"
  by (auto simp: exec_cmd_def seqA_def bindA_def run_def retA_def Let_def split: sum.splits prod.splits if_splits)

lemma linkctl_loop_runs:
  assumes "clock_ok w" "deadline < w_now w tr + retry_interval * turns"
  shows "\<exists>k < turns + 1. \<exists>r. linkctl_loop w deadline (turns + 1) host cmd tr = (r, tr @ attempts k host cmd)
     \<and> (\<forall>e. r = Inl e \<longrightarrow> e \<noteq> OutOfFuel \<and> (\<not> not_ready e \<or> deadline \<le> w_now w (tr @ attempts k host cmd)))"
  using assms(2)
proof (induction turns arbitrary: tr)
  case 0
  let ?tr1 = "tr @ [Run host cmd True]"
  have "deadline \<le> w_now w ?tr1" using 0 assms(1) unfolding clock_ok_def by (metis add.right_neutral less_imp_le_nat mult_0_right order_trans)
  then show ?case
    using exec_cases [of "w_env w" host cmd True tr] exec_checked_error [of "w_env w" host cmd True tr]
    by (auto simp: catchA_def raiseA_def attempts_def)
next
  case (Suc turns)
  let ?tr1 = "tr @ [Run host cmd True]" and ?tr2 = "tr @ [Run host cmd True, Sleep]"
  consider (ok) "exec_cmd (w_env w) host cmd True tr = (Inr (), ?tr1)"
    | (stop) e where "exec_cmd (w_env w) host cmd True tr = (Inl e, ?tr1)" "\<not> not_ready e \<or> deadline \<le> w_now w ?tr1"
    | (again) e where "exec_cmd (w_env w) host cmd True tr = (Inl e, ?tr1)" "not_ready e" "\<not> deadline \<le> w_now w ?tr1"
    using exec_cases [of "w_env w" host cmd True tr] by blast
  then show ?case
  proof cases
    case ok
    then show ?thesis by (intro exI [of _ 0]) (simp add: catchA_def attempts_def)
  next
    case stop
    then show ?thesis using exec_checked_error [OF stop(1)]
      by (intro exI [of _ 0]) (auto simp: catchA_def raiseA_def attempts_def)
  next
    case again
    have "w_now w tr \<le> w_now w ?tr1" "w_now w ?tr1 + retry_interval \<le> w_now w ?tr2"
      using assms(1) unfolding clock_ok_def by (metis, metis append.assoc append_Cons append_Nil)
    then have "deadline < w_now w ?tr2 + retry_interval * turns" using Suc.prems by simp
    then obtain k r where k: "k < turns + 1" "linkctl_loop w deadline (turns + 1) host cmd ?tr2 = (r, ?tr2 @ attempts k host cmd)"
      "\<forall>e. r = Inl e \<longrightarrow> e \<noteq> OutOfFuel \<and> (\<not> not_ready e \<or> deadline \<le> w_now w (?tr2 @ attempts k host cmd))"
      using Suc.IH by blast
    have "linkctl_loop w deadline (Suc turns + 1) host cmd tr = linkctl_loop w deadline (turns + 1) host cmd ?tr2"
      using again by (simp add: catchA_def seqA_def bindA_def sleepA_def del: linkctl_loop.simps)
        (simp add: catchA_def seqA_def bindA_def sleepA_def)
    moreover have "tr @ attempts (Suc k) host cmd = ?tr2 @ attempts k host cmd" by (simp add: attempts_def)
    ultimately show ?thesis using k by (intro exI [of _ "Suc k"]) simp
  qed
qed

text \<open>
  C30: waiting for a link controller ends. On a monotonic clock the command is tried once and
  then again after each pause, at most once per retry interval of the time to wait and once
  more; the last attempt either works, or fails for another reason than a controller that is not
  ready, or fails after the deadline.
\<close>

theorem linkctl_ends:
  assumes "clock_ok w"
  shows "\<exists>k \<le> w_ready_timeout w div retry_interval + 1. \<exists>r.
     run_linkctl_when_ready w host cmd tr = (r, tr @ attempts k host cmd)
     \<and> (\<forall>e. r = Inl e \<longrightarrow> e \<noteq> OutOfFuel
          \<and> (\<not> not_ready e \<or> w_now w tr + w_ready_timeout w \<le> w_now w (tr @ attempts k host cmd)))"
proof -
  let ?t = "w_ready_timeout w div retry_interval + 1"
  have "w_ready_timeout w < retry_interval * ?t"
    by (simp add: retry_interval_def)
  then obtain k r where "k < ?t + 1" "linkctl_loop w (w_now w tr + w_ready_timeout w) (?t + 1) host cmd tr = (r, tr @ attempts k host cmd)"
    "\<forall>e. r = Inl e \<longrightarrow> e \<noteq> OutOfFuel \<and> (\<not> not_ready e \<or> w_now w tr + w_ready_timeout w \<le> w_now w (tr @ attempts k host cmd))"
    using linkctl_loop_runs [OF assms, of "w_now w tr + w_ready_timeout w" tr ?t host cmd] by auto
  then show ?thesis
    by (intro exI [of _ k] conjI exI [of _ r]) (simp_all add: run_linkctl_when_ready_def del: linkctl_loop.simps)
qed

text \<open>A controller that comes up after two attempts, on a clock that counts the pauses.\<close>

definition slow_world :: world where
  "slow_world = \<lparr>w_env = (\<lambda>tr ev. if length tr < 3 then Inr (1, [], ''Connection refused'') else Inr (0, [], [])),
     w_now = (\<lambda>tr. retry_interval * length tr), w_ready_timeout = 900000\<rparr>"

theorem linkctl_ends_witness:
  "\<exists>k \<le> 3601. \<exists>r. run_linkctl_when_ready slow_world ''h1'' ''docker exec c dnlab-linkctl eth1 up'' []
     = (r, attempts k ''h1'' ''docker exec c dnlab-linkctl eth1 up'')"
proof -
  have "clock_ok slow_world" by (simp add: clock_ok_def slow_world_def)
  from linkctl_ends [OF this, of "''h1''" "''docker exec c dnlab-linkctl eth1 up''" "[]"]
  show ?thesis by (auto simp: slow_world_def retry_interval_def)
qed

section \<open>What links do to hosts\<close>

text \<open>
  The commands a link may run: interface and firewall commands on the hosts of the link, and
  carrier commands whose container and interface names need no quoting.
\<close>

definition carrier_cmd :: "string \<Rightarrow> bool" where
  "carrier_cmd cmd \<longleftrightarrow> (\<exists>container iface. safe_name container \<and> valid_eth iface
     \<and> (cmd = deferred_cmd container iface \<or> (\<exists>state \<in> {''up'', ''down''}. cmd = linkctl_cmd container iface state)))"

definition targets_safe :: "runtime_link_state \<Rightarrow> bool" where
  "targets_safe link \<longleftrightarrow> list_all (\<lambda>(enabled, host, container, iface). enabled \<longrightarrow> safe_name container \<and> valid_eth iface) (carrier_targets link)"

definition on_link_host :: "runtime_link_state \<Rightarrow> string list \<Rightarrow> string \<Rightarrow> bool" where
  "on_link_host link clients host \<longleftrightarrow> host \<in> set clients \<and> host \<in> {lst_host_a link, lst_host_b link}"

definition link_event :: "runtime_link_state \<Rightarrow> string list \<Rightarrow> (string \<Rightarrow> bool) \<Rightarrow> event \<Rightarrow> bool" where
  "link_event link clients P ev \<longleftrightarrow>
     (case ev of Run host cmd _ \<Rightarrow> on_link_host link clients host \<and> P cmd | RunNoCheck _ _ \<Rightarrow> False | Sleep \<Rightarrow> True)"

lemma link_event_simps [simp]:
  "link_event link clients P (Run host cmd check) \<longleftrightarrow> on_link_host link clients host \<and> P cmd"
  "link_event link clients P Sleep"
  by (simp_all add: link_event_def)

lemma emits_linkctl_loop:
  "P (Run host cmd True) \<Longrightarrow> P Sleep \<Longrightarrow> emits P (linkctl_loop w deadline turns host cmd)"
proof (induction turns)
  case (Suc turns)
  have "emits P (\<lambda>tr. if \<not> not_ready e \<or> deadline \<le> w_now w tr then raiseA e tr
      else seqA sleepA (linkctl_loop w deadline turns host cmd) tr)" for e
    using emits_seq [OF emits_sleep [of P] Suc.IH [OF Suc.prems]] Suc.prems emits_raise [of P e] unfolding emits_def by auto
  then show ?case using Suc.prems by (simp add: emits_rules)
qed (simp add: emits_rules)

lemma emits_linkctl:
  "P (Run host cmd True) \<Longrightarrow> P Sleep \<Longrightarrow> emits P (run_linkctl_when_ready w host cmd)"
  using emits_linkctl_loop unfolding run_linkctl_when_ready_def emits_def by blast

lemma emits_carriers:
  assumes "state \<in> {''up'', ''down''}" "\<And>cmd. carrier_cmd cmd \<Longrightarrow> P cmd"
  shows "emits (link_event link clients P) (set_link_carriers w link clients state check defer)"
  unfolding set_link_carriers_def
proof (rule emits_for)
  fix t assume t: "t \<in> set (carrier_targets link)"
  obtain enabled host container iface where e: "t = (enabled, host, container, iface)" by (metis prod_cases4)
  have h: "host \<in> {lst_host_a link, lst_host_b link}" using t e by (auto simp: carrier_targets_def)
  show "emits (link_event link clients P) (set_carrier w clients state check defer t)"
  proof (cases "safe_name container \<and> valid_eth iface \<and> host \<in> set clients")
    case True
    then have "P (deferred_cmd container iface)" "P (linkctl_cmd container iface state)"
      using assms unfolding carrier_cmd_def by blast+
    then show ?thesis using h True
      by (auto simp: set_carrier_def e on_link_host_def intro!: emits_ret emits_exec emits_linkctl)
  next
    case False
    then show ?thesis by (auto simp: set_carrier_def e emits_rules)
  qed
qed

text \<open>Commands on interfaces never touch a container, and attaching never deletes the bridge.\<close>

definition iface_cmd :: "string \<Rightarrow> bool" where
  "iface_cmd cmd \<longleftrightarrow> startswith cmd ''ip link '' \<or> startswith cmd ''iptables '' \<or> startswith cmd ''while iptables ''"

lemma iface_cmds [simp]:
  "iface_cmd (ensure_bridge_cmd b)" "iface_cmd (bridge_delete_cmd b)" "iface_cmd (link_up_cmd b)" "iface_cmd (link_master_cmd i b)"
  "iface_cmd (link_nomaster_cmd i)" "iface_cmd (vxlan_ensure_cmd r v i)" "iface_cmd (ensure_forwarding_cmd b)"
  "iface_cmd (remove_forwarding_cmd b)"
  by (simp_all add: iface_cmd_def startswith_def ensure_bridge_cmd_def bridge_delete_cmd_def link_up_cmd_def link_master_cmd_def
      link_nomaster_cmd_def vxlan_ensure_cmd_def ensure_forwarding_cmd_def remove_forwarding_cmd_def)

lemma iface_not_docker: "iface_cmd cmd \<Longrightarrow> \<not> startswith cmd ''docker ''"
  by (auto simp: iface_cmd_def startswith_iff)

lemma emits_client_bind [emits_rules]:
  "(host \<in> set clients \<Longrightarrow> emits P (f host)) \<Longrightarrow> emits P (bindA (client_of clients host) f)"
  by (cases "host \<in> set clients") (simp_all add: client_of_def emits_def bindA_def retA_def raiseA_def)

lemma emits_underlay [emits_rules]: "emits P (underlay_of ips host)"
  by (simp add: underlay_of_def emits_rules split: option.split)

lemma emits_create_delete:
  assumes "\<And>cmd. carrier_cmd cmd \<Longrightarrow> P cmd" "\<And>cmd. iface_cmd cmd \<Longrightarrow> P cmd"
  shows "emits (link_event link clients P) (create_action w link clients ips defer)"
    and "emits (link_event link clients P) (delete_action w link clients)"
proof -
  have h: "host \<in> set clients \<Longrightarrow> host = lst_host_a link \<or> host = lst_host_b link \<Longrightarrow> on_link_host link clients host" for host
    by (auto simp: on_link_host_def)
  have c: "emits (link_event link clients P) (set_link_carriers w link clients ''up'' ck df)"
    "emits (link_event link clients P) (set_link_carriers w link clients ''down'' ck df)" for ck df
    using emits_carriers assms(1) by simp_all
  note rules = emits_rules c iffD2 [OF link_event_simps(1)] conjI assms(2) iface_cmds h
  show "emits (link_event link clients P) (create_action w link clients ips defer)"
    unfolding create_action_def create_same_host_def create_cross_host_def create_realnet_def delete_cross_host_network_def Let_def
    by (auto intro!: rules split: prod.split)
  show "emits (link_event link clients P) (delete_action w link clients)"
    unfolding delete_action_def delete_same_host_def delete_cross_host_def delete_realnet_def delete_cross_host_network_def
    by (auto intro!: rules split: prod.split)
qed

text \<open>
  C29: creating or deleting a link runs commands only on the hosts of the link, and of the
  commands that enter a container each is a carrier command whose container name has only
  letters, digits, underscore, dot and dash and whose interface is \<open>eth\<close> with a positive number,
  whatever names the topology gives: no name can smuggle shell code into \<open>docker exec\<close>.
\<close>

theorem link_commands_safe:
  assumes "snd (create_link w link clients ips running defer tr) = tr1 \<or> snd (delete_link w link clients tr) = tr1"
  shows "\<exists>es. tr1 = tr @ es \<and> list_all (\<lambda>ev. case ev of
       Run host cmd check \<Rightarrow> host \<in> {lst_host_a link, lst_host_b link} \<and> host \<in> set clients
         \<and> (startswith cmd ''docker '' \<longrightarrow> carrier_cmd cmd)
     | RunNoCheck host cmd \<Rightarrow> False
     | Sleep \<Rightarrow> True) es"
proof -
  let ?P = "\<lambda>cmd. startswith cmd ''docker '' \<longrightarrow> carrier_cmd cmd"
  have s: "snd (settle st link m tr) = snd (m tr)" for st m by (auto simp: settle_def split: prod.split sum.split)
  have P: "\<And>cmd. carrier_cmd cmd \<Longrightarrow> ?P cmd" "\<And>cmd. iface_cmd cmd \<Longrightarrow> ?P cmd"
    using iface_not_docker by blast+
  have "\<exists>es. snd (create_link w link clients ips running defer tr) = tr @ es \<and> list_all (link_event link clients ?P) es"
    using emitsD [OF emits_create_delete(1) [of ?P link clients w ips "defer", OF P], of tr]
    by (simp add: create_link_def Let_def s)
  moreover have "\<exists>es. snd (delete_link w link clients tr) = tr @ es \<and> list_all (link_event link clients ?P) es"
    using emitsD [OF emits_create_delete(2) [of ?P link clients w, OF P], of tr] by (simp add: delete_link_def s)
  ultimately obtain es where es: "tr1 = tr @ es" "list_all (link_event link clients ?P) es" using assms by auto
  have "(case ev of Run host cmd check \<Rightarrow> host \<in> {lst_host_a link, lst_host_b link} \<and> host \<in> set clients \<and> ?P cmd
      | RunNoCheck host cmd \<Rightarrow> False | Sleep \<Rightarrow> True)" if "link_event link clients ?P ev" for ev
    using that by (auto simp: link_event_def on_link_host_def split: event.splits)
  then show ?thesis using es by (intro exI [of _ es] conjI) (auto elim: list.pred_mono_strong)
qed

text \<open>A same-host link of two warm nodes, one of them on an interface with a name of its own.\<close>

definition warm_link :: "string \<Rightarrow> runtime_link_state" where
  "warm_link iface = (base_link ''l0'' ''same_host'')
     \<lparr>lst_endpoint_a := node_endpoint ''r1'' ''eth1'', lst_endpoint_b := node_endpoint ''r2'' iface,
      lst_host_a := ''h'', lst_host_b := ''h'', lst_host_endpoint_a := ''pa'', lst_host_endpoint_b := ''pb'',
      lst_container_a := ''dnlab-r1'', lst_container_b := ''dnlab-r2'', lst_warm_a := True, lst_warm_b := True\<rparr>"

definition quiet_world :: world where
  "quiet_world = \<lparr>w_env = (\<lambda>tr ev. Inr (0, [], [])), w_now = length, w_ready_timeout = 900000\<rparr>"

theorem link_commands_safe_witness:
  "\<exists>es. snd (delete_link quiet_world (warm_link ''eth2'') [''h''] []) = es
     \<and> list_all (\<lambda>ev. case ev of Run host cmd check \<Rightarrow> host = ''h'' \<and> (startswith cmd ''docker '' \<longrightarrow> carrier_cmd cmd)
         | RunNoCheck host cmd \<Rightarrow> False | Sleep \<Rightarrow> True) es"
  using link_commands_safe [where link = "warm_link ''eth2''" and clients = "[''h'']" and w = quiet_world and tr = "[]", OF disjI2 [OF refl]]
  by (simp add: warm_link_def base_link_def)

section \<open>Rolling back\<close>

definition down_events :: "string list \<Rightarrow> bool \<times> string \<times> string \<times> string \<Rightarrow> event list" where
  "down_events clients t =
     (case t of (enabled, host, container, iface) \<Rightarrow>
        if enabled \<and> host \<in> set clients then [Run host (linkctl_cmd container iface ''down'') False] else [])"

lemma carriers_down_performs:
  assumes "connected (w_env w)" "targets_safe link"
  shows "performs (set_link_carriers w link clients ''down'' False False) () (concat (map (down_events clients) (carrier_targets link)))"
  unfolding set_link_carriers_def
proof (rule performs_for)
  fix t assume t: "t \<in> set (carrier_targets link)"
  obtain enabled host container iface where e: "t = (enabled, host, container, iface)" by (metis prod_cases4)
  have "enabled \<Longrightarrow> safe_name container \<and> valid_eth iface"
    using assms(2) t unfolding targets_safe_def e list_all_iff by fastforce
  then show "performs (set_carrier w clients ''down'' False False t) () (down_events clients t)"
    using assms(1) by (auto simp: set_carrier_def down_events_def e intro: performs_ret performs_exec)
qed

lemma forA_fails:
  "x \<in> set xs \<Longrightarrow> (\<And>tr. \<exists>e tr'. f x tr = (Inl e, tr')) \<Longrightarrow> \<exists>e tr'. forA xs f tr = (Inl e, tr')"
proof (induction xs arbitrary: tr)
  case (Cons y ys)
  show ?case
  proof (cases "f y tr")
    case (Pair r tr1)
    show ?thesis
    proof (cases r)
      case (Inl e)
      then show ?thesis using Pair by (simp add: seqA_def bindA_def)
    next
      case (Inr u)
      then have "x \<in> set ys" using Cons.prems Pair by (metis Inl_Inr_False Pair_inject set_ConsD)
      then show ?thesis using Cons.IH [OF _ Cons.prems(2), of tr1] Pair Inr by (simp add: seqA_def bindA_def)
    qed
  qed
qed simp

lemma carriers_unsafe_fail:
  assumes "\<not> targets_safe link"
  shows "\<exists>e tr'. set_link_carriers w link clients state check defer tr = (Inl e, tr')"
proof -
  obtain host container iface where t: "(True, host, container, iface) \<in> set (carrier_targets link)"
    "\<not> (safe_name container \<and> valid_eth iface)"
    using assms unfolding targets_safe_def list_all_iff by fastforce
  have "\<exists>e tr'. set_carrier w clients state check defer (True, host, container, iface) tr = (Inl e, tr')" for tr
    using t(2) by (auto simp: set_carrier_def raiseA_def)
  then show ?thesis unfolding set_link_carriers_def by (rule forA_fails [OF t(1)])
qed

lemma carrier_not_iface: "carrier_cmd cmd \<Longrightarrow> \<not> iface_cmd cmd"
  by (auto simp: carrier_cmd_def iface_cmd_def startswith_def deferred_cmd_def linkctl_cmd_def)

lemma carriers_no_delete:
  assumes "state \<in> {''up'', ''down''}"
  shows "emits (\<lambda>ev. ev \<noteq> Run host (bridge_delete_cmd b) False) (set_link_carriers w link clients state check defer)"
proof (rule emits_mono)
  show "emits (link_event link clients carrier_cmd) (set_link_carriers w link clients state check defer)"
    using assms by (rule emits_carriers)
  show "\<And>ev. link_event link clients carrier_cmd ev \<Longrightarrow> ev \<noteq> Run host (bridge_delete_cmd b) False"
    using carrier_not_iface by fastforce
qed

text \<open>The part of \<open>_create_same_host\<close> under \<open>try\<close>, and its handler.\<close>

definition same_host_attach :: "world \<Rightarrow> runtime_link_state \<Rightarrow> string list \<Rightarrow> bool \<Rightarrow> unit action" where
  "same_host_attach w link clients defer =
     seqA (forA [lst_host_endpoint_a link, lst_host_endpoint_b link]
             (\<lambda>iface. seqA (exec_cmd (w_env w) (lst_host_a link) (link_up_cmd iface) True)
                           (exec_cmd (w_env w) (lst_host_a link) (link_master_cmd iface (runtime_bridge_name link)) True)))
          (set_link_carriers w link clients ''up'' True defer)"

definition same_host_undo :: "world \<Rightarrow> runtime_link_state \<Rightarrow> string list \<Rightarrow> exn \<Rightarrow> unit action" where
  "same_host_undo w link clients e =
     seqA (set_link_carriers w link clients ''down'' False False)
    (seqA (exec_cmd (w_env w) (lst_host_a link) (remove_forwarding_cmd (runtime_bridge_name link)) False)
    (seqA (exec_cmd (w_env w) (lst_host_a link) (bridge_delete_cmd (runtime_bridge_name link)) False)
          (raiseA e)))"

lemma create_same_host_parts:
  assumes "lst_host_a link \<in> set clients"
  shows "create_same_host w link clients defer =
     seqA (exec_cmd (w_env w) (lst_host_a link) (ensure_bridge_cmd (runtime_bridge_name link)) True)
    (seqA (exec_cmd (w_env w) (lst_host_a link) (link_up_cmd (runtime_bridge_name link)) True)
    (seqA (exec_cmd (w_env w) (lst_host_a link) (ensure_forwarding_cmd (runtime_bridge_name link)) False)
          (catchA (same_host_attach w link clients defer) (same_host_undo w link clients))))"
  using assms unfolding create_same_host_def same_host_attach_def same_host_undo_def
  by (simp add: client_of_def bindA_ret Let_def del: forA.simps)

lemma undo_safe:
  assumes "connected (w_env w)" "targets_safe link"
  shows "\<exists>pre. same_host_undo w link clients e tr = (Inl e, tr @ pre @
     [Run (lst_host_a link) (remove_forwarding_cmd (runtime_bridge_name link)) False,
      Run (lst_host_a link) (bridge_delete_cmd (runtime_bridge_name link)) False])"
  using carriers_down_performs [OF assms, of clients] performs_exec [OF assms(1)]
  by (simp add: same_host_undo_def seqA_def bindA_def performs_def raiseA_def)

lemma undo_unsafe:
  assumes "\<not> targets_safe link"
  shows "\<exists>e' es. same_host_undo w link clients e tr = (Inl e', tr @ es)
     \<and> Run (lst_host_a link) (bridge_delete_cmd (runtime_bridge_name link)) False \<notin> set es"
proof -
  obtain e' tr' where r: "set_link_carriers w link clients ''down'' False False tr = (Inl e', tr')"
    using carriers_unsafe_fail [OF assms] by blast
  obtain es where "tr' = tr @ es" "list_all (\<lambda>ev. ev \<noteq> Run (lst_host_a link) (bridge_delete_cmd (runtime_bridge_name link)) False) es"
    using emitsD [OF carriers_no_delete [where state = "''down''"], where tr = tr] r by (metis insertCI snd_conv)
  then show ?thesis using r by (auto simp: same_host_undo_def seqA_def bindA_def list_all_iff)
qed

lemma attach_no_delete:
  "emits (\<lambda>ev. ev \<noteq> Run host (bridge_delete_cmd b) False) (same_host_attach w link clients defer)"
  unfolding same_host_attach_def by (intro emits_rules carriers_no_delete) simp_all

lemma seq_exec_error:
  "seqA (exec_cmd env host cmd check) k tr = (Inl e, tr') \<Longrightarrow>
     tr' = tr @ [Run host cmd check] \<or> k (tr @ [Run host cmd check]) = (Inl e, tr')"
  using exec_cases [of env host cmd check tr] by (auto simp: seqA_def bindA_def)

lemma seq_exec_unchecked: "connected env \<Longrightarrow> seqA (exec_cmd env host cmd False) k tr = k (tr @ [Run host cmd False])"
  using performs_exec [of env host cmd] by (simp add: performs_def seqA_def bindA_def)

lemma command_kinds:
  "ensure_forwarding_cmd b \<noteq> ensure_bridge_cmd b" "ensure_forwarding_cmd b \<noteq> link_up_cmd b"
  "bridge_delete_cmd b \<noteq> ensure_bridge_cmd b" "bridge_delete_cmd b \<noteq> link_up_cmd b"
  "bridge_delete_cmd b \<noteq> ensure_forwarding_cmd b"
  by (simp_all add: ensure_forwarding_cmd_def ensure_bridge_cmd_def link_up_cmd_def bridge_delete_cmd_def)

text \<open>Once the firewall rules are set, an error can only come from attaching the ends, after the handler.\<close>

lemma attach_failure:
  assumes "connected (w_env w)"
    "catchA (same_host_attach w link clients defer) (same_host_undo w link clients) tr = (Inl e, tr')"
  shows "if targets_safe link
     then \<exists>pre. tr' = tr @ pre @ [Run (lst_host_a link) (remove_forwarding_cmd (runtime_bridge_name link)) False,
                                   Run (lst_host_a link) (bridge_delete_cmd (runtime_bridge_name link)) False]
     else \<exists>es. tr' = tr @ es \<and> Run (lst_host_a link) (bridge_delete_cmd (runtime_bridge_name link)) False \<notin> set es"
proof -
  obtain e1 tr1 where a: "same_host_attach w link clients defer tr = (Inl e1, tr1)"
    "same_host_undo w link clients e1 tr1 = (Inl e, tr')"
    using assms(2) by (auto simp: catchA_def split: prod.splits sum.splits)
  obtain es1 where es1: "tr1 = tr @ es1"
    "Run (lst_host_a link) (bridge_delete_cmd (runtime_bridge_name link)) False \<notin> set es1"
    using emitsD [OF attach_no_delete [of "lst_host_a link" "runtime_bridge_name link" w link clients "defer"], of tr] a(1)
    by (auto simp: list_all_iff)
  show ?thesis
  proof (cases "targets_safe link")
    case True
    then show ?thesis using undo_safe [OF assms(1) True, of clients e1 tr1] a(2) es1(1) by auto
  next
    case False
    then show ?thesis using undo_unsafe [OF False, of w clients e1 tr1] a(2) es1 by auto
  qed
qed

text \<open>
  C31: what the failed creation of a same-host link leaves behind, on a connection that does not
  drop. The bridge is deleted again exactly when the failure came after the firewall rules of the
  bridge were set and the carriers the link has to switch have usable names; then the last two
  commands remove these rules and the bridge. A failure before the rules were set is one of making
  the bridge or switching it on, and nothing is undone. So a bridge that was made stays when
  switching it on fails, which happens before the \<open>try\<close>, and when a carrier has no usable name, as for
  a warm node linked on an interface that is not called \<open>eth\<close>\<open>n\<close>, where the handler itself raises.
\<close>

theorem same_host_rollback:
  assumes "connected (w_env w)" "create_same_host w link clients defer tr = (Inl e, tr @ es)"
  shows "let forwarding = Run (lst_host_a link) (ensure_forwarding_cmd (runtime_bridge_name link)) False;
             undo = [Run (lst_host_a link) (remove_forwarding_cmd (runtime_bridge_name link)) False,
                     Run (lst_host_a link) (bridge_delete_cmd (runtime_bridge_name link)) False]
         in (last undo \<in> set es \<longleftrightarrow> forwarding \<in> set es \<and> targets_safe link)
          \<and> (last undo \<in> set es \<longrightarrow> (\<exists>pre. es = pre @ undo))
          \<and> (forwarding \<notin> set es \<longrightarrow>
               es = take (length es) [Run (lst_host_a link) (ensure_bridge_cmd (runtime_bridge_name link)) True,
                                      Run (lst_host_a link) (link_up_cmd (runtime_bridge_name link)) True])"
proof (cases "lst_host_a link \<in> set clients")
  case False
  then show ?thesis using assms(2) by (simp add: create_same_host_def client_of_def bindA_def raiseA_def)
next
  case True
  let ?h = "lst_host_a link" and ?b = "runtime_bridge_name link"
  let ?k3 = "catchA (same_host_attach w link clients defer) (same_host_undo w link clients)"
  let ?k2 = "seqA (exec_cmd (w_env w) ?h (ensure_forwarding_cmd ?b) False) ?k3"
  let ?es0 = "[Run ?h (ensure_bridge_cmd ?b) True, Run ?h (link_up_cmd ?b) True, Run ?h (ensure_forwarding_cmd ?b) False]"
  note r = assms(2) [unfolded create_same_host_parts [OF True]]
  consider (bridge) "es = take 1 ?es0" | (up) "es = take 2 ?es0" | (attach) "?k3 (tr @ ?es0) = (Inl e, tr @ es)"
    using seq_exec_error [OF r] seq_exec_error [of "w_env w" ?h "link_up_cmd ?b" True ?k2 "tr @ take 1 ?es0" e "tr @ es"]
    by (auto simp: seq_exec_unchecked [OF assms(1)])
  then show ?thesis
  proof cases
    case attach
    show ?thesis
      using attach_failure [OF assms(1) attach] by (cases "targets_safe link") (auto simp: Let_def command_kinds)
  qed (simp_all add: Let_def command_kinds)
qed

lemma warm_link_fields [simp]:
  "lst_host_a (warm_link i) = ''h''" "lst_host_endpoint_a (warm_link i) = ''pa''" "lst_host_endpoint_b (warm_link i) = ''pb''"
  "carrier_targets (warm_link i) = [(True, ''h'', ''dnlab-r1'', ''eth1''), (True, ''h'', ''dnlab-r2'', i)]"
  by (simp_all add: warm_link_def base_link_def carrier_targets_def node_endpoint_def dict_get_or_def)

lemma warm_names:
  "safe_name ''dnlab-r1''" "safe_name ''dnlab-r2''" "valid_eth ''eth1''" "valid_eth ''eth2''" "\<not> valid_eth ''ge-0/0/0''"
  by (simp_all add: safe_name_def valid_eth_def startswith_def is_safe_def is_alnum_def is_digit_def is_upper_def is_lower_def)

lemma quiet_exec: "exec_cmd (w_env quiet_world) host cmd check = (\<lambda>tr. (Inr (), tr @ [Run host cmd check]))"
  by (rule ext) (simp add: exec_cmd_def seqA_def bindA_def run_def retA_def quiet_world_def)

lemma leaking_run:
  defines "b \<equiv> runtime_bridge_name (warm_link ''ge-0/0/0'')"
  shows "create_same_host quiet_world (warm_link ''ge-0/0/0'') [''h''] True [] =
    (Inl (Raised ''unsafe warm-link target dnlab-r2:ge-0/0/0''),
     [Run ''h'' (ensure_bridge_cmd b) True, Run ''h'' (link_up_cmd b) True, Run ''h'' (ensure_forwarding_cmd b) False,
      Run ''h'' (link_up_cmd ''pa'') True, Run ''h'' (link_master_cmd ''pa'' b) True,
      Run ''h'' (link_up_cmd ''pb'') True, Run ''h'' (link_master_cmd ''pb'' b) True,
      Run ''h'' (deferred_cmd ''dnlab-r1'' ''eth1'') True, Run ''h'' (linkctl_cmd ''dnlab-r1'' ''eth1'' ''down'') False])"
  by (simp add: create_same_host_parts same_host_attach_def same_host_undo_def set_link_carriers_def set_carrier_def warm_names
      quiet_exec seqA_def bindA_def catchA_def retA_def raiseA_def flip: b_def)

theorem same_host_rollback_witness:
  "\<exists>es. snd (create_same_host quiet_world (warm_link ''ge-0/0/0'') [''h''] True []) = es
     \<and> Run ''h'' (ensure_bridge_cmd (runtime_bridge_name (warm_link ''ge-0/0/0''))) True \<in> set es
     \<and> Run ''h'' (bridge_delete_cmd (runtime_bridge_name (warm_link ''ge-0/0/0''))) False \<notin> set es"
proof -
  let ?l = "warm_link ''ge-0/0/0''"
  have c: "connected (w_env quiet_world)" by (simp add: connected_def quiet_world_def)
  obtain e es where r: "create_same_host quiet_world ?l [''h''] True [] = (Inl e, [] @ es)"
    "Run ''h'' (ensure_bridge_cmd (runtime_bridge_name ?l)) True \<in> set es"
    using leaking_run by simp
  show ?thesis using same_host_rollback [OF c r(1)] r by (simp add: targets_safe_def warm_names Let_def)
qed

section \<open>Bridges of several labs\<close>

lemma mapE_length: "mapE f xs = Inr ys \<Longrightarrow> length ys = length xs"
  by (induction xs arbitrary: ys) (auto simp: result_simps)

lemma mapE_nth: "mapE f xs = Inr ys \<Longrightarrow> i < length xs \<Longrightarrow> f (xs ! i) = Inr (ys ! i)"
proof (induction xs arbitrary: ys i)
  case (Cons x xs)
  then show ?case by (cases i) (auto simp: result_simps)
qed simp

lemma same_host_link_id:
  "same_host_link topo plan (i, l) = Inr r \<Longrightarrow> lst_id r = ''l'' @ show_nat i \<and> lst_link_type r = ''same_host''"
  by (auto simp: same_host_link_def Let_def result_simps base_link_def)

lemma build_local:
  assumes "build_runtime_links topo plan = Inr ls" "i < length (sp_local_links plan)"
  shows "i < length ls \<and> lst_id (ls ! i) = ''l'' @ show_nat i \<and> lst_link_type (ls ! i) = ''same_host''"
proof -
  obtain xs ys where x: "mapE (same_host_link topo plan) (enumerate 0 (sp_local_links plan)) = Inr xs" "ls = xs @ ys"
    using assms(1) by (auto simp: build_runtime_links_def result_simps)
  have "same_host_link topo plan (enumerate 0 (sp_local_links plan) ! i) = Inr (xs ! i)"
    using mapE_nth [OF x(1)] assms(2) by simp
  then have "lst_id (xs ! i) = ''l'' @ show_nat i \<and> lst_link_type (xs ! i) = ''same_host''"
    using assms(2) same_host_link_id by (simp add: nth_enumerate_eq)
  then show ?thesis using mapE_length [OF x(1)] x(2) assms(2) by (simp add: nth_append)
qed

text \<open>
  The bridge of a same-host link is named after the identifier of the link alone, which counts
  the links of one lab. So the \<open>i\<close>-th same-host links of any two labs use one and the same bridge
  when they are on the same host: their traffic is joined, and removing either link removes the
  bridge of both.
\<close>

theorem runtime_bridge_shared:
  assumes "build_runtime_links topo1 plan1 = Inr ls1" "build_runtime_links topo2 plan2 = Inr ls2"
    and "i < length (sp_local_links plan1)" "i < length (sp_local_links plan2)"
  shows "runtime_bridge_name (ls1 ! i) = runtime_bridge_name (ls2 ! i)"
  using build_local [OF assms(1,3)] build_local [OF assms(2,4)] by (simp add: runtime_bridge_name_def)

definition self_plan :: schedule_plan where
  "self_plan = \<lparr>sp_lab_name = [], sp_assignments = [], sp_cross_host_links = [], sp_local_links = tp_links (warm_topo []),
     sp_vrf_table_id = 7, sp_mgmt_vxlan_id = 8\<rparr>"

lemma warm_topo_builds: "\<exists>ls. build_runtime_links (warm_topo []\<lparr>tp_name := lab\<rparr>) self_plan = Inr ls"
  by (simp add: build_runtime_links_def self_plan_def same_host_link_def Let_def endpoint_name_def warm_enabled_def warm_topo_def)

theorem runtime_bridge_shared_witness:
  "\<exists>ls1 ls2. build_runtime_links (warm_topo []\<lparr>tp_name := ''red''\<rparr>) self_plan = Inr ls1
     \<and> build_runtime_links (warm_topo []\<lparr>tp_name := ''blue''\<rparr>) self_plan = Inr ls2
     \<and> runtime_bridge_name (ls1 ! 0) = runtime_bridge_name (ls2 ! 0)"
proof -
  obtain ls1 ls2 where b: "build_runtime_links (warm_topo []\<lparr>tp_name := ''red''\<rparr>) self_plan = Inr ls1"
    "build_runtime_links (warm_topo []\<lparr>tp_name := ''blue''\<rparr>) self_plan = Inr ls2"
    using warm_topo_builds by metis
  then show ?thesis using runtime_bridge_shared [OF b, of 0] by (simp add: self_plan_def warm_topo_def)
qed

end
