(* ===== verification/Generator.thy ===== *)
theory Generator
  imports RuntimeLinks Persistence
begin

text \<open>
  The containerlab files that a deployment writes, \<open>services/generator.py\<close>, as untyped documents (how
  YAML prints them is a parameter), and the files that belong to single devices.
\<close>

section \<open>Files of a device\<close>

text \<open>\<open>PATHS\<close> as far as it is used, with what image names depend on.\<close>

record gen_site = site +
  gs_tmp_dir :: string

definition is_part_char :: "char \<Rightarrow> bool" where
  "is_part_char c \<longleftrightarrow> is_alnum c \<or> c \<in> set ''_.-''"

text \<open>\<open>re.sub("[^A-Za-z0-9_.-]+", "_", s)\<close>.\<close>

function underscore_runs :: "string \<Rightarrow> string" where
  "underscore_runs [] = []"
| "underscore_runs (c # s) =
     (if is_part_char c then c # underscore_runs s
      else CHR ''_'' # underscore_runs (dropWhile (\<lambda>c. \<not> is_part_char c) s))"
  by pat_completeness auto
termination
  by (relation "measure length") (auto simp: le_imp_less_Suc length_dropWhile_le)

definition safe_path_part :: "string \<Rightarrow> string" where
  "safe_path_part v = strip_by (\<lambda>c. c \<in> {CHR ''.'', CHR ''_''}) (underscore_runs v)"

definition safe_key :: "string \<Rightarrow> string" where
  "safe_key v = filter is_part_char v"

definition safe_rel_path :: "yvalue \<Rightarrow> string" where
  "safe_rel_path v =
     str_join ''/'' (filter (\<lambda>p. p \<noteq> [])
       (map safe_path_part (filter (\<lambda>p. p \<notin> {[], ''.'', ''..''}) (str_split (CHR ''/'') (py_str (v_or v (VStr [])))))))"

definition node_asset_path :: "gen_site \<Rightarrow> string \<Rightarrow> string \<Rightarrow> string \<Rightarrow> string" where
  "node_asset_path st topo_name node_name filename =
     gs_tmp_dir st @ ''/dnlab-assets/'' @ or_else (safe_path_part topo_name) ''lab'' @ ''/''
       @ or_else (safe_path_part node_name) ''node'' @ ''/'' @ or_else (safe_path_part filename) filename"

text \<open>The text of a switch file; \<^const>\<open>Inl\<close> is the \<open>OverflowError\<close> of \<open>int(inf)\<close>, which is not caught.\<close>

definition xml_line :: "string \<Rightarrow> string \<Rightarrow> string" where
  "xml_line tag v = ''  <'' @ tag @ ''>'' @ v @ ''</'' @ tag @ ''>'' @ [CHR 0x0A]"

definition render_node_asset :: "(string, yvalue) dict \<Rightarrow> string \<Rightarrow> unit + string option" where
  "render_node_asset state filename =
     (if filename \<noteq> ''vswitch.xml'' \<or> get_or_none state ''type'' \<noteq> VStr ''cat9kv_vswitch'' then Inr None
      else
        (let wanted = str_upper (py_str (v_or (get_or_none state ''platform'') (VStr ''UADP'')));
             platform = (if wanted \<in> {''UADP'', ''Q200''} then wanted else ''UADP'');
             serial = take 12 (str_upper (filter is_alnum (py_str (v_or (get_or_none state ''serial_number'') (VStr [])))))
         in case to_int (v_or (get_or_none state ''port_count'') (VInt 24)) of
              Inl Infinite \<Rightarrow> Inl ()
            | r \<Rightarrow>
                (let port_count = (case r of Inr n \<Rightarrow> n | Inl _ \<Rightarrow> 24)
                 in Inr (Some (''<vswitch>'' @ [CHR 0x0A] @ xml_line ''asic_type'' platform
                      @ xml_line ''port_count'' (show_int (max 1 (min port_count 256)))
                      @ xml_line ''serial_number'' serial @ xml_line ''prod_serial_number'' serial
                      @ ''</vswitch>'' @ [CHR 0x0A])))))"

text \<open>One feature of a node: the path under the persistent directory and the text.\<close>

definition feature_lines :: "string \<Rightarrow> string \<Rightarrow> (string, yvalue) dict \<Rightarrow> string list" where
  "feature_lines true_value false_value state =
     map (\<lambda>(k, v). safe_key k @ ''='' @ (if truthy v then true_value else false_value))
       (filter (\<lambda>(k, v). safe_key k \<noteq> []) state)"

definition feature_file :: "yvalue \<Rightarrow> (string \<times> string) option" where
  "feature_file payload =
     (case payload of
        VDict p \<Rightarrow>
          (case (get_or_none p ''state'', get_or_none p ''materialize'') of
             (VDict state, VDict mat) \<Rightarrow>
               if get_or_none mat ''type'' \<noteq> VStr ''persist-key-value-bool-file'' then None
               else
                 (let rel_path = safe_rel_path (get_or_none mat ''path'');
                      lines = feature_lines (py_str (dict_get_or mat ''true'' (VStr ''yes'')))
                        (py_str (dict_get_or mat ''false'' (VStr ''no''))) state
                  in if rel_path = [] \<or> lines = [] then None
                     else Some (rel_path, str_join [CHR 0x0A] lines @ [CHR 0x0A]))
           | _ \<Rightarrow> None)
      | _ \<Rightarrow> None)"

datatype gen_error =
    NoNode string | NoEndpoint | Capacity capacity_error | NotIterable | NotString | BadSubnet mgmt_address_error

definition render_node_feature_files :: "gen_site \<Rightarrow> lab_topology \<Rightarrow> string \<Rightarrow> gen_error + (string, string) dict" where
  "render_node_feature_files st topo node_name =
     (let files = List.map_filter feature_file (dict_values (dict_get_or (lt_node_features topo) node_name []))
      in if files = [] then Inr []
         else
           (case dict_get (tp_nodes topo) node_name of
              None \<Rightarrow> Inl (NoNode node_name)
            | Some node \<Rightarrow>
                Inr (dict_of (map (\<lambda>(rel_path, text).
                  (persist_dir_for_node (st_persist_root st) (tp_name topo) node_name (nd_persist_id node)
                     (pc_root (lt_persistence topo)) @ ''/'' @ rel_path, text)) files))))"

section \<open>The entry of a device\<close>

text \<open>\<open>list(v or [])\<close>.\<close>

definition py_list :: "yvalue \<Rightarrow> gen_error + yvalue list" where
  "py_list v = map_sum (\<lambda>_. NotIterable) id (as_items (v_or v (VList [])))"

text \<open>\<open>any(b.endswith(":/persist") for b in binds)\<close>.\<close>

fun has_persist_bind :: "yvalue list \<Rightarrow> gen_error + bool" where
  "has_persist_bind [] = Inr False"
| "has_persist_bind (VStr s # bs) = (if endswith s '':/persist'' then Inr True else has_persist_bind bs)"
| "has_persist_bind (b # bs) = Inl NotString"

definition str_dict :: "(string, string) dict \<Rightarrow> yvalue" where
  "str_dict d = VDict (map (\<lambda>(k, v). (k, VStr v)) d)"

definition set_default :: "'k \<Rightarrow> 'v \<Rightarrow> ('k, 'v) dict \<Rightarrow> ('k, 'v) dict" where
  "set_default k v d = (if dict_get d k = None then dict_set k v d else d)"

definition warm_env :: "vdnode \<Rightarrow> int \<Rightarrow> (string, string) dict \<Rightarrow> (string, string) dict" where
  "warm_env node capacity env =
     set_default ''DNLAB_WARM_VM_INDEX'' (show_int (case profile_for_node node of None \<Rightarrow> 0 | Some p \<Rightarrow> pf_vm_index p))
       (set_default ''DNLAB_NIC_POLL_INTERVAL'' ''0.05'' (dict_set ''DNLAB_WARM_PORTS'' (show_int capacity) env))"

text \<open>Kind, image, address and environment; the environment is there when the device has one or is warm.\<close>

definition node_base :: "vdnode \<Rightarrow> int \<Rightarrow> (string, yvalue) dict" where
  "node_base node capacity =
     (let clean = filter (\<lambda>(k, v). k \<notin> {image_status_env, base_digest_env}) (nd_env node);
          env = (if capacity \<noteq> 0 then warm_env node capacity clean else clean)
      in [(''kind'', VStr (nd_kind node)), (''image'', VStr (nd_image node))]
         @ (if nd_mgmt_ipv4 node \<noteq> [] then [(''mgmt-ipv4'', VStr (nd_mgmt_ipv4 node))] else [])
         @ (if nd_env node \<noteq> [] \<or> capacity \<noteq> 0 then [(''env'', str_dict env)] else []))"

definition with_extra :: "vdnode \<Rightarrow> (string, yvalue) dict \<Rightarrow> (string, yvalue) dict" where
  "with_extra node d = fold (\<lambda>(k, v). dict_set k v) (filter (\<lambda>(k, v). k \<noteq> ''webui_ports'') (nd_extra node)) d"

definition asset_bind :: "gen_site \<Rightarrow> lab_topology \<Rightarrow> string \<Rightarrow> (string, yvalue) dict \<Rightarrow> gen_error + (string, yvalue) dict" where
  "asset_bind st topo vd_name d =
     (if get_or_none (dict_get_or (lt_node_overrides topo) vd_name []) ''type'' \<noteq> VStr ''cat9kv_vswitch'' then Inr d
      else
        bindE (py_list (get_or_none d ''binds'')) (\<lambda>binds.
        (let existing = filter (\<lambda>b. \<not> endswith b '':/vswitch.xml'') (map py_str binds)
         in Inr (dict_set ''binds'' (VList (map VStr (existing
              @ [node_asset_path st (tp_name topo) vd_name ''vswitch.xml'' @ '':/vswitch.xml'']))) d))))"

definition port_spec :: "webui_allocation \<Rightarrow> string" where
  "port_spec a = show_int (wst_host_port a) @ '':'' @ show_int (wst_container_port a) @ ''/'' @ wst_proto a"

definition add_ports :: "webui_allocation list \<Rightarrow> (string, yvalue) dict \<Rightarrow> gen_error + (string, yvalue) dict" where
  "add_ports allocs d =
     (if allocs = [] then Inr d
      else
        bindE (py_list (get_or_none d ''ports'')) (\<lambda>existing.
        Inr (dict_set ''ports''
          (VList (fold (\<lambda>a ps. if VStr (port_spec a) \<in> set ps then ps else ps @ [VStr (port_spec a)]) allocs existing)) d)))"

definition persist_bind :: "gen_site \<Rightarrow> lab_topology \<Rightarrow> string \<Rightarrow> vdnode \<Rightarrow> (string, yvalue) dict \<Rightarrow> gen_error + (string, yvalue) dict" where
  "persist_bind st topo vd_name node d =
     (if \<not> needs_persist_bind (nd_image node) then Inr d
      else
        bindE (py_list (get_or_none d ''binds'')) (\<lambda>existing.
        bindE (has_persist_bind existing) (\<lambda>present.
        Inr (dict_set ''binds'' (VList (if present then existing else existing @
          [VStr (persist_dir_for_node (st_persist_root st) (tp_name topo) vd_name (nd_persist_id node)
             (pc_root (lt_persistence topo)) @ '':/persist'')])) d))))"

definition build_node_dict ::
  "gen_site \<Rightarrow> lab_topology \<Rightarrow> string \<Rightarrow> (string, webui_allocation list) dict \<Rightarrow> gen_error + (string, yvalue) dict" where
  "build_node_dict st topo vd_name webui =
     (case dict_get (tp_nodes topo) vd_name of
        None \<Rightarrow> Inl (NoNode vd_name)
      | Some node \<Rightarrow>
          bindE (map_sum Capacity id (capacity_for_node (topology.truncate topo) vd_name)) (\<lambda>capacity.
          bindE (asset_bind st topo vd_name (with_extra node (node_base node capacity))) (\<lambda>d1.
          bindE (add_ports (dict_get_or webui vd_name []) d1) (\<lambda>d2.
          persist_bind st topo vd_name node d2))))"

section \<open>Names of interfaces on the hosts\<close>

text \<open>An end of a link: the link, the device and its interface.\<close>

type_synonym end_key = "string \<times> string \<times> string"

definition runtime_endpoint_name :: "lab_topology \<Rightarrow> string \<Rightarrow> string \<Rightarrow> string \<Rightarrow> string \<Rightarrow> gen_error + string" where
  "runtime_endpoint_name topo node iface link_id fallback =
     (case dict_get (tp_nodes topo) node of
        None \<Rightarrow> Inl (NoNode node)
      | Some nd \<Rightarrow>
          Inr (if is_enabled nd then runtime_port_endpoint (tp_name topo) node iface
               else or_else fallback (runtime_host_endpoint (tp_name topo) node iface link_id)))"

text \<open>The ends of a link with their hosts and names, in the order in which the code visits them.\<close>

type_synonym named_end = "string option \<times> end_key \<times> string"

definition local_ends :: "lab_topology \<Rightarrow> schedule_plan \<Rightarrow> nat \<times> link \<Rightarrow> gen_error + named_end list" where
  "local_ends topo plan il =
     (case il of (i, l) \<Rightarrow>
        (let lid = ''l'' @ show_nat i;
             host = Some (case host_for_vd (sp_assignments plan) (lk_source l) of None \<Rightarrow> [] | Some h \<Rightarrow> h)
         in bindE (runtime_endpoint_name topo (lk_source l) (lk_source_iface l) lid []) (\<lambda>a.
            bindE (runtime_endpoint_name topo (lk_target l) (lk_target_iface l) lid []) (\<lambda>b.
            Inr [(host, (lid, lk_source l, lk_source_iface l), a), (host, (lid, lk_target l, lk_target_iface l), b)]))))"

definition cross_ends :: "lab_topology \<Rightarrow> nat \<times> cross_host_link \<Rightarrow> gen_error + named_end list" where
  "cross_ends topo il =
     (case il of (i, l) \<Rightarrow>
        (let lid = ''vx'' @ show_nat i
         in bindE (runtime_endpoint_name topo (ch_source_node l) (ch_source_iface l) lid (ch_source_host_iface l)) (\<lambda>a.
            bindE (runtime_endpoint_name topo (ch_target_node l) (ch_target_iface l) lid (ch_target_host_iface l)) (\<lambda>b.
            Inr [(ch_source_host l, (lid, ch_source_node l, ch_source_iface l), a),
                 (ch_target_host l, (lid, ch_target_node l, ch_target_iface l), b)]))))"

definition realnet_ends :: "lab_topology \<Rightarrow> nat \<times> real_net_link \<Rightarrow> gen_error + named_end list" where
  "realnet_ends topo il =
     (case il of (i, l) \<Rightarrow>
        (let lid = ''rn'' @ show_nat i
         in bindE (runtime_endpoint_name topo (rl_node l) (rl_iface l) lid
              (or_else (rl_bridge_iface l) (realnet_bridge_iface (rl_node l) (rl_iface l)))) (\<lambda>a.
            Inr [(Some (rl_host l), (lid, rl_node l, rl_iface l), a)])))"

definition named_ends :: "lab_topology \<Rightarrow> schedule_plan \<Rightarrow> gen_error + named_end list" where
  "named_ends topo plan =
     bindE (mapE (local_ends topo plan) (enumerate 0 (sp_local_links plan))) (\<lambda>ls.
     bindE (mapE (cross_ends topo) (enumerate 0 (sp_cross_host_links plan))) (\<lambda>vs.
     bindE (mapE (realnet_ends topo) (enumerate 0 (tp_real_net_links topo))) (\<lambda>rs.
     Inr (concat (ls @ vs @ rs)))))"

definition rename_ends :: "(end_key, string) dict \<Rightarrow> end_key list \<Rightarrow> (end_key, string) dict \<Rightarrow> (end_key, string) dict" where
  "rename_ends raw keys out =
     fold (\<lambda>(k, n). dict_set k n) (zip keys (ensure_unique (map (\<lambda>k. dict_get_or raw k []) keys))) out"

definition micro_host_endpoints :: "lab_topology \<Rightarrow> schedule_plan \<Rightarrow> gen_error + (end_key, string) dict" where
  "micro_host_endpoints topo plan =
     bindE (named_ends topo plan) (\<lambda>ends.
     (let raw = dict_of (map snd ends);
          per_host = fold (\<lambda>(h, k, _). dict_append h k) ends (map (\<lambda>h. (Some h, [])) (dict_keys (sp_assignments plan)))
      in Inr (fold (rename_ends raw) (dict_values per_host) raw)))"

section \<open>One file for each device\<close>

definition ep_link :: "string \<Rightarrow> string \<Rightarrow> yvalue" where
  "ep_link a b = VDict [(''endpoints'', VList [VStr a, VStr b])]"

definition host_end :: "string \<Rightarrow> string \<Rightarrow> string \<Rightarrow> string \<times> string" where
  "host_end vd iface name = (vd @ '':'' @ iface, ''host:'' @ name)"

text \<open>The ends that a device has on its host. For a link of a device with itself it is only the source.\<close>

definition device_ends :: "lab_topology \<Rightarrow> schedule_plan \<Rightarrow> string \<Rightarrow> string \<Rightarrow> end_key list" where
  "device_ends topo plan host_name vd =
     List.map_filter (\<lambda>(i, l).
       if lk_source l = vd then Some (''l'' @ show_nat i, lk_source l, lk_source_iface l)
       else if lk_target l = vd then Some (''l'' @ show_nat i, lk_target l, lk_target_iface l) else None)
       (enumerate 0 (sp_local_links plan))
   @ List.map_filter (\<lambda>(i, l).
       if ch_source_node l = vd \<and> ch_source_host l = Some host_name
       then Some (''vx'' @ show_nat i, ch_source_node l, ch_source_iface l)
       else if ch_target_node l = vd \<and> ch_target_host l = Some host_name
       then Some (''vx'' @ show_nat i, ch_target_node l, ch_target_iface l) else None)
       (enumerate 0 (sp_cross_host_links plan))
   @ List.map_filter (\<lambda>(i, l).
       if rl_node l = vd \<and> rl_host l = host_name then Some (''rn'' @ show_nat i, rl_node l, rl_iface l) else None)
       (enumerate 0 (tp_real_net_links topo))"

definition device_links ::
  "(end_key, string) dict \<Rightarrow> string \<Rightarrow> end_key list \<Rightarrow> gen_error + (string \<times> string) list" where
  "device_links names vd keys =
     mapE (\<lambda>k. case dict_get names k of None \<Rightarrow> Inl NoEndpoint | Some n \<Rightarrow> Inr (host_end vd (snd (snd k)) n)) keys"

text \<open>The interfaces of a device that a link already joins, read back from the endpoints.\<close>

definition attached :: "string \<Rightarrow> (string \<times> string) list \<Rightarrow> string set" where
  "attached vd links =
     (\<lambda>e. snd (split_endpoint e)) ` {e \<in> \<Union> ((\<lambda>(a, b). {a, b}) ` set links). startswith e (vd @ '':'')}"

definition warm_links_of :: "lab_topology \<Rightarrow> string \<Rightarrow> int \<Rightarrow> (string \<times> string) list \<Rightarrow> (string \<times> string) list" where
  "warm_links_of topo vd capacity links =
     List.map_filter (\<lambda>i. let iface = ''eth'' @ show_nat i in
         if iface \<in> attached vd links then None
         else Some (host_end vd iface (runtime_port_endpoint (tp_name topo) vd iface)))
       [1..<nat capacity + 1]"

definition topology_section :: "(string, yvalue) dict \<Rightarrow> (string \<times> string) list \<Rightarrow> yvalue" where
  "topology_section nodes links =
     VDict ([(''nodes'', VDict nodes)]
       @ (if links \<noteq> [] then [(''links'', VList (map (\<lambda>(a, b). ep_link a b) links))] else []))"

definition micro_links ::
  "lab_topology \<Rightarrow> schedule_plan \<Rightarrow> string \<Rightarrow> string \<Rightarrow> (end_key, string) dict \<Rightarrow> gen_error + (string \<times> string) list" where
  "micro_links topo plan host_name vd names =
     bindE (device_links names vd (device_ends topo plan host_name vd)) (\<lambda>links.
     bindE (map_sum Capacity id (capacity_for_node (topology.truncate topo) vd)) (\<lambda>capacity.
     Inr (links @ warm_links_of topo vd capacity links)))"

definition build_micro_clab_dict ::
  "gen_site \<Rightarrow> lab_topology \<Rightarrow> schedule_plan \<Rightarrow> string \<Rightarrow> string \<Rightarrow> (end_key, string) dict
     \<Rightarrow> (string, webui_allocation list) dict \<Rightarrow> gen_error + yvalue" where
  "build_micro_clab_dict st topo plan host_name vd names webui =
     bindE (build_node_dict st topo vd webui) (\<lambda>node.
     bindE (micro_links topo plan host_name vd names) (\<lambda>links.
     Inr (VDict [(''name'', VStr (micro_topology_name (tp_name topo) vd)),
                 (''mgmt'', VDict [(''network'', VStr (mg_network (tp_mgmt topo)))]),
                 (''topology'', topology_section [(vd, VDict node)] links)])))"

definition generate_micro_topology_files ::
  "gen_site \<Rightarrow> (yvalue \<Rightarrow> string) \<Rightarrow> lab_topology \<Rightarrow> schedule_plan \<Rightarrow> (string, webui_allocation list) dict
     \<Rightarrow> gen_error + (string, (string, string) dict) dict" where
  "generate_micro_topology_files st dump topo plan webui =
     bindE (micro_host_endpoints topo plan) (\<lambda>names.
       mapE (\<lambda>(host, a).
         bindE (mapE (\<lambda>vd. bindE (build_micro_clab_dict st topo plan host vd names webui) (\<lambda>d. Inr (vd, dump d)))
           (ha_vd_names a)) (\<lambda>files. Inr (host, dict_of files)))
         (filter (\<lambda>(host, a). ha_vd_names a \<noteq> []) (sp_assignments plan)))"

section \<open>One file for each host\<close>

definition full_mgmt :: "mgmt_config \<Rightarrow> yvalue" where
  "full_mgmt m =
     VDict ([(''network'', VStr (mg_network m)), (''bridge'', VStr (mg_bridge m)), (''ipv4-subnet'', VStr (mg_ipv4_subnet m)),
             (''ipv4-gw'', VStr (or_else (mg_docker_ipv4_gw m) (mg_ipv4_gw m)))]
       @ (if mg_ipv6_subnet m \<noteq> [] then [(''ipv6-subnet'', VStr (mg_ipv6_subnet m))] else [])
       @ (if mg_ipv6_gw m \<noteq> [] then [(''ipv6-gw'', VStr (mg_ipv6_gw m))] else []))"

definition host_links :: "lab_topology \<Rightarrow> schedule_plan \<Rightarrow> string \<Rightarrow> string list \<Rightarrow> (string \<times> string) list" where
  "host_links topo plan host_name vds =
     map (\<lambda>l. (rl_node l @ '':'' @ rl_iface l, realnet_bridge_name (tp_name topo) (rl_real_net l) @ '':'' @ rl_bridge_iface l))
       (filter (\<lambda>l. rl_host l = host_name \<and> rl_node l \<in> set vds) (tp_real_net_links topo))
   @ map (\<lambda>l. (lk_source l @ '':'' @ lk_source_iface l, lk_target l @ '':'' @ lk_target_iface l))
       (filter (\<lambda>l. lk_source l \<in> set vds \<and> lk_target l \<in> set vds) (sp_local_links plan))
   @ List.map_filter (\<lambda>l.
       if ch_source_host l = Some host_name
       then Some (host_end (ch_source_node l) (ch_source_iface l) (ch_source_host_iface l))
       else if ch_target_host l = Some host_name
       then Some (host_end (ch_target_node l) (ch_target_iface l) (ch_target_host_iface l)) else None)
       (sp_cross_host_links plan)"

definition bridge_nodes :: "lab_topology \<Rightarrow> string \<Rightarrow> string list \<Rightarrow> (string, yvalue) dict \<Rightarrow> (string, yvalue) dict" where
  "bridge_nodes topo host_name vds nodes =
     fold (\<lambda>l. set_default (realnet_bridge_name (tp_name topo) (rl_real_net l)) (VDict [(''kind'', VStr ''bridge'')]))
       (filter (\<lambda>l. rl_host l = host_name \<and> rl_node l \<in> set vds) (tp_real_net_links topo)) nodes"

definition build_clab_dict ::
  "gen_site \<Rightarrow> lab_topology \<Rightarrow> schedule_plan \<Rightarrow> string \<Rightarrow> string list \<Rightarrow> (string, webui_allocation list) dict \<Rightarrow> gen_error + yvalue" where
  "build_clab_dict st topo plan host_name vds webui =
     bindE (mapE (\<lambda>vd. bindE (build_node_dict st topo vd webui) (\<lambda>d. Inr (vd, VDict d))) vds) (\<lambda>nodes.
     Inr (VDict [(''name'', VStr (tp_name topo)), (''mgmt'', full_mgmt (tp_mgmt topo)),
                 (''topology'', topology_section (bridge_nodes topo host_name vds (dict_of nodes))
                    (host_links topo plan host_name vds))]))"

definition generate_topology_files ::
  "gen_site \<Rightarrow> (yvalue \<Rightarrow> string) \<Rightarrow> lab_topology \<Rightarrow> schedule_plan \<Rightarrow> (string, webui_allocation list) dict
     \<Rightarrow> gen_error + (string, string) dict" where
  "generate_topology_files st dump topo plan webui =
     mapE (\<lambda>(host, a). bindE (build_clab_dict st topo plan host (ha_vd_names a) webui) (\<lambda>d. Inr (host, dump d)))
       (filter (\<lambda>(host, a). ha_vd_names a \<noteq> []) (sp_assignments plan))"

section \<open>The anchor of the management network\<close>

definition build_mgmt_anchor_clab_dict :: "gen_site \<Rightarrow> lab_topology \<Rightarrow> string \<Rightarrow> gen_error + yvalue" where
  "build_mgmt_anchor_clab_dict st topo host_name =
     bindE (map_sum BadSubnet id (ipv4_reservations (mg_ipv4_subnet (tp_mgmt topo)))) (\<lambda>r.
     Inr (VDict [(''name'', VStr (mgmt_anchor_topology_name (tp_name topo) host_name)), (''mgmt'', full_mgmt (tp_mgmt topo)),
       (''topology'', VDict [(''nodes'', VDict [(''mgmt-anchor'', VDict
          [(''kind'', VStr ''linux''), (''image'', VStr (default_image (site.truncate st) ''mgmt-anchor'')),
           (''mgmt-ipv4'', VStr (mr_anchor r)), (''env'', str_dict [(''CLAB_MGMT_PASSTHROUGH'', ''true'')])])])])]))"

definition generate_mgmt_anchor_topology_files ::
  "gen_site \<Rightarrow> (yvalue \<Rightarrow> string) \<Rightarrow> lab_topology \<Rightarrow> schedule_plan \<Rightarrow> gen_error + (string, string) dict" where
  "generate_mgmt_anchor_topology_files st dump topo plan =
     mapE (\<lambda>(host, a). bindE (build_mgmt_anchor_clab_dict st topo host) (\<lambda>d. Inr (host, dump d)))
       (filter (\<lambda>(host, a). ha_vd_names a \<noteq> []) (sp_assignments plan))"

section \<open>The generator and the runtime links name the same interfaces\<close>

text \<open>The ends of a runtime link that are interfaces of devices: host, key and name.\<close>

definition link_ends :: "runtime_link_state \<Rightarrow> (string \<times> end_key \<times> string) list" where
  "link_ends l =
     (lst_host_a l, (lst_id l, dict_get_or (lst_endpoint_a l) ''node'' [], dict_get_or (lst_endpoint_a l) ''iface'' []), lst_host_endpoint_a l)
     # (if lst_link_type l = ''real_net'' then []
        else [(lst_host_b l, (lst_id l, dict_get_or (lst_endpoint_b l) ''node'' [], dict_get_or (lst_endpoint_b l) ''iface'' []), lst_host_endpoint_b l)])"

definition plain_host :: "named_end \<Rightarrow> string \<times> end_key \<times> string" where
  "plain_host e = (case e of (h, k, n) \<Rightarrow> (case h of None \<Rightarrow> [] | Some h \<Rightarrow> h, k, n))"

lemma mapE_simulation:
  assumes "\<And>x y. f x = Inr y \<Longrightarrow> \<exists>zs. g x = Inr zs \<and> map \<phi> zs = \<psi> y"
  shows "mapE f xs = Inr ys \<Longrightarrow> \<exists>zss. mapE g xs = Inr zss \<and> map \<phi> (concat zss) = concat (map \<psi> ys)"
proof (induction xs arbitrary: ys)
  case (Cons x xs)
  then obtain y ys' where y: "f x = Inr y" "mapE f xs = Inr ys'" "ys = y # ys'" by (auto simp: bindE_eq_Inr)
  then show ?case using assms [OF y(1)] Cons.IH [OF y(2)] by force
qed simp

lemma endpoint_name_Inr:
  "endpoint_name (topology.truncate topo) node iface lid fallback = Inr n \<Longrightarrow>
     runtime_endpoint_name topo node iface lid fallback = Inr n"
  by (auto simp: endpoint_name_def warm_enabled_def runtime_endpoint_name_def topology.truncate_def bindE_eq_Inr split: option.splits)

lemma endpoint_simps [simp]:
  "dict_get_or (node_endpoint node iface) ''node'' [] = node" "dict_get_or (node_endpoint node iface) ''iface'' [] = iface"
  "dict_get_or [(''real_net'', rn)] ''node'' [] = []"
  by (simp_all add: node_endpoint_def dict_get_or_def)

lemma local_ends_agree:
  "same_host_link (topology.truncate topo) plan il = Inr y \<Longrightarrow>
     \<exists>zs. local_ends topo plan il = Inr zs \<and> map plain_host zs = link_ends y"
  by (cases il)
     (auto simp: same_host_link_def local_ends_def Let_def bindE_eq_Inr plain_host_def link_ends_def base_link_def
        dest!: endpoint_name_Inr)

lemma cross_ends_agree:
  "cross_host_runtime_link (topology.truncate topo) il = Inr y \<Longrightarrow>
     \<exists>zs. cross_ends topo il = Inr zs \<and> map plain_host zs = link_ends y"
  by (cases il)
     (auto simp: cross_host_runtime_link_def cross_ends_def Let_def bindE_eq_Inr plain_host_def link_ends_def base_link_def
        dest!: endpoint_name_Inr)

lemma realnet_ends_agree:
  "real_net_runtime_link (topology.truncate topo) il = Inr y \<Longrightarrow>
     \<exists>zs. realnet_ends topo il = Inr zs \<and> map plain_host zs = link_ends y"
  by (cases il)
     (auto simp: real_net_runtime_link_def realnet_ends_def Let_def bindE_eq_Inr plain_host_def link_ends_def base_link_def
        dest!: endpoint_name_Inr)

lemma named_ends_agree:
  assumes "build_runtime_links (topology.truncate topo) plan = Inr links"
  shows "\<exists>ends. named_ends topo plan = Inr ends \<and> map plain_host ends = concat (map link_ends links)"
proof -
  obtain ls vs rs where p: "mapE (same_host_link (topology.truncate topo) plan) (enumerate 0 (sp_local_links plan)) = Inr ls"
    "mapE (cross_host_runtime_link (topology.truncate topo)) (enumerate 0 (sp_cross_host_links plan)) = Inr vs"
    "mapE (real_net_runtime_link (topology.truncate topo)) (enumerate 0 (tp_real_net_links topo)) = Inr rs" "links = ls @ vs @ rs"
    using assms by (auto simp: build_runtime_links_def bindE_eq_Inr topology.truncate_def)
  obtain l' where "mapE (local_ends topo plan) (enumerate 0 (sp_local_links plan)) = Inr l'" "map plain_host (concat l') = concat (map link_ends ls)"
    using mapE_simulation [where g = "local_ends topo plan" and \<phi> = plain_host and \<psi> = link_ends, OF local_ends_agree p(1)] by blast
  moreover obtain v' where "mapE (cross_ends topo) (enumerate 0 (sp_cross_host_links plan)) = Inr v'" "map plain_host (concat v') = concat (map link_ends vs)"
    using mapE_simulation [where g = "cross_ends topo" and \<phi> = plain_host and \<psi> = link_ends, OF cross_ends_agree p(2)] by blast
  moreover obtain r' where "mapE (realnet_ends topo) (enumerate 0 (tp_real_net_links topo)) = Inr r'" "map plain_host (concat r') = concat (map link_ends rs)"
    using mapE_simulation [where g = "realnet_ends topo" and \<phi> = plain_host and \<psi> = link_ends, OF realnet_ends_agree p(3)] by blast
  ultimately show ?thesis using p(4) by (simp add: named_ends_def)
qed

text \<open>The identifiers of rebuilt links are distinct.\<close>

lemma mapE_ids:
  assumes "\<And>i x y. f (i, x) = Inr y \<Longrightarrow> lst_id y = p @ show_nat i"
  shows "mapE f (enumerate n xs) = Inr ys \<Longrightarrow> map lst_id ys = map (\<lambda>i. p @ show_nat i) [n..<n + length xs]"
proof (induction xs arbitrary: n ys)
  case (Cons x xs)
  then obtain y ys' where y: "f (n, x) = Inr y" "mapE f (enumerate (Suc n) xs) = Inr ys'" "ys = y # ys'"
    by (auto simp: bindE_eq_Inr)
  have "[n..<n + length (x # xs)] = n # [Suc n..<Suc n + length xs]" by (simp add: upt_rec)
  then show ?case using assms [OF y(1)] Cons.IH [OF y(2)] y(3) by simp
qed simp

lemma built_ids_distinct:
  assumes "build_runtime_links t plan = Inr links"
  shows "distinct (map lst_id links)"
proof -
  obtain ls vs rs where p: "mapE (same_host_link t plan) (enumerate 0 (sp_local_links plan)) = Inr ls"
    "mapE (cross_host_runtime_link t) (enumerate 0 (sp_cross_host_links plan)) = Inr vs"
    "mapE (real_net_runtime_link t) (enumerate 0 (tp_real_net_links t)) = Inr rs" "links = ls @ vs @ rs"
    using assms by (auto simp: build_runtime_links_def bindE_eq_Inr)
  have "map lst_id ls = map (\<lambda>i. ''l'' @ show_nat i) [0..<0 + length (sp_local_links plan)]"
    by (rule mapE_ids [OF _ p(1)]) (auto simp: same_host_link_def Let_def bindE_eq_Inr base_link_def)
  moreover have "map lst_id vs = map (\<lambda>i. ''vx'' @ show_nat i) [0..<0 + length (sp_cross_host_links plan)]"
    by (rule mapE_ids [OF _ p(2)]) (auto simp: cross_host_runtime_link_def Let_def bindE_eq_Inr base_link_def)
  moreover have "map lst_id rs = map (\<lambda>i. ''rn'' @ show_nat i) [0..<0 + length (tp_real_net_links t)]"
    by (rule mapE_ids [OF _ p(3)]) (auto simp: real_net_runtime_link_def Let_def bindE_eq_Inr base_link_def)
  moreover have "distinct (map (\<lambda>i. p @ show_nat i) [0..<n])" for p n
    using show_nat_inj by (auto simp: distinct_map inj_on_def)
  note this [of "''l''"] this [of "''vx''"] this [of "''rn''"]
  ultimately show ?thesis using p(4) by auto
qed

section \<open>Names that need no renaming\<close>

definition keys_on :: "string option \<Rightarrow> named_end list \<Rightarrow> end_key list" where
  "keys_on h ends = map (\<lambda>e. fst (snd e)) (filter (\<lambda>e. fst e = h) ends)"

lemma per_host_get:
  "dict_get (fold (\<lambda>(h, k, _). dict_append h k) ends d) h =
     (if keys_on h ends = [] then dict_get d h else Some (dict_get_or d h [] @ keys_on h ends))"
proof (induction ends arbitrary: d)
  case (Cons e ends)
  obtain h' k n where e: "e = (h', k, n)" by (cases e)
  show ?case using Cons.IH [of "dict_append h' k d"] by (auto simp: e keys_on_def dict_append_def dict_get_or_def)
qed (simp add: keys_on_def)

lemma per_host_ok: "dict_ok d \<Longrightarrow> dict_ok (fold (\<lambda>(h, k, _). dict_append h k) ends d)"
  by (induction ends arbitrary: d) (auto simp: split_beta dict_append_ok)

lemma per_host_values:
  assumes "distinct hs"
    "ks \<in> set (dict_values (fold (\<lambda>(h, k, _). dict_append h k) ends (map (\<lambda>h. (Some h, [])) hs)))"
  shows "\<exists>h. ks = keys_on h ends"
proof -
  let ?d = "map (\<lambda>h. (Some h, [])) hs" and ?f = "fold (\<lambda>(h, k, _). dict_append h k) ends"
  obtain h where h: "(h, ks) \<in> set (?f ?d)" using assms(2) by auto
  have "dict_ok ?d" using assms(1) by (simp add: comp_def distinct_map)
  then have "dict_get (?f ?d) h = Some ks" using h by (intro map_of_is_SomeI per_host_ok)
  moreover have "dict_get ?d h = Some v \<Longrightarrow> v = []" for v by (auto dest: map_of_SomeD)
  then have "dict_get_or ?d h [] = []" by (auto simp: dict_get_or_def split: option.split)
  moreover note \<open>\<And>v. dict_get ?d h = Some v \<Longrightarrow> v = []\<close>
  ultimately have "ks = keys_on h ends" by (auto simp: per_host_get split: if_splits)
  then show ?thesis by blast
qed

lemma rename_ends_same:
  assumes "distinct (map (\<lambda>k. dict_get_or raw k []) ks)" "\<And>k. k \<in> set ks \<Longrightarrow> dict_get raw k \<noteq> None"
    "\<And>k. dict_get out k = dict_get raw k"
  shows "dict_get (rename_ends raw ks out) k = dict_get raw k"
proof -
  have "dict_get (fold (\<lambda>(k, n). dict_set k n) (zip ks' (map (\<lambda>k. dict_get_or raw k []) ks')) d) k = dict_get raw k"
    if "\<And>k. dict_get d k = dict_get raw k" "\<And>k. k \<in> set ks' \<Longrightarrow> dict_get raw k \<noteq> None" for ks' d
    using that
  proof (induction ks' arbitrary: d)
    case (Cons k' ks')
    have "dict_get (dict_set k' (dict_get_or raw k' []) d) k = dict_get raw k" for k
      using Cons.prems(1) Cons.prems(2) [of k'] by (auto simp: dict_get_or_def)
    then show ?case using Cons by simp
  qed simp
  then show ?thesis using assms by (simp add: rename_ends_def ensure_unique_distinct)
qed

lemma rename_all_same:
  assumes "\<And>ks. ks \<in> set kss \<Longrightarrow> distinct (map (\<lambda>k. dict_get_or raw k []) ks)"
    "\<And>ks k. ks \<in> set kss \<Longrightarrow> k \<in> set ks \<Longrightarrow> dict_get raw k \<noteq> None"
    "\<And>k. dict_get out k = dict_get raw k"
  shows "dict_get (fold (rename_ends raw) kss out) k = dict_get raw k"
  using assms
proof (induction kss arbitrary: out)
  case (Cons ks kss)
  have step: "dict_get (rename_ends raw ks out) k = dict_get raw k" for k
  proof (rule rename_ends_same [OF _ _ Cons.prems(3)])
    show "distinct (map (\<lambda>k. dict_get_or raw k []) ks)" by (rule Cons.prems(1)) simp
    show "dict_get raw k \<noteq> None" if "k \<in> set ks" for k by (rule Cons.prems(2) [OF _ that]) simp
  qed
  have "dict_get (fold (rename_ends raw) kss (rename_ends raw ks out)) k = dict_get raw k"
  proof (rule Cons.IH [OF _ _ step])
    show "distinct (map (\<lambda>k. dict_get_or raw k []) ks')" if "ks' \<in> set kss" for ks' by (rule Cons.prems(1)) (simp add: that)
    show "dict_get raw k \<noteq> None" if "ks' \<in> set kss" "k \<in> set ks'" for ks' k by (rule Cons.prems(2) [OF _ that(2)]) (simp add: that)
  qed
  then show ?case by simp
qed simp

lemma raw_get:
  assumes "distinct (map (\<lambda>e. fst (snd e)) ends)" "(h, k, n) \<in> set ends"
  shows "dict_get (dict_of (map snd ends)) k = Some n"
proof -
  have "distinct (map fst (rev (map snd ends)))" using assms(1) by (simp add: rev_map [symmetric] comp_def)
  moreover have "(k, n) \<in> set (rev (map snd ends))" using assms(2) by (auto intro: rev_image_eqI)
  ultimately show ?thesis by (simp add: dict_get_dict_of)
qed

lemma endpoints_kept:
  assumes "named_ends topo plan = Inr ends" "dict_ok (sp_assignments plan)"
    "distinct (map (\<lambda>e. fst (snd e)) ends)" "\<And>h. distinct (map (\<lambda>e. snd (snd e)) (filter (\<lambda>e. fst e = h) ends))"
  shows "\<exists>names. micro_host_endpoints topo plan = Inr names \<and> (\<forall>e \<in> set ends. dict_get names (fst (snd e)) = Some (snd (snd e)))"
proof -
  let ?raw = "dict_of (map snd ends)"
  let ?per = "fold (\<lambda>(h, k, _). dict_append h k) ends (map (\<lambda>h. (Some h, [])) (dict_keys (sp_assignments plan)))"
  have raw: "dict_get ?raw (fst (snd e)) = Some (snd (snd e))" if "e \<in> set ends" for e
    using raw_get [OF assms(3), of "fst e"] that by simp
  have same: "map (\<lambda>k. dict_get_or ?raw k []) (keys_on h ends) = map (\<lambda>e. snd (snd e)) (filter (\<lambda>e. fst e = h) ends)" for h
    using raw by (auto simp: keys_on_def dict_get_or_def)
  have "dict_get (fold (rename_ends ?raw) (dict_values ?per) ?raw) k = dict_get ?raw k" for k
  proof (rule rename_all_same)
    fix ks assume "ks \<in> set (dict_values ?per)"
    then obtain h where h: "ks = keys_on h ends" using per_host_values assms(2) by blast
    show "distinct (map (\<lambda>k. dict_get_or ?raw k []) ks)" unfolding h same by (rule assms(4))
    show "dict_get ?raw k \<noteq> None" if "k \<in> set ks" for k using that raw by (auto simp: h keys_on_def)
  qed simp
  then show ?thesis using raw by (simp add: micro_host_endpoints_def assms(1) Let_def)
qed

section \<open>The ends of a device\<close>

definition joins_devices :: "runtime_link_state \<Rightarrow> bool" where
  "joins_devices l \<longleftrightarrow> distinct (map (\<lambda>(h, (lid, node, iface), n). node) (link_ends l))"

definition joins_interfaces :: "runtime_link_state \<Rightarrow> bool" where
  "joins_interfaces l \<longleftrightarrow> distinct (map (\<lambda>(h, (lid, node, iface), n). (node, iface)) (link_ends l))"

text \<open>The ends that the generated files account for: all but the target end of a link of a device with itself.\<close>

definition served_end :: "runtime_link_state \<Rightarrow> string \<times> end_key \<times> string \<Rightarrow> bool" where
  "served_end l e \<longleftrightarrow> e \<in> set (link_ends l) \<and> (joins_devices l \<or> e = hd (link_ends l))"

lemma mapE_mem: "mapE f xs = Inr ys \<Longrightarrow> y \<in> set ys \<Longrightarrow> \<exists>x \<in> set xs. f x = Inr y"
  by (induction xs arbitrary: ys) (auto simp: bindE_eq_Inr)

lemma mem_map_filter: "x \<in> set xs \<Longrightarrow> f x = Some y \<Longrightarrow> y \<in> set (List.map_filter f xs)"
  by (force simp: map_filter_def)

lemma local_end_listed:
  assumes "same_host_link t plan (i, l) = Inr lk" "served_end lk (host, key, name)"
    and "(i, l) \<in> set (enumerate 0 (sp_local_links plan))"
  shows "key \<in> set (device_ends topo plan host (fst (snd key)))"
proof -
  have "key \<in> set (List.map_filter (\<lambda>(i, l).
       if lk_source l = fst (snd key) then Some (''l'' @ show_nat i, lk_source l, lk_source_iface l)
       else if lk_target l = fst (snd key) then Some (''l'' @ show_nat i, lk_target l, lk_target_iface l) else None)
       (enumerate 0 (sp_local_links plan)))"
    using assms(1,2) by (intro mem_map_filter [OF assms(3)])
      (cases key; auto simp: same_host_link_def Let_def bindE_eq_Inr served_end_def link_ends_def joins_devices_def base_link_def)
  then show ?thesis by (simp add: device_ends_def)
qed

lemma cross_end_listed:
  assumes "cross_host_runtime_link t (i, l) = Inr lk" "served_end lk (host, key, name)" "host \<noteq> []"
    and "(i, l) \<in> set (enumerate 0 (sp_cross_host_links plan))"
  shows "key \<in> set (device_ends topo plan host (fst (snd key)))"
proof -
  have "key \<in> set (List.map_filter (\<lambda>(i, l).
       if ch_source_node l = fst (snd key) \<and> ch_source_host l = Some host
       then Some (''vx'' @ show_nat i, ch_source_node l, ch_source_iface l)
       else if ch_target_node l = fst (snd key) \<and> ch_target_host l = Some host
       then Some (''vx'' @ show_nat i, ch_target_node l, ch_target_iface l) else None)
       (enumerate 0 (sp_cross_host_links plan)))"
    using assms(1-3) by (intro mem_map_filter [OF assms(4)])
      (cases key; auto simp: cross_host_runtime_link_def Let_def bindE_eq_Inr served_end_def link_ends_def joins_devices_def base_link_def
         split: option.splits)
  then show ?thesis by (simp add: device_ends_def)
qed

lemma realnet_end_listed:
  assumes "real_net_runtime_link t (i, l) = Inr lk" "(host, key, name) \<in> set (link_ends lk)"
    and "(i, l) \<in> set (enumerate 0 (tp_real_net_links topo))"
  shows "key \<in> set (device_ends topo plan host (fst (snd key)))"
proof -
  have "key \<in> set (List.map_filter (\<lambda>(i, l).
       if rl_node l = fst (snd key) \<and> rl_host l = host then Some (''rn'' @ show_nat i, rl_node l, rl_iface l) else None)
       (enumerate 0 (tp_real_net_links topo)))"
    using assms(1,2) by (intro mem_map_filter [OF assms(3)])
      (auto simp: real_net_runtime_link_def Let_def bindE_eq_Inr link_ends_def base_link_def)
  then show ?thesis by (simp add: device_ends_def)
qed

lemma end_listed:
  assumes "build_runtime_links (topology.truncate topo) plan = Inr links" "lk \<in> set links"
    "served_end lk (host, key, name)" "host \<noteq> []"
  shows "key \<in> set (device_ends topo plan host (fst (snd key)))"
proof -
  obtain ls vs rs where p: "mapE (same_host_link (topology.truncate topo) plan) (enumerate 0 (sp_local_links plan)) = Inr ls"
    "mapE (cross_host_runtime_link (topology.truncate topo)) (enumerate 0 (sp_cross_host_links plan)) = Inr vs"
    "mapE (real_net_runtime_link (topology.truncate topo)) (enumerate 0 (tp_real_net_links topo)) = Inr rs" "links = ls @ vs @ rs"
    using assms(1) by (auto simp: build_runtime_links_def bindE_eq_Inr topology.truncate_def)
  from assms(2) consider "lk \<in> set ls" | "lk \<in> set vs" | "lk \<in> set rs" unfolding p(4) by auto
  then show ?thesis
  proof cases
    case 1
    obtain i l where "(i, l) \<in> set (enumerate 0 (sp_local_links plan))" "same_host_link (topology.truncate topo) plan (i, l) = Inr lk"
      using mapE_mem [OF p(1) 1] by (metis surj_pair)
    then show ?thesis using local_end_listed assms(3) by blast
  next
    case 2
    obtain i l where "(i, l) \<in> set (enumerate 0 (sp_cross_host_links plan))" "cross_host_runtime_link (topology.truncate topo) (i, l) = Inr lk"
      using mapE_mem [OF p(2) 2] by (metis surj_pair)
    then show ?thesis using cross_end_listed assms(3,4) by blast
  next
    case 3
    obtain i l where "(i, l) \<in> set (enumerate 0 (tp_real_net_links topo))" "real_net_runtime_link (topology.truncate topo) (i, l) = Inr lk"
      using mapE_mem [OF p(3) 3] by (metis surj_pair)
    then show ?thesis using realnet_end_listed assms(3) unfolding served_end_def by blast
  qed
qed

text \<open>Ends at different interfaces, of links with different identifiers, have different keys.\<close>

lemma end_keys_distinct:
  assumes "distinct (map lst_id links)" "\<forall>l \<in> set links. joins_interfaces l"
  shows "distinct (map (\<lambda>e. fst (snd e)) (concat (map link_ends links)))"
  using assms
proof (induction links)
  case (Cons l links)
  have ids: "fst (fst (snd e)) = lst_id l'" if "e \<in> set (link_ends l')" for e l' using that by (auto simp: link_ends_def split: if_splits)
  have "distinct (map (\<lambda>e. fst (snd e)) (link_ends l))"
    using Cons.prems(2) by (auto simp: joins_interfaces_def link_ends_def)
  moreover have "fst (snd e) \<noteq> fst (snd e')" if e: "e \<in> set (link_ends l)" "e' \<in> set (link_ends l')" "l' \<in> set links" for e e' l'
  proof -
    have "lst_id l \<noteq> lst_id l'" using Cons.prems(1) e(3) by force
    then show ?thesis using ids [OF e(1)] ids [OF e(2)] by metis
  qed
  ultimately show ?case using Cons by (fastforce simp: image_iff)
qed simp

text \<open>The links of a generated document.\<close>

definition clab_links :: "yvalue \<Rightarrow> yvalue list" where
  "clab_links doc =
     (case doc of
        VDict d \<Rightarrow>
          (case get_or_none d ''topology'' of
             VDict t \<Rightarrow> (case get_or_none t ''links'' of VList ls \<Rightarrow> ls | _ \<Rightarrow> [])
           | _ \<Rightarrow> [])
      | _ \<Rightarrow> [])"

lemma clab_links_micro:
  "build_micro_clab_dict st topo plan host vd names webui = Inr doc \<Longrightarrow>
     \<exists>links. micro_links topo plan host vd names = Inr links \<and> clab_links doc = map (\<lambda>(a, b). ep_link a b) links"
  by (auto simp: build_micro_clab_dict_def bindE_eq_Inr clab_links_def topology_section_def get_or_none_def dict_get_or_def)

lemma device_link_made:
  assumes "device_links names vd keys = Inr links" "k \<in> set keys" "dict_get names k = Some n"
  shows "host_end vd (snd (snd k)) n \<in> set links"
  using assms by (induction keys arbitrary: links) (auto simp: device_links_def bindE_eq_Inr split: option.splits)

lemma mapE_keyed:
  assumes "\<And>x y. f x = Inr y \<Longrightarrow> fst y = fst x"
  shows "mapE f xs = Inr ys \<Longrightarrow> dict_get xs k = Some a \<Longrightarrow> \<exists>b. f (k, a) = Inr (k, b) \<and> dict_get ys k = Some b"
proof (induction xs arbitrary: ys)
  case (Cons x xs)
  obtain y ys' where y: "f x = Inr y" "mapE f xs = Inr ys'" "ys = y # ys'" using Cons.prems(1) by (auto simp: bindE_eq_Inr)
  show ?case
  proof (cases "fst x = k")
    case True
    then have "x = (k, a)" "fst y = k" using Cons.prems(2) assms [OF y(1)] by (cases x; simp)+
    then show ?thesis using y by (intro exI [of _ "snd y"]) (cases y; simp)
  next
    case False
    then show ?thesis using Cons.IH [OF y(2)] Cons.prems(2) y(3) assms [OF y(1)] by (cases x; cases y) auto
  qed
qed simp

lemma mapE_dumped:
  assumes "mapE (\<lambda>vd. bindE (g vd) (\<lambda>d. Inr (vd, dump d))) vds = Inr fs" "vd \<in> set vds"
  shows "\<exists>d. g vd = Inr d \<and> dict_get (dict_of fs) vd = Some (dump d)"
proof -
  let ?P = "\<lambda>vd t. \<exists>d. g vd = Inr d \<and> t = dump d"
  have "(\<forall>(v, t) \<in> set fs. ?P v t) \<and> map fst fs = vds"
    using assms(1) by (induction vds arbitrary: fs) (auto simp: bindE_eq_Inr)
  then have P: "\<And>v t. (v, t) \<in> set fs \<Longrightarrow> ?P v t" "vd \<in> fst ` set fs" using assms(2) by (auto simp flip: list.set_map)
  then obtain t where t: "map_of (rev fs) vd = Some t" by (metis list.set_map map_of_eq_None_iff option.exhaust set_rev)
  then have "(vd, t) \<in> set fs" using map_of_SomeD by fastforce
  then show ?thesis using P(1) t by (fastforce simp: dict_get_dict_of)
qed

lemma micro_file:
  assumes "generate_micro_topology_files st dump topo plan webui = Inr files" "micro_host_endpoints topo plan = Inr names"
    "dict_get (sp_assignments plan) host = Some a" "vd \<in> set (ha_vd_names a)"
  shows "\<exists>fs doc. dict_get files host = Some fs \<and> dict_get fs vd = Some (dump doc)
     \<and> build_micro_clab_dict st topo plan host vd names webui = Inr doc"
proof -
  let ?f = "\<lambda>(host, a). bindE (mapE (\<lambda>vd. bindE (build_micro_clab_dict st topo plan host vd names webui) (\<lambda>d. Inr (vd, dump d)))
           (ha_vd_names a)) (\<lambda>files. Inr (host, dict_of files))"
  have m: "mapE ?f (filter (\<lambda>(host, a). ha_vd_names a \<noteq> []) (sp_assignments plan)) = Inr files"
    using assms(1,2) by (simp add: generate_micro_topology_files_def)
  have "dict_get (filter (\<lambda>(host, a). ha_vd_names a \<noteq> []) asg) host = Some a"
    if "dict_get asg host = Some a" for asg :: "(string, host_assignment) dict"
    using that assms(4) by (induction asg) (auto split: if_splits)
  then have "dict_get (filter (\<lambda>(host, a). ha_vd_names a \<noteq> []) (sp_assignments plan)) host = Some a" using assms(3) by blast
  moreover have "fst y = fst x" if "?f x = Inr y" for x y using that by (cases x) (auto simp: bindE_eq_Inr)
  ultimately obtain fs' where "?f (host, a) = Inr (host, fs')" "dict_get files host = Some fs'"
    using mapE_keyed [OF _ m] by blast
  then obtain fs where "mapE (\<lambda>vd. bindE (build_micro_clab_dict st topo plan host vd names webui) (\<lambda>d. Inr (vd, dump d))) (ha_vd_names a) = Inr fs"
    "dict_get files host = Some (dict_of fs)" by (auto simp: bindE_eq_Inr)
  then show ?thesis using mapE_dumped [OF _ assms(4)] by fast
qed

section \<open>Properties\<close>

text \<open>
  C9: the generated files provide the interfaces that the runtime links join. When no two link ends on
  a host have the same name and no link joins an interface with itself, then for every end of every
  runtime link, other than the target end of a link of a device with itself, the file of its device on
  its host connects the device's interface to exactly the host interface that the runtime link names.
  The exception is what the code does: lemma \<open>self_link_loses_end\<close> shows that such an end is not
  among those of the device.
\<close>

theorem micro_files_serve_links:
  assumes "build_runtime_links (topology.truncate topo) plan = Inr links"
    and "generate_micro_topology_files st dump topo plan webui = Inr files"
    and "dict_ok (sp_assignments plan)"
    and "\<forall>l \<in> set links. joins_interfaces l"
    and "\<forall>h. distinct (map (\<lambda>e. snd (snd e)) (filter (\<lambda>e. fst e = h) (concat (map link_ends links))))"
    and "l \<in> set links" "served_end l (host, (lid, vd, iface), name)"
    and "host \<noteq> []" "dict_get (sp_assignments plan) host = Some a" "vd \<in> set (ha_vd_names a)"
  shows "\<exists>fs doc. dict_get files host = Some fs \<and> dict_get fs vd = Some (dump doc)
     \<and> ep_link (vd @ '':'' @ iface) (''host:'' @ name) \<in> set (clab_links doc)"
proof -
  obtain ends where ends: "named_ends topo plan = Inr ends" "map plain_host ends = concat (map link_ends links)"
    using named_ends_agree [OF assms(1)] by blast
  have parts: "fst (snd (plain_host e)) = fst (snd e)" "snd (snd (plain_host e)) = snd (snd e)"
    "fst (plain_host e) = (case fst e of None \<Rightarrow> [] | Some h \<Rightarrow> h)" for e by (simp_all add: plain_host_def split_beta)
  have "distinct (map (\<lambda>e. fst (snd e)) (map plain_host ends))"
    unfolding ends(2) by (rule end_keys_distinct [OF built_ids_distinct [OF assms(1)] assms(4)])
  then have keys: "distinct (map (\<lambda>e. fst (snd e)) ends)" by (simp add: comp_def parts)
  have "distinct (map (\<lambda>e. snd (snd e)) (filter (\<lambda>e. fst e = h) (map plain_host ends)))" for h
    unfolding ends(2) using assms(5) by blast
  then have "distinct (map (\<lambda>e. snd (snd e)) (filter (\<lambda>e. (case fst e of None \<Rightarrow> [] | Some h \<Rightarrow> h) = h) ends))" for h
    by (simp add: filter_map comp_def parts)
  then have "distinct (map (\<lambda>e. snd (snd e)) (filter (\<lambda>e. fst e = h) (filter (\<lambda>e. (case fst e of None \<Rightarrow> [] | Some h \<Rightarrow> h) = (case h of None \<Rightarrow> [] | Some h \<Rightarrow> h)) ends)))" for h
    using distinct_map_filter by blast
  moreover have "(\<lambda>e. (case fst e of None \<Rightarrow> [] | Some h \<Rightarrow> h) = (case h of None \<Rightarrow> [] | Some h \<Rightarrow> h) \<and> fst e = h) = (\<lambda>e :: named_end. fst e = h)" for h
    by auto
  ultimately have names_ok: "distinct (map (\<lambda>e. snd (snd e)) (filter (\<lambda>e. fst e = h) ends))" for h by (simp add: filter_filter conj_commute)
  obtain names where names: "micro_host_endpoints topo plan = Inr names" "\<And>e. e \<in> set ends \<Longrightarrow> dict_get names (fst (snd e)) = Some (snd (snd e))"
    using endpoints_kept [OF ends(1) assms(3) keys names_ok] by blast
  have "(host, (lid, vd, iface), name) \<in> set (map plain_host ends)" unfolding ends(2) using assms(6,7) by (auto simp: served_end_def)
  then have name: "dict_get names (lid, vd, iface) = Some name" using names(2) by (force simp: plain_host_def)
  obtain fs doc where doc: "dict_get files host = Some fs" "dict_get fs vd = Some (dump doc)"
    "build_micro_clab_dict st topo plan host vd names webui = Inr doc"
    using micro_file [OF assms(2) names(1) assms(9,10)] by blast
  obtain ls where ls: "micro_links topo plan host vd names = Inr ls" "clab_links doc = map (\<lambda>(a, b). ep_link a b) ls"
    using clab_links_micro [OF doc(3)] by blast
  then obtain ds where ds: "device_links names vd (device_ends topo plan host vd) = Inr ds" "set ds \<subseteq> set ls"
    by (auto simp: micro_links_def bindE_eq_Inr)
  have "(lid, vd, iface) \<in> set (device_ends topo plan host vd)"
    using end_listed [OF assms(1,6,7,8)] by simp
  then have "host_end vd iface name \<in> set ls" using device_link_made [OF ds(1) _ name] ds(2) by auto
  then show ?thesis using doc(1,2) ls(2) by (force simp: host_end_def)
qed

text \<open>The endpoints of a device that are read back are the interfaces its links join.\<close>

lemma split_endpoint_colon: "CHR '':'' \<notin> set vd \<Longrightarrow> split_endpoint (vd @ '':'' @ iface) = (vd, iface)"
  by (auto simp: split_endpoint_def str_split1_def takeWhile_append dropWhile_append)

lemma attached_iface:
  assumes "CHR '':'' \<notin> set vd" "vd \<noteq> ''host''" "\<And>a b. (a, b) \<in> set links \<Longrightarrow> \<exists>i n. (a, b) = host_end vd i n"
    and "iface \<in> attached vd links"
  shows "\<exists>n. host_end vd iface n \<in> set links"
proof -
  obtain a b e where e: "(a, b) \<in> set links" "e \<in> {a, b}" "startswith e (vd @ '':'')" "iface = snd (split_endpoint e)"
    using assms(4) by (auto simp: attached_def)
  obtain i n where ab: "(a, b) = host_end vd i n" using assms(3) e(1) by blast
  have "\<not> startswith (''host:'' @ n) (vd @ '':'')"
  proof
    assume "startswith (''host:'' @ n) (vd @ '':'')"
    then obtain r where "''host'' @ '':'' @ n = vd @ '':'' @ r" by (auto simp: startswith_iff)
    then have "split_endpoint (''host'' @ '':'' @ n) = split_endpoint (vd @ '':'' @ r)" by metis
    then show False using split_endpoint_colon [OF assms(1)] split_endpoint_colon [of "''host''" n] assms(2) by simp
  qed
  then have "e = vd @ '':'' @ i" using e(2,3) ab by (auto simp: host_end_def)
  then have "iface = i" using e(4) split_endpoint_colon [OF assms(1)] by simp
  then show ?thesis using e(1) ab by auto
qed

lemma device_links_ends:
  "device_links names vd keys = Inr links \<Longrightarrow> (a, b) \<in> set links \<Longrightarrow> \<exists>i n. (a, b) = host_end vd i n"
  by (induction keys arbitrary: links) (auto simp: device_links_def bindE_eq_Inr split: option.splits, metis)

text \<open>
  C14: a device with warm ports gets all of them. The file of the device connects every interface from
  \<open>eth1\<close> up to its capacity to the host, whether a link uses it or not; and it fails rather than give
  fewer.
\<close>

theorem warm_ports_complete:
  assumes "build_micro_clab_dict st topo plan host vd names webui = Inr doc"
    and "CHR '':'' \<notin> set vd" "vd \<noteq> ''host''"
    and "capacity_for_node (topology.truncate topo) vd = Inr capacity" "1 \<le> i" "int i \<le> capacity"
  shows "\<exists>n. ep_link (vd @ '':eth'' @ show_nat i) (''host:'' @ n) \<in> set (clab_links doc)"
proof -
  let ?iface = "''eth'' @ show_nat i"
  obtain links where links: "micro_links topo plan host vd names = Inr links" "clab_links doc = map (\<lambda>(a, b). ep_link a b) links"
    using clab_links_micro [OF assms(1)] by blast
  then obtain ds where ds: "device_links names vd (device_ends topo plan host vd) = Inr ds"
    "links = ds @ warm_links_of topo vd capacity ds"
    using assms(4) by (auto simp: micro_links_def bindE_eq_Inr)
  have "\<exists>n. host_end vd ?iface n \<in> set links"
  proof (cases "?iface \<in> attached vd ds")
    case True
    then show ?thesis using attached_iface [OF assms(2,3) device_links_ends [OF ds(1)]] ds(2) by fastforce
  next
    case False
    have "i \<in> set [1..<nat capacity + 1]" using assms(5,6) by auto
    then have "host_end vd ?iface (runtime_port_endpoint (tp_name topo) vd ?iface) \<in> set (warm_links_of topo vd capacity ds)"
      unfolding warm_links_of_def by (rule mem_map_filter) (use False in \<open>simp add: Let_def\<close>)
    then show ?thesis using ds(2) by auto
  qed
  then show ?thesis using links(2) by (force simp: host_end_def)
qed

text \<open>Of a link that joins a device with itself only the source end is connected.\<close>

lemma enumerate_index: "(i, l) \<in> set (enumerate 0 xs) \<Longrightarrow> i < length xs \<and> l = xs ! i"
  by (auto simp: in_set_enumerate_eq)

lemma self_link_loses_end:
  assumes "i < length (sp_local_links plan)" "sp_local_links plan ! i = l" "lk_source l = vd" "lk_target l = vd"
    "lk_source_iface l \<noteq> lk_target_iface l"
  shows "(''l'' @ show_nat i, vd, lk_target_iface l) \<notin> set (device_ends topo plan host vd)"
  using assms by (auto simp: device_ends_def map_filter_def dest!: enumerate_index split: if_splits)

section \<open>Files of a device stay in its directory\<close>

definition confined_part :: "string \<Rightarrow> bool" where
  "confined_part p \<longleftrightarrow> p \<noteq> [] \<and> p \<notin> {''.'', ''..''} \<and> list_all is_part_char p"

lemma underscore_runs_chars: "list_all is_part_char (underscore_runs s)"
  by (induction s rule: underscore_runs.induct) (auto simp: is_part_char_def)

lemma safe_path_part_confined: "safe_path_part v \<noteq> [] \<Longrightarrow> confined_part (safe_path_part v)"
proof -
  assume ne: "safe_path_part v \<noteq> []"
  have "set (safe_path_part v) \<subseteq> set (underscore_runs v)" unfolding safe_path_part_def by (rule set_strip_by)
  then have "list_all is_part_char (safe_path_part v)" using underscore_runs_chars [of v] by (auto simp: list_all_iff)
  moreover have "safe_path_part v \<noteq> ''.''" "safe_path_part v \<noteq> ''..''"
    using strip_by_hd [of "\<lambda>c. c \<in> {CHR ''.'', CHR ''_''}" "underscore_runs v"] ne unfolding safe_path_part_def by auto
  ultimately show ?thesis using ne by (simp add: confined_part_def)
qed

text \<open>
  C13: the files that features of a device ask for are inside the persistent directory of the device.
  Whatever path a feature names, the path that is written is that directory followed by ordinary
  components: not empty, not a dot or two dots, of letters, digits, \<open>_\<close>, \<open>.\<close> and \<open>-\<close> only.
\<close>

theorem feature_files_confined:
  assumes "render_node_feature_files st topo vd = Inr files" "path \<in> set (dict_keys files)"
  shows "\<exists>node parts. dict_get (tp_nodes topo) vd = Some node \<and> parts \<noteq> [] \<and> list_all confined_part parts
     \<and> path = persist_dir_for_node (st_persist_root st) (tp_name topo) vd (nd_persist_id node)
         (pc_root (lt_persistence topo)) @ ''/'' @ str_join ''/'' parts"
proof -
  let ?fs = "List.map_filter feature_file (dict_values (dict_get_or (lt_node_features topo) vd []))"
  have "?fs \<noteq> []" using assms by (auto simp: render_node_feature_files_def)
  then obtain node where node: "dict_get (tp_nodes topo) vd = Some node"
    "files = dict_of (map (\<lambda>(rel_path, text).
      (persist_dir_for_node (st_persist_root st) (tp_name topo) vd (nd_persist_id node) (pc_root (lt_persistence topo)) @ ''/'' @ rel_path, text)) ?fs)"
    using assms(1) by (auto simp: render_node_feature_files_def Let_def split: option.splits)
  have keys: "set (dict_keys (dict_of kvs)) \<subseteq> fst ` set kvs" for kvs :: "(string \<times> string) list"
  proof
    fix k assume "k \<in> set (dict_keys (dict_of kvs))"
    then have "map_of (rev kvs) k \<noteq> None" unfolding dict_get_dict_of [symmetric] by (simp add: map_of_eq_None_iff)
    then show "k \<in> fst ` set kvs" by (simp add: map_of_eq_None_iff)
  qed
  then have "path \<in> (\<lambda>kv. persist_dir_for_node (st_persist_root st) (tp_name topo) vd (nd_persist_id node)
      (pc_root (lt_persistence topo)) @ ''/'' @ fst kv) ` set ?fs"
    using subsetD [OF keys assms(2) [unfolded node(2)]] by (simp add: image_image split_beta)
  then obtain kv where rt: "kv \<in> set ?fs"
    "path = persist_dir_for_node (st_persist_root st) (tp_name topo) vd (nd_persist_id node) (pc_root (lt_persistence topo)) @ ''/'' @ fst kv"
    by blast
  then obtain payload where "feature_file payload = Some kv" by (auto simp: map_filter_def)
  then obtain v where v: "fst kv = safe_rel_path v" "fst kv \<noteq> []"
    by (auto simp: feature_file_def Let_def split: yvalue.splits prod.splits if_splits)
  let ?ps = "filter (\<lambda>p. p \<noteq> []) (map safe_path_part (filter (\<lambda>p. p \<notin> {[], ''.'', ''..''}) (str_split (CHR ''/'') (py_str (v_or v (VStr []))))))"
  have "list_all confined_part ?ps" using safe_path_part_confined by (auto simp: list_all_iff)
  moreover have "?ps \<noteq> []" using v unfolding safe_rel_path_def by force
  ultimately show ?thesis using node(1) rt(2) v(1) unfolding safe_rel_path_def by blast
qed

section \<open>Witnesses\<close>

definition demo_gen_site :: gen_site where
  "demo_gen_site = \<lparr>st_getenv = (\<lambda>_. None), st_expanduser = (\<lambda>p. p), st_persist_root = ''/p'', st_hosts_file = ''/h'', gs_tmp_dir = ''/tmp''\<rparr>"

definition demo_pair :: lab_topology where
  "demo_pair = demo_lab [(''r1'', demo_vd ''r1'' []), (''r2'', demo_vd ''r2'' [])]"

definition demo_pair_plan :: schedule_plan where
  "demo_pair_plan =
     \<lparr>sp_lab_name = ''lab'',
      sp_assignments = [(''w1'', \<lparr>ha_host_name = ''w1'', ha_host_ip = ''10.0.0.1'', ha_vd_names = [''r1''], ha_cpu_used = 1, ha_ram_mb_used = 1\<rparr>),
                        (''w2'', \<lparr>ha_host_name = ''w2'', ha_host_ip = ''10.0.0.2'', ha_vd_names = [''r2''], ha_cpu_used = 1, ha_ram_mb_used = 1\<rparr>)],
      sp_cross_host_links = [\<lparr>ch_vxlan_id = 7, ch_source_node = ''r1'', ch_source_iface = ''eth1'', ch_target_node = ''r2'',
         ch_target_iface = ''eth2'', ch_source_host = Some ''w1'', ch_target_host = Some ''w2'', ch_source_host_iface = ''vx1'',
         ch_target_host_iface = ''vx2''\<rparr>],
      sp_local_links = [], sp_vrf_table_id = 0, sp_mgmt_vxlan_id = 0\<rparr>"

lemma demo_pair_built:
  "case build_runtime_links (topology.truncate demo_pair) demo_pair_plan of Inl _ \<Rightarrow> False
   | Inr links \<Rightarrow> concat (map link_ends links) = [(''w1'', (''vx0'', ''r1'', ''eth1''), ''vx1''), (''w2'', (''vx0'', ''r2'', ''eth2''), ''vx2'')]
      \<and> list_all joins_devices links \<and> list_all joins_interfaces links \<and> map link_ends links = [concat (map link_ends links)]"
  by code_simp

lemma demo_pair_generated:
  "case generate_micro_topology_files demo_gen_site (\<lambda>_. ''yaml'') demo_pair demo_pair_plan [] of Inl _ \<Rightarrow> False | Inr _ \<Rightarrow> True"
  by code_simp

theorem micro_files_serve_links_witness:
  "\<exists>files fs doc. generate_micro_topology_files demo_gen_site (\<lambda>_. ''yaml'') demo_pair demo_pair_plan [] = Inr files
     \<and> dict_get files ''w2'' = Some fs \<and> dict_get fs ''r2'' = Some ''yaml'' \<and> ep_link ''r2:eth2'' ''host:vx2'' \<in> set (clab_links doc)"
proof -
  obtain links where links: "build_runtime_links (topology.truncate demo_pair) demo_pair_plan = Inr links"
    "concat (map link_ends links) = [(''w1'', (''vx0'', ''r1'', ''eth1''), ''vx1''), (''w2'', (''vx0'', ''r2'', ''eth2''), ''vx2'')]"
    "list_all joins_devices links" "list_all joins_interfaces links"
    using demo_pair_built by (auto split: sum.splits)
  obtain files where files: "generate_micro_topology_files demo_gen_site (\<lambda>_. ''yaml'') demo_pair demo_pair_plan [] = Inr files"
    using demo_pair_generated by (auto split: sum.splits)
  have "(''w2'', (''vx0'', ''r2'', ''eth2''), ''vx2'') \<in> set (concat (map link_ends links))" by (simp add: links(2))
  then obtain l where l: "l \<in> set links" "(''w2'', (''vx0'', ''r2'', ''eth2''), ''vx2'') \<in> set (link_ends l)" by auto
  have e: "served_end l (''w2'', (''vx0'', ''r2'', ''eth2''), ''vx2'')" using l links(3) by (simp add: served_end_def list_all_iff)
  show ?thesis
    using micro_files_serve_links [OF links(1) files _ _ _ l(1) e] links(2,4) files
    by (simp add: demo_pair_plan_def list_all_iff)
qed

lemma demo_warm_capacity:
  "capacity_for_node (topology.truncate (demo_lab [(''r1'', warm_node ''20'')])) ''r1'' = Inr 20"
proof -
  have "dict_get (tp_nodes (topology.truncate (demo_lab [(''r1'', warm_node ''20'')]))) ''r1'' = Some (warm_node ''20'')"
    by (simp add: demo_lab_def topology.truncate_def)
  moreover have "requested_ports (warm_node ''20'') = Some 20"
    by (simp add: requested_ports_def warm_node_def dict_get_or_def py_int_def str_strip_def strip_by_def is_space_def
        is_digit_def read_digits_def)
  moreover have "highest_used_port (topology.truncate (demo_lab [(''r1'', warm_node ''20'')])) ''r1'' = 0"
    by (simp add: highest_used_port_def used_ports_def demo_lab_def topology.truncate_def)
  ultimately show ?thesis
    using warm_node_profile [of "''20''"] warm_node_enabled [of "''20''"] by (simp add: capacity_for_node_def prof_def)
qed

theorem warm_ports_complete_witness:
  "\<exists>doc n. build_micro_clab_dict demo_gen_site (demo_lab [(''r1'', warm_node ''20'')]) (demo_plan ''r1'') ''w2'' ''r1'' [] [] = Inr doc
     \<and> ep_link ''r1:eth17'' (''host:'' @ n) \<in> set (clab_links doc)"
proof -
  have "needs_persist_bind (nd_image (warm_node ''20'')) = False" unfolding warm_node_def by code_simp
  moreover have "dict_get (tp_nodes (demo_lab [(''r1'', warm_node ''20'')])) ''r1'' = Some (warm_node ''20'')"
    "lt_node_overrides (demo_lab [(''r1'', warm_node ''20'')]) = []" "tp_real_net_links (demo_lab [(''r1'', warm_node ''20'')]) = []"
    "sp_local_links (demo_plan ''r1'') = []" "sp_cross_host_links (demo_plan ''r1'') = []"
    by (simp_all add: demo_lab_def demo_plan_def)
  ultimately have "\<exists>doc. build_micro_clab_dict demo_gen_site (demo_lab [(''r1'', warm_node ''20'')]) (demo_plan ''r1'') ''w2'' ''r1'' [] [] = Inr doc"
    by (simp add: build_micro_clab_dict_def build_node_dict_def micro_links_def demo_warm_capacity asset_bind_def add_ports_def
        persist_bind_def get_or_none_def dict_get_or_def device_links_def device_ends_def map_filter_def)
  then obtain doc where doc: "build_micro_clab_dict demo_gen_site (demo_lab [(''r1'', warm_node ''20'')]) (demo_plan ''r1'') ''w2'' ''r1'' [] [] = Inr doc" by blast
  have "show_nat 17 = ''17''" by code_simp
  with warm_ports_complete [OF doc _ _ demo_warm_capacity, of 17] doc show ?thesis by simp
qed

definition demo_featured :: lab_topology where
  "demo_featured = (demo_lab [(''r1'', demo_vd ''r1'' [])])\<lparr>lt_node_features := [(''r1'', [(''caps'',
     VDict [(''state'', VDict [(''ssh'', VBool True)]),
            (''materialize'', VDict [(''type'', VStr ''persist-key-value-bool-file''), (''path'', VStr ''../conf//caps'')])])])]\<rparr>"

lemma demo_feature_file:
  "render_node_feature_files demo_gen_site demo_featured ''r1'' = Inr [(''/p/lab/r1/conf/caps'', ''ssh=yes'' @ [CHR 0x0A])]"
  by code_simp

theorem feature_files_confined_witness:
  "\<exists>parts. list_all confined_part parts \<and> ''/p/lab/r1/conf/caps'' = ''/p/lab/r1/'' @ str_join ''/'' parts"
proof -
  have "persist_dir_for_node (st_persist_root demo_gen_site) (tp_name demo_featured) ''r1'' [] (pc_root (lt_persistence demo_featured)) = ''/p/lab/r1''"
    by code_simp
  moreover have "dict_get (tp_nodes demo_featured) ''r1'' = Some (demo_vd ''r1'' [])" by (simp add: demo_featured_def demo_lab_def)
  ultimately show ?thesis
    using feature_files_confined [OF demo_feature_file, of "''/p/lab/r1/conf/caps''"] by (auto simp: demo_vd_def)
qed

text \<open>
  When two ends on a host do have the same name, the generated file gives the second another one, and
  the runtime link still asks for the first.
\<close>

definition demo_clash_plan :: schedule_plan where
  "demo_clash_plan = demo_pair_plan\<lparr>sp_cross_host_links :=
     map (\<lambda>(i, j). \<lparr>ch_vxlan_id = 7, ch_source_node = ''r1'', ch_source_iface = i, ch_target_node = ''r2'',
        ch_target_iface = i, ch_source_host = Some ''w1'', ch_target_host = Some ''w2'', ch_source_host_iface = ''vx'',
        ch_target_host_iface = j\<rparr>) [(''eth1'', ''a''), (''eth2'', ''b'')]\<rparr>"

lemma clash_not_served:
  "case (build_runtime_links (topology.truncate demo_pair) demo_clash_plan, micro_host_endpoints demo_pair demo_clash_plan) of
     (Inr links, Inr names) \<Rightarrow>
       (''w1'', (''vx1'', ''r1'', ''eth2''), ''vx'') \<in> set (concat (map link_ends links))
       \<and> dict_get names (''vx1'', ''r1'', ''eth2'') = Some ''vx1''
   | _ \<Rightarrow> False"
  by code_simp

end
