(* ===== verification/LabCleanup.thy ===== *)
theory LabCleanup
  imports Remote
begin

text \<open>
  The cleanup of stale lab artifacts, \<open>services/lab_cleanup.py\<close>: which lab an artifact belongs to,
  the inventory of a host, the plan of what to remove, and its execution. The age of a container
  is a parameter, a function of the creation time that docker prints. Names contain no line
  breaks, so that \<open>$\<close> and \<open>.\<close> of the regular expressions mean the end and any character.
\<close>

section \<open>Data\<close>

datatype metaval = MInt int | MNone | MStr string

record artifact =
  af_kind :: string
  af_name :: string
  af_host :: string
  af_lab :: string
  af_state :: string
  af_age_seconds :: "int option"
  af_shared :: bool
  af_source :: string
  af_metadata :: "(string, metaval) dict"

definition artifact_of :: "string \<Rightarrow> string \<Rightarrow> string \<Rightarrow> string \<Rightarrow> artifact" where
  "artifact_of kind name host lab =
     \<lparr>af_kind = kind, af_name = name, af_host = host, af_lab = lab, af_state = [], af_age_seconds = None,
      af_shared = False, af_source = ''live'', af_metadata = []\<rparr>"

definition state_artifact :: "string \<Rightarrow> string \<Rightarrow> string \<Rightarrow> string \<Rightarrow> artifact" where
  "state_artifact kind name host lab = (artifact_of kind name host lab)\<lparr>af_source := ''state''\<rparr>"

record host_inventory =
  hi_name :: string
  hi_host :: string
  hi_reachable :: bool
  hi_error :: string
  hi_artifacts :: "artifact list"

record cleanup_action =
  ca_action :: string
  ca_artifact :: artifact
  ca_command :: string
  ca_reason :: string
  ca_executed :: bool
  ca_ok :: bool
  ca_error :: string

record lab_cleanup_plan =
  lp_lab :: string
  lp_protected :: bool
  lp_reasons :: "string list"
  lp_warnings :: "string list"
  lp_actions :: "cleanup_action list"

definition shared_networks :: "string set" where
  "shared_networks = {''dnlab-jumphost'', ''dnlab-realnet''}"

definition cleanable_container_states :: "string set" where
  "cleanable_container_states = {''created'', ''exited'', ''dead'', ''removing''}"

section \<open>The lab of an artifact\<close>

text \<open>
  A pattern with a lazy group: the shortest non-empty front of the text whose remainder matches.
\<close>

definition lazy_lab :: "(string \<Rightarrow> bool) \<Rightarrow> string \<Rightarrow> string option" where
  "lazy_lab ok body = map_option (\<lambda>i. take i body) (find (\<lambda>i. ok (drop i body)) [1..<length body + 1])"

definition after_prefix :: "string \<Rightarrow> (string \<Rightarrow> string option) \<Rightarrow> string \<Rightarrow> string option" where
  "after_prefix p f name = (if startswith name p then f (drop (length p) name) else None)"

definition anchor_tail :: "string \<Rightarrow> bool" where
  "anchor_tail s \<longleftrightarrow> startswith s ''-mgmt-'' \<and> endswith s ''-mgmt-anchor'' \<and> length ''-mgmt-'' + length ''-mgmt-anchor'' < length s"

definition mgmt_anchor_re :: "string \<Rightarrow> string option" where
  "mgmt_anchor_re = after_prefix ''clab-dnlab-'' (lazy_lab anchor_tail)"

definition service_tail :: "string \<Rightarrow> bool" where
  "service_tail s \<longleftrightarrow> s \<in> {''-dns'', ''-jumphost'', ''-runtime-relay'', ''-syslog'', ''-log-shipper''}"

definition service_container_re :: "string \<Rightarrow> string option" where
  "service_container_re = after_prefix ''dnlab-'' (lazy_lab service_tail)"

definition dashless :: "string \<Rightarrow> bool" where
  "dashless s \<longleftrightarrow> s \<noteq> [] \<and> CHR ''-'' \<notin> set s"

definition realnet_tail :: "string \<Rightarrow> bool" where
  "realnet_tail s \<longleftrightarrow> startswith s ''-'' \<and> endswith (drop 1 s) ''-realnet'' \<and> dashless (removesuffix (drop 1 s) ''-realnet'')"

definition realnet_container_re :: "string \<Rightarrow> string option" where
  "realnet_container_re = after_prefix ''dnlab-'' (lazy_lab realnet_tail)"

definition legacy_clab_container_re :: "string \<Rightarrow> string option" where
  "legacy_clab_container_re = after_prefix ''clab-'' (lazy_lab (\<lambda>s. startswith s ''-'' \<and> dashless (drop 1 s)))"

definition interface_re :: "string \<Rightarrow> string option" where
  "interface_re name =
     (case filter (startswith name) [''vx-'', ''br-'', ''vrf-''] of
        p # _ \<Rightarrow> (let lab = takeWhile is_safe (drop (length p) name) in if lab = [] then None else Some lab)
      | [] \<Rightarrow> None)"

definition doubled :: "string list \<Rightarrow> bool" where
  "doubled tail \<longleftrightarrow> even (length tail) \<and> take (length tail div 2) tail = drop (length tail div 2) tail"

definition parse_micro_container_lab :: "string \<Rightarrow> string" where
  "parse_micro_container_lab name =
     (let parts = str_split (CHR ''-'') (removeprefix name ''clab-dnlab-'')
      in case find (\<lambda>i. doubled (drop i parts)) [1..<length parts] of
           Some i \<Rightarrow> str_join ''-'' (take i parts)
         | None \<Rightarrow> [])"

definition known_lab_matches :: "string \<Rightarrow> string \<Rightarrow> string \<Rightarrow> bool" where
  "known_lab_matches kind name lab \<longleftrightarrow>
     (kind = ''network'' \<and> name \<in> {lab, ''mgmt-'' @ lab, mgmt_network_name lab})
     \<or> startswith name (''dnlab-'' @ lab @ ''-'') \<or> startswith name (''clab-dnlab-'' @ lab @ ''-'')
     \<or> startswith name (''clab-'' @ lab @ ''-'')"

text \<open>\<open>a or b\<close> on texts that may be missing: the first non-empty one.\<close>

definition parse_by_pattern :: "string \<Rightarrow> string \<Rightarrow> string" where
  "parse_by_pattern kind name =
     (case List.map_filter (\<lambda>re. re name) [mgmt_anchor_re, service_container_re, realnet_container_re, legacy_clab_container_re] of
        lab # _ \<Rightarrow> lab
      | [] \<Rightarrow> if kind = ''interface''
              then (case interface_re name of Some lab \<Rightarrow> removesuffix lab ''-mgmt'' | None \<Rightarrow> [])
              else [])"

definition parse_artifact_lab :: "string \<Rightarrow> string \<Rightarrow> string list \<Rightarrow> string" where
  "parse_artifact_lab kind name known_labs =
     (if name \<in> shared_networks then []
      else (case find (known_lab_matches kind name) (sort_key (\<lambda>lab. - int (length lab)) known_labs) of
              Some lab \<Rightarrow> lab
            | None \<Rightarrow>
                (let lab = (if startswith name ''clab-dnlab-'' then parse_micro_container_lab name else [])
                 in if lab \<noteq> [] then lab else parse_by_pattern kind name)))"

section \<open>What the state file implies\<close>

definition mgmt_artifacts :: "string \<Rightarrow> mgmt_state \<Rightarrow> string \<Rightarrow> artifact list" where
  "mgmt_artifacts lab mgmt host =
     [state_artifact ''interface'' (mst_vxlan_iface mgmt) host lab,
      state_artifact ''interface'' (mst_bridge mgmt) host lab,
      state_artifact ''interface'' (mst_vrf mgmt) host lab,
      state_artifact ''dnsmasq'' (''/var/run/dnsmasq-'' @ lab @ ''.pid'') host lab]"

definition side_artifacts :: "string \<Rightarrow> (string, string) dict \<Rightarrow> artifact list" where
  "side_artifacts lab side =
     (let host = dict_get_or side ''node'' []; iface = dict_get_or side ''iface'' []
      in if host \<noteq> [] \<and> iface \<noteq> [] then [state_artifact ''interface'' (take 15 (''vx-'' @ iface)) host lab] else [])"

definition realnet_artifacts :: "string \<Rightarrow> real_net_state \<Rightarrow> artifact list" where
  "realnet_artifacts lab rn =
     (if rnst_bridge rn \<noteq> []
      then map (\<lambda>host. state_artifact ''interface'' (rnst_bridge rn) host lab)
             (if rnst_hosts rn = [] then [''master''] else rnst_hosts rn)
      else [])
     @ (if rnst_router_container rn \<noteq> [] then [state_artifact ''container'' (rnst_router_container rn) ''master'' lab] else [])"

definition expected_artifacts_from_state :: "deployment_state \<Rightarrow> artifact list" where
  "expected_artifacts_from_state st =
     (let lab = dep_lab_name st
      in List.map_filter (\<lambda>rt. if nst_host rt \<noteq> [] \<and> nst_container rt \<noteq> []
             then Some (state_artifact ''container'' (nst_container rt) (nst_host rt) lab) else None) (dict_values (dep_node_runtime st))
         @ (case dep_dns st of None \<Rightarrow> [] | Some d \<Rightarrow> [state_artifact ''container'' (dst_container d) (dst_node d) lab])
         @ (case dep_jumphost st of None \<Rightarrow> [] | Some j \<Rightarrow> [state_artifact ''container'' (jst_container j) (jst_node j) lab])
         @ map (\<lambda>(host, relay). state_artifact ''container'' (rst_container relay) host lab) (dep_runtime_relays st)
         @ List.map_filter (\<lambda>a. if ast_host a \<noteq> [] \<and> ast_container a \<noteq> []
             then Some ((state_artifact ''container'' (ast_container a) (ast_host a) lab)\<lparr>af_metadata := [(''role'', MStr ''mgmt-anchor'')]\<rparr>)
             else None) (dict_values (dep_mgmt_anchors st))
         @ concat (map (realnet_artifacts lab) (dep_realnets st))
         @ (case dep_mgmt st of None \<Rightarrow> [] | Some m \<Rightarrow> concat (map (mgmt_artifacts lab m) (dict_keys (dep_scheduling st))))
         @ concat (map (\<lambda>l. side_artifacts lab (vst_side_a l) @ side_artifacts lab (vst_side_b l)) (dep_vxlan_dataplane st)))"

section \<open>The inventory of a host\<close>

definition list_containers_cmd :: string where
  "list_containers_cmd = ''docker ps -a --format '' @ sq (''{{.Names}}'' @ [CHR 0x09] @ ''{{.State}}'' @ [CHR 0x09] @ ''{{.CreatedAt}}'')"

definition container_artifact :: "(string \<Rightarrow> int option) \<Rightarrow> string \<Rightarrow> string list \<Rightarrow> string \<Rightarrow> artifact option" where
  "container_artifact age host known_labs line =
     (case str_split (CHR 0x09) line of
        name # cstate # rest \<Rightarrow>
          (let lab = parse_artifact_lab ''container'' name known_labs
           in if lab = [] then None
              else Some ((artifact_of ''container'' name host lab)
                \<lparr>af_state := cstate, af_age_seconds := age (case rest of created # _ \<Rightarrow> created | [] \<Rightarrow> [])\<rparr>))
      | _ \<Rightarrow> None)"

definition list_containers :: "env \<Rightarrow> (string \<Rightarrow> int option) \<Rightarrow> string list \<Rightarrow> string \<Rightarrow> artifact list action" where
  "list_containers env age known_labs host =
     bindA (run_no_check env host list_containers_cmd) (\<lambda>(rc, out, err).
       retA (if rc \<noteq> 0 then [] else List.map_filter (container_artifact age host known_labs) (str_splitlines out)))"

definition network_container_count :: "env \<Rightarrow> string \<Rightarrow> string \<Rightarrow> metaval action" where
  "network_container_count env host name =
     bindA (run_no_check env host (''docker network inspect -f '' @ sq ''{{len .Containers}}'' @ '' '' @ name)) (\<lambda>(rc, out, err).
       retA (if rc \<noteq> 0 then MNone else case py_int (str_strip out) of Some n \<Rightarrow> MInt n | None \<Rightarrow> MNone))"

definition network_artifacts :: "env \<Rightarrow> string list \<Rightarrow> string \<Rightarrow> string \<Rightarrow> artifact list action" where
  "network_artifacts env known_labs host raw =
     (let name = str_strip raw; shared = (name \<in> shared_networks); lab = parse_artifact_lab ''network'' name known_labs
      in if name = [] \<or> (lab = [] \<and> \<not> shared) then retA []
         else bindA (network_container_count env host name) (\<lambda>containers.
           retA [(artifact_of ''network'' name host lab)\<lparr>af_shared := shared, af_metadata := [(''containers'', containers)]\<rparr>]))"

definition list_networks :: "env \<Rightarrow> string list \<Rightarrow> string \<Rightarrow> artifact list action" where
  "list_networks env known_labs host =
     bindA (run_no_check env host (''docker network ls --format '' @ sq ''{{.Name}}'')) (\<lambda>(rc, out, err).
       if rc \<noteq> 0 then retA []
       else bindA (mapA (network_artifacts env known_labs host) (str_splitlines out)) (\<lambda>ass. retA (concat ass)))"

definition list_interfaces :: "env \<Rightarrow> string list \<Rightarrow> string \<Rightarrow> artifact list action" where
  "list_interfaces env known_labs host =
     bindA (run_no_check env host (''ip -o link show | awk -F'' @ sq '': '' @ '' '' @ sq ''{print $2}'')) (\<lambda>(rc, out, err).
       retA (if rc \<noteq> 0 then []
             else List.map_filter (\<lambda>raw.
               let name = str_strip (hd (str_split (CHR ''@'') raw)); lab = parse_artifact_lab ''interface'' name known_labs
               in if lab = [] then None else Some (artifact_of ''interface'' name host lab)) (str_splitlines out)))"

text \<open>
  Scanning a host. What was listed before a failure stays in the inventory, which is then marked
  unreachable. A connection that cannot be opened is the error message of \<open>connect\<close>.
\<close>

fun scan_stages :: "artifact list action list \<Rightarrow> host_inventory \<Rightarrow> trace \<Rightarrow> host_inventory \<times> trace" where
  "scan_stages [] hinv tr = (hinv, tr)"
| "scan_stages (m # ms) hinv tr =
     (case m tr of
        (Inl e, tr') \<Rightarrow> (hinv\<lparr>hi_reachable := False, hi_error := exn_str e\<rparr>, tr')
      | (Inr as, tr') \<Rightarrow> scan_stages ms (hinv\<lparr>hi_artifacts := hi_artifacts hinv @ as\<rparr>) tr')"

definition collect_host ::
  "env \<Rightarrow> (string \<Rightarrow> int option) \<Rightarrow> (string \<Rightarrow> string option) \<Rightarrow> string list \<Rightarrow> string \<times> string \<Rightarrow> trace \<Rightarrow> host_inventory \<times> trace" where
  "collect_host env age connect known_labs client tr =
     (case client of (name, addr) \<Rightarrow>
        let hinv = \<lparr>hi_name = name, hi_host = addr, hi_reachable = True, hi_error = [], hi_artifacts = []\<rparr>
        in case connect name of
             Some msg \<Rightarrow> (hinv\<lparr>hi_reachable := False, hi_error := msg\<rparr>, tr)
           | None \<Rightarrow> scan_stages [list_containers env age known_labs name, list_networks env known_labs name,
                                  list_interfaces env known_labs name] hinv tr)"

text \<open>The hosts are scanned in parallel; the list has them in the order in which the scans end.\<close>

fun collect_inventory ::
  "env \<Rightarrow> (string \<Rightarrow> int option) \<Rightarrow> (string \<Rightarrow> string option) \<Rightarrow> string list \<Rightarrow> (string \<times> string) list
     \<Rightarrow> (string, host_inventory) dict \<Rightarrow> trace \<Rightarrow> (string, host_inventory) dict \<times> trace" where
  "collect_inventory env age connect known_labs [] invs tr = (invs, tr)"
| "collect_inventory env age connect known_labs (c # cs) invs tr =
     (case collect_host env age connect known_labs c tr of
        (hinv, tr') \<Rightarrow> collect_inventory env age connect known_labs cs (dict_set (hi_name hinv) hinv invs) tr')"

section \<open>The plan\<close>

definition is_mgmt_anchor_container :: "artifact \<Rightarrow> bool" where
  "is_mgmt_anchor_container a \<longleftrightarrow> af_kind a = ''container''
     \<and> (dict_get (af_metadata a) ''role'' = Some (MStr ''mgmt-anchor'') \<or> mgmt_anchor_re (af_name a) \<noteq> None)"

definition is_service_container :: "artifact \<Rightarrow> bool" where
  "is_service_container a \<longleftrightarrow> af_kind a = ''container'' \<and> service_container_re (af_name a) \<noteq> None"

definition is_per_lab_container :: "artifact \<Rightarrow> bool" where
  "is_per_lab_container a \<longleftrightarrow> af_kind a = ''container'' \<and> af_lab a \<noteq> []"

definition expected_vd_container_names :: "string \<Rightarrow> deployment_state option \<Rightarrow> string set" where
  "expected_vd_container_names lab state =
     (case state of
        None \<Rightarrow> {}
      | Some st \<Rightarrow>
          set (concat (map (\<lambda>rt.
              (if nst_container rt \<noteq> [] then [nst_container rt] else [])
              @ (if nst_node rt \<noteq> [] then [vd_container_name lab (nst_node rt), micro_vd_container_name lab (nst_node rt)] else []))
            (dict_values (dep_node_runtime st))))
          \<union> set (concat (map (\<lambda>sched. concat (map (\<lambda>vd. [vd_container_name lab vd, micro_vd_container_name lab vd]) (hst_vd sched)))
            (dict_values (dep_scheduling st)))))"

definition is_vd_container :: "artifact \<Rightarrow> string \<Rightarrow> deployment_state option \<Rightarrow> string set \<Rightarrow> bool" where
  "is_vd_container a lab state expected_names \<longleftrightarrow>
     af_kind a = ''container'' \<and> \<not> is_mgmt_anchor_container a \<and> \<not> is_service_container a
     \<and> (af_name a \<in> expected_names
        \<or> state = None \<and> (startswith (af_name a) (''clab-'' @ lab @ ''-'') \<or> startswith (af_name a) (''clab-dnlab-'' @ lab @ ''-'')))"

definition lab_has_running_vd :: "string \<Rightarrow> artifact list \<Rightarrow> deployment_state option \<Rightarrow> bool" where
  "lab_has_running_vd lab artifacts state \<longleftrightarrow>
     state \<noteq> None
     \<and> list_ex (\<lambda>a. af_state a = ''running'' \<and> is_vd_container a lab state (expected_vd_container_names lab state)) artifacts"

definition new_action :: "string \<Rightarrow> artifact \<Rightarrow> string \<Rightarrow> string \<Rightarrow> cleanup_action" where
  "new_action action a command reason =
     \<lparr>ca_action = action, ca_artifact = a, ca_command = command, ca_reason = reason, ca_executed = False, ca_ok = False, ca_error = []\<rparr>"

definition rm_container_cmd :: "string \<Rightarrow> string" where
  "rm_container_cmd name = ''docker rm -f '' @ shlex_quote name"

definition rm_network_cmd :: "string \<Rightarrow> string" where
  "rm_network_cmd name = ''docker network rm '' @ shlex_quote name"

definition rm_interface_cmd :: "string \<Rightarrow> string" where
  "rm_interface_cmd name = ''ip link delete '' @ shlex_quote name"

definition rm_dnsmasq_cmd :: "string \<Rightarrow> string" where
  "rm_dnsmasq_cmd name = ''[ -f '' @ shlex_quote name @ '' ] && kill $(cat '' @ shlex_quote name @ '') 2>/dev/null; rm -f '' @ shlex_quote name"

definition action_for_artifact :: "artifact \<Rightarrow> deployment_state option \<Rightarrow> cleanup_action option" where
  "action_for_artifact a state =
     (if af_shared a then None
      else if af_kind a = ''container'' then
        (if af_state a \<noteq> [] \<and> af_state a \<notin> cleanable_container_states \<and> \<not> is_per_lab_container a then None
         else Some (new_action ''remove-container'' a (rm_container_cmd (af_name a)) ''stale dNLab lab container''))
      else if af_kind a = ''network'' then
        (if dict_get (af_metadata a) ''containers'' \<noteq> Some (MInt 0) then None
         else Some (new_action ''remove-network'' a (rm_network_cmd (af_name a)) ''empty per-lab docker network''))
      else if af_kind a = ''interface'' then
        (if state = None \<and> af_source a \<noteq> ''state'' then None
         else Some (new_action ''delete-interface'' a (rm_interface_cmd (af_name a)) ''state-derived stale lab interface''))
      else if af_kind a = ''dnsmasq'' then
        Some (new_action ''stop-dnsmasq'' a (rm_dnsmasq_cmd (af_name a)) ''stale lab dnsmasq pid'')
      else None)"

definition artifact_key :: "artifact \<Rightarrow> string \<times> string \<times> string" where
  "artifact_key a = (af_kind a, af_host a, af_name a)"

definition merge_artifact :: "artifact \<Rightarrow> artifact \<Rightarrow> artifact" where
  "merge_artifact prev a =
     prev\<lparr>af_state := (if af_state a \<noteq> [] then af_state a else af_state prev),
       af_age_seconds := (case af_age_seconds a of None \<Rightarrow> af_age_seconds prev | Some s \<Rightarrow> Some s),
       af_metadata := fold (\<lambda>(k, v). dict_set k v) (af_metadata a) (af_metadata prev),
       af_source := (if af_source a = ''state'' then ''state'' else af_source prev)\<rparr>"

definition dedupe_step :: "artifact \<Rightarrow> (string \<times> string \<times> string, artifact) dict \<Rightarrow> (string \<times> string \<times> string, artifact) dict" where
  "dedupe_step a merged =
     (case dict_get merged (artifact_key a) of
        None \<Rightarrow> dict_set (artifact_key a) a merged
      | Some prev \<Rightarrow> dict_set (artifact_key a) (merge_artifact prev a) merged)"

definition dedupe_artifacts :: "artifact list \<Rightarrow> artifact list" where
  "dedupe_artifacts artifacts = dict_values (fold dedupe_step artifacts [])"

definition by_lab :: "(string, host_inventory) dict \<Rightarrow> (string, deployment_state) dict \<Rightarrow> (string, artifact list) dict" where
  "by_lab inventories states =
     fold (\<lambda>(lab, st) d. dict_set lab (dict_get_or d lab [] @ expected_artifacts_from_state st) d) states
       (fold (\<lambda>a d. if af_lab a \<noteq> [] then dict_append (af_lab a) a d else d)
          (concat (map hi_artifacts (dict_values inventories))) [])"

definition expected_hosts :: "deployment_state option \<Rightarrow> string list" where
  "expected_hosts state =
     (case state of
        None \<Rightarrow> []
      | Some st \<Rightarrow> sort (remdups (dict_keys (dep_scheduling st)
          @ filter (\<lambda>h. h \<noteq> []) (map af_host (expected_artifacts_from_state st)))))"

definition host_unreachable :: "(string, host_inventory) dict \<Rightarrow> string \<Rightarrow> bool" where
  "host_unreachable inventories host =
     (case dict_get inventories host of None \<Rightarrow> True | Some i \<Rightarrow> \<not> hi_reachable i)"

definition protection_reasons ::
  "(string, host_inventory) dict \<Rightarrow> int \<Rightarrow> string \<Rightarrow> artifact list \<Rightarrow> deployment_state option \<Rightarrow> string list" where
  "protection_reasons inventories grace lab artifacts state =
     (if lab_has_running_vd lab artifacts state then [''lab-runtime-running''] else [])
     @ map (\<lambda>host. ''host-unreachable:'' @ host) (filter (host_unreachable inventories) (expected_hosts state))
     @ (if list_ex (\<lambda>a. case af_age_seconds a of Some s \<Rightarrow> s < grace | None \<Rightarrow> False) artifacts
        then [''artifact-inside-grace''] else [])"

definition skip_warning :: "artifact \<Rightarrow> string list" where
  "skip_warning a =
     (if af_shared a then [''shared artifact skipped: '' @ af_name a]
      else if af_kind a = ''network'' then [''network skipped: '' @ af_name a]
      else if af_kind a = ''interface'' \<and> af_source a \<noteq> ''state'' then [''interface skipped without state: '' @ af_name a]
      else [])"

definition plan_lab ::
  "(string, host_inventory) dict \<Rightarrow> int \<Rightarrow> string \<Rightarrow> artifact list \<Rightarrow> deployment_state option \<Rightarrow> lab_cleanup_plan" where
  "plan_lab inventories grace lab found state =
     (let artifacts = dedupe_artifacts found;
          reasons = protection_reasons inventories grace lab artifacts state
      in if reasons \<noteq> [] then \<lparr>lp_lab = lab, lp_protected = True, lp_reasons = reasons, lp_warnings = [], lp_actions = []\<rparr>
         else \<lparr>lp_lab = lab, lp_protected = False, lp_reasons = [],
                lp_warnings = concat (map (\<lambda>a. if action_for_artifact a state = None then skip_warning a else []) artifacts),
                lp_actions = List.map_filter (\<lambda>a. action_for_artifact a state) artifacts\<rparr>)"

definition build_cleanup_plan ::
  "(string, host_inventory) dict \<Rightarrow> (string, deployment_state) dict \<Rightarrow> int \<Rightarrow> (string, lab_cleanup_plan) dict" where
  "build_cleanup_plan inventories states grace =
     map (\<lambda>lab. (lab, plan_lab inventories grace lab (dict_get_or (by_lab inventories states) lab []) (dict_get states lab)))
       (sort (dict_keys (by_lab inventories states)))"

section \<open>Execution\<close>

text \<open>
  An action on a host without an open connection fails; a transport failure during a command
  ends the execution and leaves the remaining actions as they were.
\<close>

definition execute_action ::
  "env \<Rightarrow> string set \<Rightarrow> cleanup_action \<Rightarrow> trace \<Rightarrow> (exn option \<times> cleanup_action) \<times> trace" where
  "execute_action env connected_hosts act tr =
     (if af_host (ca_artifact act) \<notin> connected_hosts
      then ((None, act\<lparr>ca_executed := True, ca_ok := False, ca_error := ''host unavailable''\<rparr>), tr)
      else (case run_no_check env (af_host (ca_artifact act)) (ca_command act) tr of
              (Inl e, tr') \<Rightarrow> ((Some e, act\<lparr>ca_executed := True\<rparr>), tr')
            | (Inr (rc, out, err), tr') \<Rightarrow>
                ((None, act\<lparr>ca_executed := True, ca_ok := (rc = 0), ca_error := (if rc = 0 then [] else str_strip err)\<rparr>), tr')))"

fun execute_actions ::
  "env \<Rightarrow> string set \<Rightarrow> cleanup_action list \<Rightarrow> trace \<Rightarrow> (exn option \<times> cleanup_action list) \<times> trace" where
  "execute_actions env conn [] tr = ((None, []), tr)"
| "execute_actions env conn (a # as) tr =
     (case execute_action env conn a tr of
        ((Some e, a'), tr') \<Rightarrow> ((Some e, a' # as), tr')
      | ((None, a'), tr') \<Rightarrow> (case execute_actions env conn as tr' of ((r, as'), tr'') \<Rightarrow> ((r, a' # as'), tr'')))"

fun execute_plans ::
  "env \<Rightarrow> string set \<Rightarrow> (string, lab_cleanup_plan) dict \<Rightarrow> trace \<Rightarrow> (exn option \<times> (string, lab_cleanup_plan) dict) \<times> trace" where
  "execute_plans env conn [] tr = ((None, []), tr)"
| "execute_plans env conn ((lab, p) # ps) tr =
     (if lp_protected p
      then (case execute_plans env conn ps tr of ((r, ps'), tr') \<Rightarrow> ((r, (lab, p) # ps'), tr'))
      else (case execute_actions env conn (lp_actions p) tr of
              ((Some e, as), tr') \<Rightarrow> ((Some e, (lab, p\<lparr>lp_actions := as\<rparr>) # ps), tr')
            | ((None, as), tr') \<Rightarrow> (case execute_plans env conn ps tr' of
                ((r, ps'), tr'') \<Rightarrow> ((r, (lab, p\<lparr>lp_actions := as\<rparr>) # ps'), tr''))))"

text \<open>One pass: the state files and the answers of the hosts determine what is executed.\<close>

definition reconcile_once ::
  "env \<Rightarrow> (string \<Rightarrow> int option) \<Rightarrow> (string \<Rightarrow> string option) \<Rightarrow> (string \<times> string) list \<Rightarrow> string list \<Rightarrow> (string, deployment_state) dict
     \<Rightarrow> bool \<Rightarrow> int \<Rightarrow> trace \<Rightarrow> (exn option \<times> (string, host_inventory) dict \<times> (string, lab_cleanup_plan) dict) \<times> trace" where
  "reconcile_once env age connect clients known_labs states dry_run grace tr =
     (case collect_inventory env age connect known_labs clients [] tr of (inventories, tr1) \<Rightarrow>
        let plans = build_cleanup_plan inventories states grace
        in if dry_run then ((None, inventories, plans), tr1)
           else (case execute_plans env {h \<in> set (map fst clients). connect h = None} plans tr1 of
                   ((r, plans'), tr2) \<Rightarrow> ((r, inventories, plans'), tr2)))"

section \<open>Attribution of containers\<close>

lemma find_sort_key_min:
  assumes "find P (sort_key f xs) = Some y" "x \<in> set xs" "P x"
  shows "f y \<le> f x"
proof -
  obtain i where i: "i < length (sort_key f xs)" "y = sort_key f xs ! i" "\<forall>j<i. \<not> P (sort_key f xs ! j)"
    using assms(1) by (auto simp: find_Some_iff)
  obtain j where j: "j < length (sort_key f xs)" "x = sort_key f xs ! j"
    using assms(2) by (metis in_set_conv_nth set_sort)
  have "i \<le> j" using i(3) j(2) assms(3) by (meson not_le_imp_less)
  then have "map f (sort_key f xs) ! i \<le> map f (sort_key f xs) ! j"
    using sorted_nth_mono [OF sorted_sort_key [of f xs]] j(1) by simp
  then show ?thesis using i j by simp
qed

text \<open>A lab whose name does not take containers of another lab for its own.\<close>

definition clash_free :: "string \<Rightarrow> string \<Rightarrow> bool" where
  "clash_free lab other \<longleftrightarrow> \<not> startswith other (lab @ ''-'') \<and> other \<noteq> ''dnlab'' \<and> \<not> startswith other ''dnlab-''"

lemma prefix_of_append: "(\<exists>r. p @ s = q @ r) \<Longrightarrow> length p \<le> length q \<Longrightarrow> \<exists>t. q = p @ t"
  by (metis append_eq_append_conv_if append_take_drop_id)

lemma startswith_lab:
  assumes "startswith (lab @ ''-'' @ s) (other @ ''-'')" "length lab \<le> length other"
  shows "other = lab \<or> startswith other (lab @ ''-'')"
proof -
  obtain r where r: "lab @ ''-'' @ s = other @ ''-'' @ r" using assms(1) by (auto simp: startswith_iff)
  then obtain t where t: "other = lab @ t" using prefix_of_append [of lab "''-'' @ s" other] assms(2) by blast
  then have "''-'' @ s = t @ ''-'' @ r" using r by simp
  then show ?thesis using t by (cases t) (auto simp: startswith_iff)
qed

lemma startswith_dnlab:
  assumes "startswith (''dnlab-'' @ s) (other @ ''-'')"
  shows "other = ''dnlab'' \<or> startswith other ''dnlab-''"
proof (cases "length ''dnlab'' \<le> length other")
  case True
  then show ?thesis using startswith_lab [of "''dnlab''" s other] assms by simp
next
  case False
  obtain r where "''dnlab-'' @ s = other @ ''-'' @ r" using assms by (auto simp: startswith_iff)
  then have "(''dnlab-'' @ s) ! length other = CHR ''-''" by (simp add: nth_append)
  moreover have "length other = 0 \<or> length other = 1 \<or> length other = 2 \<or> length other = 3 \<or> length other = 4"
    using False by (simp only: length_Cons list.size) arith
  ultimately show ?thesis by auto
qed

lemma micro_name: "micro_vd_container_name lab vd = ''clab-dnlab-'' @ lab @ ''-'' @ vd @ ''-'' @ vd"
  by (simp add: micro_vd_container_name_def micro_topology_name_def)

lemma startswith_append_iff: "startswith (p @ s) (p @ q) \<longleftrightarrow> startswith s q"
  by (auto simp: startswith_iff)

lemma micro_name_matches:
  assumes "known_lab_matches ''container'' (micro_vd_container_name lab vd) other" "length lab \<le> length other" "clash_free lab other"
  shows "other = lab"
proof -
  let ?s = "vd @ ''-'' @ vd"
  consider "startswith (micro_vd_container_name lab vd) (''dnlab-'' @ other @ ''-'')"
    | "startswith (''clab-dnlab-'' @ lab @ ''-'' @ ?s) (''clab-dnlab-'' @ other @ ''-'')"
    | "startswith (''clab-'' @ (''dnlab-'' @ lab @ ''-'' @ ?s)) (''clab-'' @ (other @ ''-''))"
    using assms(1) by (auto simp: known_lab_matches_def micro_name)
  then show ?thesis
  proof cases
    case 1
    then show ?thesis by (auto simp: micro_name startswith_iff)
  next
    case 2
    then have "startswith (lab @ ''-'' @ ?s) (other @ ''-'')" by (simp only: startswith_append_iff)
    then show ?thesis using startswith_lab [OF _ assms(2)] assms(3) by (auto simp: clash_free_def)
  next
    case 3
    then have "startswith (''dnlab-'' @ lab @ ''-'' @ ?s) (other @ ''-'')" by (simp only: startswith_append_iff)
    then show ?thesis using startswith_dnlab assms(3) by (auto simp: clash_free_def)
  qed
qed

text \<open>
  A container that runs a device of a lab with a state file is attributed to that lab, as long
  as no other lab with a state file has a name that continues the lab's name with a dash or that is
  or starts with \<open>dnlab\<close>; no condition on the device names is needed.
\<close>

theorem micro_container_attribution:
  assumes "lab \<in> set known" "\<forall>other \<in> set known. other \<noteq> lab \<longrightarrow> clash_free lab other"
  shows "parse_artifact_lab ''container'' (micro_vd_container_name lab vd) known = lab"
proof -
  let ?n = "micro_vd_container_name lab vd" and ?f = "\<lambda>l. - int (length l)"
  have m: "known_lab_matches ''container'' ?n lab" by (simp add: known_lab_matches_def micro_name startswith_iff)
  then have "find (known_lab_matches ''container'' ?n) (sort_key ?f known) \<noteq> None"
    unfolding find_None_iff set_sort using assms(1) by blast
  then obtain other where f: "find (known_lab_matches ''container'' ?n) (sort_key ?f known) = Some other" by blast
  then have o: "other \<in> set (sort_key ?f known)" "known_lab_matches ''container'' ?n other"
    unfolding find_Some_iff by (blast intro: nth_mem)+
  have "length lab \<le> length other" using find_sort_key_min [where P = "known_lab_matches ''container'' ?n" and f = ?f, OF f assms(1) m] by simp
  then have "other = lab" using micro_name_matches [OF o(2)] assms(2) o(1) by auto
  moreover have "?n \<notin> shared_networks" by (simp add: micro_name shared_networks_def)
  ultimately show ?thesis using f by (simp add: parse_artifact_lab_def)
qed

theorem micro_container_attribution_witness:
  "parse_artifact_lab ''container'' ''clab-dnlab-campus-r1-r1'' [''campus'', ''campus2''] = ''campus''"
proof -
  have "\<forall>other \<in> set [''campus'', ''campus2'']. other \<noteq> ''campus'' \<longrightarrow> clash_free ''campus'' other"
    by (simp add: clash_free_def startswith_def)
  from micro_container_attribution [OF _ this, of "''r1''"] show ?thesis by (simp add: micro_name)
qed

section \<open>What is executed\<close>

lemma execute_action_events:
  "\<exists>r es. execute_action env conn a tr = (r, tr @ es)
     \<and> (\<forall>ev \<in> set es. af_host (ca_artifact a) \<in> conn \<and> ev = RunNoCheck (af_host (ca_artifact a)) (ca_command a))"
  by (auto simp: execute_action_def run_no_check_def Let_def split: sum.split prod.split)

lemma execute_actions_events:
  "\<exists>r es. execute_actions env conn as tr = (r, tr @ es)
     \<and> (\<forall>ev \<in> set es. \<exists>a \<in> set as. af_host (ca_artifact a) \<in> conn \<and> ev = RunNoCheck (af_host (ca_artifact a)) (ca_command a))"
proof (induction "as" arbitrary: tr)
  case (Cons a "as")
  obtain x a' es1 where 1: "execute_action env conn a tr = ((x, a'), tr @ es1)"
    "\<forall>ev \<in> set es1. af_host (ca_artifact a) \<in> conn \<and> ev = RunNoCheck (af_host (ca_artifact a)) (ca_command a)"
    using execute_action_events [of env conn a tr] by auto
  obtain r as' es2 where 2: "execute_actions env conn as (tr @ es1) = ((r, as'), tr @ es1 @ es2)"
    "\<forall>ev \<in> set es2. \<exists>a \<in> set as. af_host (ca_artifact a) \<in> conn \<and> ev = RunNoCheck (af_host (ca_artifact a)) (ca_command a)"
    using Cons.IH [of "tr @ es1"] by auto
  show ?case using 1 2 by (cases x) auto
qed simp

lemma execute_plans_events:
  "\<exists>r es. execute_plans env conn ps tr = (r, tr @ es)
     \<and> (\<forall>ev \<in> set es. \<exists>(lab, p) \<in> set ps. \<exists>a \<in> set (lp_actions p). \<not> lp_protected p
          \<and> ev = RunNoCheck (af_host (ca_artifact a)) (ca_command a))"
proof (induction ps arbitrary: tr)
  case (Cons lp ps)
  obtain lab p where lp: "lp = (lab, p)" by fastforce
  show ?case
  proof (cases "lp_protected p")
    case True
    obtain r ps' es where "execute_plans env conn ps tr = ((r, ps'), tr @ es)"
      "\<forall>ev \<in> set es. \<exists>(lab, p) \<in> set ps. \<exists>a \<in> set (lp_actions p). \<not> lp_protected p \<and> ev = RunNoCheck (af_host (ca_artifact a)) (ca_command a)"
      using Cons.IH [of tr] by auto
    then show ?thesis using True by (auto simp: lp)
  next
    case False
    obtain x as' es1 where 1: "execute_actions env conn (lp_actions p) tr = ((x, as'), tr @ es1)"
      "\<forall>ev \<in> set es1. \<exists>a \<in> set (lp_actions p). af_host (ca_artifact a) \<in> conn \<and> ev = RunNoCheck (af_host (ca_artifact a)) (ca_command a)"
      using execute_actions_events [of env conn "lp_actions p" tr] by auto
    obtain r ps' es2 where 2: "execute_plans env conn ps (tr @ es1) = ((r, ps'), tr @ es1 @ es2)"
      "\<forall>ev \<in> set es2. \<exists>(lab, p) \<in> set ps. \<exists>a \<in> set (lp_actions p). \<not> lp_protected p \<and> ev = RunNoCheck (af_host (ca_artifact a)) (ca_command a)"
      using Cons.IH [of "tr @ es1"] by auto
    show ?thesis using 1 2 False by (cases x) (auto simp: lp)
  qed
qed simp

text \<open>The conditions under which a removal command may be run on a host.\<close>

definition removal_of :: "artifact \<Rightarrow> string \<Rightarrow> bool" where
  "removal_of a cmd \<longleftrightarrow>
     (af_kind a = ''container'' \<and> cmd = rm_container_cmd (af_name a))
     \<or> (af_kind a = ''network'' \<and> cmd = rm_network_cmd (af_name a) \<and> dict_get (af_metadata a) ''containers'' = Some (MInt 0))
     \<or> (af_kind a = ''interface'' \<and> cmd = rm_interface_cmd (af_name a))
     \<or> (af_kind a = ''dnsmasq'' \<and> cmd = rm_dnsmasq_cmd (af_name a))"

text \<open>
  A container that docker lists as running and that the state file of the lab accounts for: it has the
  name of a device that the lab schedules or has runtime data of, or the \<open>clab-\<close> name recorded there.
  The anchors of the management network are no devices.
\<close>

definition device_container :: "string \<Rightarrow> deployment_state \<Rightarrow> string \<Rightarrow> bool" where
  "device_container lab st name \<longleftrightarrow>
     (\<exists>sched \<in> set (dict_values (dep_scheduling st)). \<exists>vd \<in> set (hst_vd sched).
        name \<in> {vd_container_name lab vd, micro_vd_container_name lab vd})
     \<or> (\<exists>rt \<in> set (dict_values (dep_node_runtime st)).
        nst_node rt \<noteq> [] \<and> name \<in> {vd_container_name lab (nst_node rt), micro_vd_container_name lab (nst_node rt)}
        \<or> name = nst_container rt \<and> startswith name ''clab-'')"

definition runs_device :: "string \<Rightarrow> deployment_state \<Rightarrow> artifact \<Rightarrow> bool" where
  "runs_device lab st a \<longleftrightarrow>
     af_kind a = ''container'' \<and> af_state a = ''running'' \<and> device_container lab st (af_name a)
     \<and> \<not> endswith (af_name a) ''-mgmt-anchor'' \<and> dict_get (af_metadata a) ''role'' \<noteq> Some (MStr ''mgmt-anchor'')"

definition quiescent :: "(string, host_inventory) dict \<Rightarrow> int \<Rightarrow> string \<Rightarrow> artifact list \<Rightarrow> deployment_state option \<Rightarrow> bool" where
  "quiescent inventories grace lab artifacts state \<longleftrightarrow>
     (\<forall>st a. state = Some st \<longrightarrow> a \<in> set artifacts \<longrightarrow> \<not> runs_device lab st a)
     \<and> (\<forall>host \<in> set (expected_hosts state). \<not> host_unreachable inventories host)
     \<and> (\<forall>a \<in> set artifacts. \<forall>s. af_age_seconds a = Some s \<longrightarrow> grace \<le> s)"

lemma lazy_lab_tail: "lazy_lab ok body = Some l \<Longrightarrow> \<exists>i. ok (drop i body)"
  by (auto simp: lazy_lab_def find_Some_iff)

lemma anchor_name: "mgmt_anchor_re name \<noteq> None \<Longrightarrow> endswith name ''-mgmt-anchor''"
proof -
  assume "mgmt_anchor_re name \<noteq> None"
  then obtain i where "anchor_tail (drop i (drop (length ''clab-dnlab-'') name))"
    by (auto simp: mgmt_anchor_re_def after_prefix_def dest!: lazy_lab_tail split: if_splits)
  then obtain r where "drop (i + length ''clab-dnlab-'') name = r @ ''-mgmt-anchor''"
    unfolding anchor_tail_def endswith_iff by auto
  then have "name = (take (i + length ''clab-dnlab-'') name @ r) @ ''-mgmt-anchor''" by (metis append.assoc append_take_drop_id)
  then show ?thesis unfolding endswith_iff by blast
qed

lemma clab_no_service: "startswith name ''clab-'' \<Longrightarrow> service_container_re name = None"
  by (auto simp: service_container_re_def after_prefix_def startswith_iff)

lemma device_container_expected:
  assumes "device_container lab st name"
  shows "name \<in> expected_vd_container_names lab (Some st) \<and> startswith name ''clab-''"
proof -
  have "startswith (vd_container_name lab vd) ''clab-''" "startswith (micro_vd_container_name lab vd) ''clab-''" for vd
    by (simp_all add: vd_container_name_def micro_name startswith_def)
  then show ?thesis
    using assms unfolding device_container_def expected_vd_container_names_def by (fastforce simp: startswith_iff)
qed

lemma runs_device_guard:
  assumes "runs_device lab st a" "a \<in> set artifacts"
  shows "lab_has_running_vd lab artifacts (Some st)"
proof -
  have "af_name a \<in> expected_vd_container_names lab (Some st)" "service_container_re (af_name a) = None" "mgmt_anchor_re (af_name a) = None"
    using assms(1) device_container_expected [of lab st "af_name a"] clab_no_service anchor_name unfolding runs_device_def by blast+
  then have "is_vd_container a lab (Some st) (expected_vd_container_names lab (Some st))"
    using assms(1) by (simp add: runs_device_def is_vd_container_def is_mgmt_anchor_container_def is_service_container_def)
  then show ?thesis using assms unfolding lab_has_running_vd_def runs_device_def list_ex_iff by blast
qed

lemma reasons_quiescent:
  assumes "protection_reasons inventories grace lab artifacts state = []"
  shows "quiescent inventories grace lab artifacts state"
proof -
  have "\<not> lab_has_running_vd lab artifacts state" "\<forall>host \<in> set (expected_hosts state). \<not> host_unreachable inventories host"
    "\<forall>a \<in> set artifacts. \<forall>s. af_age_seconds a = Some s \<longrightarrow> \<not> s < grace"
    using assms by (auto simp: protection_reasons_def list_ex_iff filter_empty_conv split: if_splits option.splits)
  then show ?thesis using runs_device_guard unfolding quiescent_def by (meson not_less)
qed

lemma map_filter_mem: "y \<in> set (List.map_filter f xs) \<longleftrightarrow> (\<exists>x \<in> set xs. f x = Some y)"
  by (induction xs) (auto simp: map_filter_simps split: option.split)

lemma action_removal:
  "action_for_artifact a state = Some act \<Longrightarrow> ca_artifact act = a \<and> \<not> af_shared a \<and> removal_of a (ca_command act)
     \<and> (af_kind a = ''interface'' \<longrightarrow> state \<noteq> None \<or> af_source a = ''state'')"
  by (auto simp: action_for_artifact_def removal_of_def new_action_def split: if_splits)

lemma plan_action:
  assumes "act \<in> set (lp_actions (plan_lab inventories grace lab found state))"
  shows "ca_artifact act \<in> set (dedupe_artifacts found) \<and> \<not> af_shared (ca_artifact act) \<and> removal_of (ca_artifact act) (ca_command act)
     \<and> (af_kind (ca_artifact act) = ''interface'' \<longrightarrow> state \<noteq> None \<or> af_source (ca_artifact act) = ''state'')
     \<and> quiescent inventories grace lab (dedupe_artifacts found) state"
proof -
  have r: "protection_reasons inventories grace lab (dedupe_artifacts found) state = []"
    "act \<in> set (List.map_filter (\<lambda>a. action_for_artifact a state) (dedupe_artifacts found))"
    using assms by (auto simp: plan_lab_def Let_def split: if_splits)
  then obtain a where "a \<in> set (dedupe_artifacts found)" "action_for_artifact a state = Some act" by (auto simp: map_filter_mem)
  then show ?thesis using reasons_quiescent [OF r(1)] action_removal by auto
qed

text \<open>
  C4: every command that a cleanup pass runs after its inventory removes one artifact on the host
  where the inventory or a state file of the lab has it. The artifact is not a shared one; if it is
  a network it has no containers, and an interface is removed only for a lab with a state file. And
  the lab is quiescent: nothing listed for it is younger than the grace period and, if it has a state
  file, no host this file names is unreachable and no container listed for the lab that is one of the
  file's devices runs. A lab without a state file is taken for left over: its containers are removed
  after the grace period also when they run. A dry run removes nothing.
\<close>

theorem cleanup_commands_justified:
  assumes "collect_inventory env age connect known_labs clients [] tr = (inventories, tr1)"
    and "reconcile_once env age connect clients known_labs states dry_run grace tr = (res, tr2)"
  shows "\<exists>es. tr2 = tr1 @ es \<and> (dry_run \<longrightarrow> es = [])
     \<and> (\<forall>ev \<in> set es. \<exists>lab a cmd.
          ev = RunNoCheck (af_host a) cmd \<and> removal_of a cmd \<and> \<not> af_shared a
          \<and> a \<in> set (dedupe_artifacts (dict_get_or (by_lab inventories states) lab []))
          \<and> (af_kind a = ''interface'' \<longrightarrow> dict_get states lab \<noteq> None \<or> af_source a = ''state'')
          \<and> quiescent inventories grace lab (dedupe_artifacts (dict_get_or (by_lab inventories states) lab [])) (dict_get states lab))"
proof (cases dry_run)
  case True
  then show ?thesis using assms by (simp add: reconcile_once_def Let_def)
next
  case False
  let ?plans = "build_cleanup_plan inventories states grace"
  obtain r plans' es where es: "execute_plans env {h \<in> set (map fst clients). connect h = None} ?plans tr1 = ((r, plans'), tr1 @ es)"
    "\<forall>ev \<in> set es. \<exists>(lab, p) \<in> set ?plans. \<exists>a \<in> set (lp_actions p). \<not> lp_protected p
       \<and> ev = RunNoCheck (af_host (ca_artifact a)) (ca_command a)"
    using execute_plans_events [of env "{h \<in> set (map fst clients). connect h = None}" ?plans tr1] by auto
  then have "tr2 = tr1 @ es" using assms False by (simp add: reconcile_once_def Let_def)
  moreover have "\<exists>lab a cmd. ev = RunNoCheck (af_host a) cmd \<and> removal_of a cmd \<and> \<not> af_shared a
      \<and> a \<in> set (dedupe_artifacts (dict_get_or (by_lab inventories states) lab []))
      \<and> (af_kind a = ''interface'' \<longrightarrow> dict_get states lab \<noteq> None \<or> af_source a = ''state'')
      \<and> quiescent inventories grace lab (dedupe_artifacts (dict_get_or (by_lab inventories states) lab [])) (dict_get states lab)"
    if ev: "ev \<in> set es" for ev
  proof -
    obtain lab p act where p: "(lab, p) \<in> set ?plans" "act \<in> set (lp_actions p)" "ev = RunNoCheck (af_host (ca_artifact act)) (ca_command act)"
      using es(2) ev by blast
    then have "act \<in> set (lp_actions (plan_lab inventories grace lab (dict_get_or (by_lab inventories states) lab []) (dict_get states lab)))"
      by (auto simp: build_cleanup_plan_def)
    from plan_action [OF this] show ?thesis using p(3) by blast
  qed
  ultimately show ?thesis using False by blast
qed

section \<open>Labs whose names extend each other\<close>

definition lab_state :: "string \<Rightarrow> string list \<Rightarrow> deployment_state" where
  "lab_state lab vds =
     \<lparr>dep_lab_name = lab, dep_topology_file = [], dep_deployed_at = [], dep_dnlab_deployed = True, dep_runtime_mode = [],
      dep_vrf_table_id = 0, dep_mgmt = None, dep_jumphost = None, dep_dns = None, dep_runtime_relays = [],
      dep_scheduling = [(''h'', \<lparr>hst_host = ''h'', hst_topology_file = [], hst_vd = vds, hst_resources_used = []\<rparr>)],
      dep_vxlan_dataplane = [], dep_mgmt_anchors = [],
      dep_node_runtime = map (\<lambda>vd. (vd, \<lparr>nst_node = vd, nst_state = ''running'', nst_host = ''h'',
        nst_container = micro_vd_container_name lab vd, nst_topology_file = [], nst_kind = [], nst_image = [], nst_mgmt_ipv4 = [],
        nst_started_at = [], nst_last_error = [], nst_warm_ports = 0, nst_hot_links_status = []\<rparr>)) vds,
      dep_runtime_links = [], dep_webui_allocations = [], dep_mgmt_ip_reservations = [], dep_realnets = [], dep_phases_completed = []\<rparr>"

text \<open>A host on which exactly one container runs.\<close>

definition host_running :: "string \<Rightarrow> env" where
  "host_running name tr ev =
     (case ev of
        RunNoCheck host cmd \<Rightarrow> Inr (0, if cmd = list_containers_cmd then name @ [CHR 0x09] @ ''running'' else [], [])
      | _ \<Rightarrow> Inr (0, [], []))"

text \<open>
  Two labs with state files, one of them named like the other followed by a dash and one of its
  devices. The running container of that device is attributed to the longer name, so the lab it
  belongs to looks idle: the pass removes the container by force. With the state file of the one
  lab alone it does not.
\<close>

theorem cleanup_removes_running_device:
  "RunNoCheck ''h'' (rm_container_cmd (micro_vd_container_name ''a'' ''b''))
     \<in> set (snd (reconcile_once (host_running (micro_vd_container_name ''a'' ''b'')) (\<lambda>_. None) (\<lambda>_. None) [(''h'', [])] [''a'', ''a-b'']
              [(''a'', lab_state ''a'' [''b'']), (''a-b'', lab_state ''a-b'' [])] False 0 []))
   \<and> RunNoCheck ''h'' (rm_container_cmd (micro_vd_container_name ''a'' ''b''))
     \<notin> set (snd (reconcile_once (host_running (micro_vd_container_name ''a'' ''b'')) (\<lambda>_. None) (\<lambda>_. None) [(''h'', [])] [''a'']
              [(''a'', lab_state ''a'' [''b''])] False 0 []))"
  by (rule conjI) code_simp+

theorem cleanup_commands_justified_witness:
  "\<exists>inventories es tr1. collect_inventory (host_running []) (\<lambda>_. None) (\<lambda>_. None) [''a''] [(''h'', [])] [] [] = (inventories, tr1)
     \<and> snd (reconcile_once (host_running []) (\<lambda>_. None) (\<lambda>_. None) [(''h'', [])] [''a''] [(''a'', lab_state ''a'' [''b''])] False 0 []) = tr1 @ es
     \<and> (\<forall>ev \<in> set es. \<exists>a cmd. ev = RunNoCheck (af_host a) cmd \<and> removal_of a cmd)"
proof -
  obtain inventories tr1 res tr2 where
    c: "collect_inventory (host_running []) (\<lambda>_. None) (\<lambda>_. None) [''a''] [(''h'', [])] [] [] = (inventories, tr1)"
    "reconcile_once (host_running []) (\<lambda>_. None) (\<lambda>_. None) [(''h'', [])] [''a''] [(''a'', lab_state ''a'' [''b''])] False 0 [] = (res, tr2)"
    by (meson surj_pair)
  from cleanup_commands_justified [OF c] show ?thesis using c by (metis snd_conv)
qed

section \<open>Running devices are spared\<close>

fun merge_all :: "artifact list \<Rightarrow> artifact option \<Rightarrow> artifact option" where
  "merge_all [] m = m"
| "merge_all (a # as) m = merge_all as (Some (case m of None \<Rightarrow> a | Some p \<Rightarrow> merge_artifact p a))"

lemma dedupe_get:
  "dict_get (fold dedupe_step as d) k = merge_all (filter (\<lambda>a. artifact_key a = k) as) (dict_get d k)"
  by (induction "as" arbitrary: d) (auto simp: dedupe_step_def split: option.split)

text \<open>A listing of one container, seen possibly several times but never in another state.\<close>

definition sighting :: "string \<times> string \<times> string \<Rightarrow> artifact \<Rightarrow> bool" where
  "sighting k a \<longleftrightarrow> artifact_key a = k \<and> af_state a \<in> {[], ''running''} \<and> dict_get (af_metadata a) ''role'' = None"

lemma merge_sighting:
  assumes "sighting k p" "sighting k a"
  shows "sighting k (merge_artifact p a)" "af_state p = ''running'' \<or> af_state a = ''running'' \<Longrightarrow> af_state (merge_artifact p a) = ''running''"
proof -
  have "dict_get (fold (\<lambda>(k, v). dict_set k v) m d) x = None" if "dict_get m x = None" "dict_get d x = None"
    for m d :: "(string, metaval) dict" and x
    using that by (induction m arbitrary: d) (auto split: if_splits)
  then show "sighting k (merge_artifact p a)" using assms by (auto simp: sighting_def merge_artifact_def artifact_key_def)
  show "af_state p = ''running'' \<or> af_state a = ''running'' \<Longrightarrow> af_state (merge_artifact p a) = ''running''"
    using assms by (auto simp: sighting_def merge_artifact_def)
qed

lemma merge_all_running:
  "list_all (sighting k) as \<Longrightarrow> (\<forall>p. m = Some p \<longrightarrow> sighting k p) \<Longrightarrow>
     (\<exists>a \<in> set as. af_state a = ''running'') \<or> (\<exists>p. m = Some p \<and> af_state p = ''running'') \<Longrightarrow>
     \<exists>q. merge_all as m = Some q \<and> sighting k q \<and> af_state q = ''running''"
proof (induction "as" arbitrary: m)
  case (Cons a "as")
  let ?m = "case m of None \<Rightarrow> a | Some p \<Rightarrow> merge_artifact p a"
  have "sighting k ?m" using Cons.prems(1,2) merge_sighting(1) by (auto split: option.split)
  moreover have "(\<exists>b \<in> set as. af_state b = ''running'') \<or> af_state ?m = ''running''"
    using Cons.prems merge_sighting(2) [of k _ a] by (auto split: option.split)
  ultimately show ?case using Cons.IH [of "Some ?m"] Cons.prems(1) by simp
qed auto

lemma fold_append_get:
  "dict_get_or (fold (\<lambda>a d. if af_lab a \<noteq> [] then dict_append (af_lab a) a d else d) as d) lab []
   = dict_get_or d lab [] @ (if lab = [] then [] else filter (\<lambda>a. af_lab a = lab) as)"
  by (induction "as" arbitrary: d) (auto simp: dict_simps)

lemma fold_extend_get:
  "x \<in> set (dict_get_or d lab []) \<Longrightarrow>
     x \<in> set (dict_get_or (fold (\<lambda>(l, st) d. dict_set l (dict_get_or d l [] @ f st) d) sts d) lab [])"
proof (induction sts arbitrary: d)
  case (Cons s sts)
  obtain l st where s: "s = (l, st)" by fastforce
  have "x \<in> set (dict_get_or (dict_set l (dict_get_or d l [] @ f st) d) lab [])"
    using Cons.prems by (auto simp: dict_get_or_set)
  then show ?case using Cons.IH s by simp
qed simp

lemma live_in_by_lab:
  assumes "dict_get inventories host = Some i" "a \<in> set (hi_artifacts i)" "af_lab a = lab" "lab \<noteq> []"
  shows "a \<in> set (dict_get_or (by_lab inventories states) lab [])"
  unfolding by_lab_def
proof (rule fold_extend_get)
  have "a \<in> set (concat (map hi_artifacts (dict_values inventories)))"
    using dict_get_values [OF assms(1)] assms(2) by auto
  then show "a \<in> set (dict_get_or (fold (\<lambda>a d. if af_lab a \<noteq> [] then dict_append (af_lab a) a d else d)
      (concat (map hi_artifacts (dict_values inventories))) []) lab [])"
    unfolding fold_append_get using assms(3,4) by simp
qed

lemma by_lab_key:
  assumes "dict_get_or (by_lab inventories states) lab [] \<noteq> []"
  shows "lab \<in> set (dict_keys (by_lab inventories states))"
  using assms by (rule_tac ccontr) (simp add: dict_get_or_def flip: map_of_eq_None_iff)

lemma plans_get:
  assumes "lab \<in> set (dict_keys (by_lab inventories states))"
  shows "dict_get (build_cleanup_plan inventories states grace) lab
     = Some (plan_lab inventories grace lab (dict_get_or (by_lab inventories states) lab []) (dict_get states lab))"
proof -
  have "map_of (map (\<lambda>k. (k, f k)) ks) lab = Some (f lab)" if "lab \<in> set ks" for ks and f :: "string \<Rightarrow> lab_cleanup_plan"
    using that by (induction ks) auto
  from this [of "sort (dict_keys (by_lab inventories states))"] show ?thesis
    using assms by (simp add: build_cleanup_plan_def)
qed

text \<open>
  C16: a lab with a state file is left alone while a device that the file schedules runs. When the
  inventory of some host has the container of the device, under its micro container name, attributed
  to the lab and running, the name is not that of a management anchor, and no other listing of that
  container contradicts it (another state than running, or the role of an anchor), then the plan
  protects the lab and has no actions for it. Nothing is claimed of a lab without a state file.
\<close>

theorem cleanup_spares_running:
  assumes "dict_get inventories host = Some i" "a \<in> set (hi_artifacts i)" "af_lab a = lab" "lab \<noteq> []"
    and "af_kind a = ''container''" "af_state a = ''running''" "af_name a = micro_vd_container_name lab vd"
    and "dict_get states lab = Some st" "sched \<in> set (dict_values (dep_scheduling st))" "vd \<in> set (hst_vd sched)"
    and "mgmt_anchor_re (af_name a) = None"
    and "\<forall>b \<in> set (dict_get_or (by_lab inventories states) lab []). artifact_key b = artifact_key a \<longrightarrow> sighting (artifact_key a) b"
  shows "\<exists>plan. dict_get (build_cleanup_plan inventories states grace) lab = Some plan \<and> lp_protected plan
     \<and> ''lab-runtime-running'' \<in> set (lp_reasons plan) \<and> lp_actions plan = []"
proof -
  let ?found = "dict_get_or (by_lab inventories states) lab []" and ?k = "artifact_key a"
  have a: "a \<in> set ?found" by (rule live_in_by_lab [OF assms(1-4)])
  obtain q where q: "merge_all (filter (\<lambda>b. artifact_key b = ?k) ?found) None = Some q" "sighting ?k q" "af_state q = ''running''"
    using merge_all_running [of ?k "filter (\<lambda>b. artifact_key b = ?k) ?found" None] a assms(6,12) by (auto simp: list_all_iff)
  then have "dict_get (fold dedupe_step ?found []) ?k = Some q" by (simp add: dedupe_get)
  then have m: "q \<in> set (dedupe_artifacts ?found)" unfolding dedupe_artifacts_def by (rule dict_get_values)
  have f: "af_kind q = ''container''" "af_name q = micro_vd_container_name lab vd" "dict_get (af_metadata q) ''role'' = None"
    using q(2) assms(5,7) by (auto simp: sighting_def artifact_key_def)
  have "service_container_re (af_name q) = None"
    unfolding f(2) by (simp add: service_container_re_def after_prefix_def micro_name startswith_def)
  moreover have "micro_vd_container_name lab vd \<in> expected_vd_container_names lab (Some st)"
    using assms(9,10) by (fastforce simp: expected_vd_container_names_def)
  ultimately have "is_vd_container q lab (Some st) (expected_vd_container_names lab (Some st))"
    using f assms(7,11) by (simp add: is_vd_container_def is_mgmt_anchor_container_def is_service_container_def)
  then have "lab_has_running_vd lab (dedupe_artifacts ?found) (Some st)"
    using m q(3) unfolding lab_has_running_vd_def list_ex_iff by blast
  moreover have "lab \<in> set (dict_keys (by_lab inventories states))" using a by (intro by_lab_key) auto
  ultimately show ?thesis by (simp add: plans_get plan_lab_def Let_def protection_reasons_def assms(8))
qed

definition running_artifact :: artifact where
  "running_artifact = (artifact_of ''container'' (micro_vd_container_name ''a'' ''b'') ''h'' ''a'')\<lparr>af_state := ''running''\<rparr>"

definition running_inventory :: "(string, host_inventory) dict" where
  "running_inventory = [(''h'', \<lparr>hi_name = ''h'', hi_host = [], hi_reachable = True, hi_error = [], hi_artifacts = [running_artifact]\<rparr>)]"

theorem cleanup_spares_running_witness:
  "\<exists>plan. dict_get (build_cleanup_plan running_inventory [(''a'', lab_state ''a'' [''b''])] 0) ''a'' = Some plan \<and> lp_actions plan = []"
proof -
  have h: "mgmt_anchor_re (micro_vd_container_name ''a'' ''b'') = None"
    "dict_get_or (by_lab running_inventory [(''a'', lab_state ''a'' [''b''])]) ''a'' []
       = [running_artifact, state_artifact ''container'' (micro_vd_container_name ''a'' ''b'') ''h'' ''a'']"
    by code_simp+
  have r: "dict_get running_inventory ''h'' = Some (snd (hd running_inventory))" "running_artifact \<in> set (hi_artifacts (snd (hd running_inventory)))"
    "af_lab running_artifact = ''a''" "af_kind running_artifact = ''container''" "af_state running_artifact = ''running''"
    "af_name running_artifact = micro_vd_container_name ''a'' ''b''" "dict_get (af_metadata running_artifact) ''role'' = None"
    by (simp_all add: running_inventory_def running_artifact_def artifact_of_def)
  let ?st = "lab_state ''a'' [''b'']"
  have s: "dict_get [(''a'', ?st)] ''a'' = Some ?st"
    "snd (hd (dep_scheduling ?st)) \<in> set (dict_values (dep_scheduling ?st))" "''b'' \<in> set (hst_vd (snd (hd (dep_scheduling ?st))))"
    by (simp_all add: lab_state_def)
  have "\<forall>b \<in> set (dict_get_or (by_lab running_inventory [(''a'', ?st)]) ''a'' []). artifact_key b = artifact_key running_artifact
      \<longrightarrow> sighting (artifact_key running_artifact) b"
    unfolding h(2) using r by (simp add: sighting_def state_artifact_def artifact_of_def)
  from cleanup_spares_running [OF r(1-3) _ r(4-6) s _ this, of 0] h(1) r(6) show ?thesis by auto
qed

end
