(* ===== verification/CleanupDaemon.thy ===== *)
theory CleanupDaemon
  imports LabCleanup
begin

text \<open>
  The thread of the cleanup daemon, \<open>LabCleanupDaemon\<close> of \<open>services/lab_cleanup.py\<close>: a loop
  that reconciles, waits for a request or the end of the interval, and stops when asked. Other
  threads set the two events at any moment, so the loop is a step relation in which each access
  to an event is a step of its own.
\<close>

datatype place = Entry | Reconciling | LoopTest | Waiting | StopTest | Clearing | Finished

text \<open>
  \<open>dm_asked\<close> records that \<open>trigger_reconcile\<close> was called after the last pass began; the code has no
  such variable.
\<close>

record daemon =
  dm_enabled :: bool
  dm_stop :: bool
  dm_trigger :: bool
  dm_count :: nat
  dm_place :: place
  dm_asked :: bool

definition new_daemon :: "bool \<Rightarrow> daemon" where
  "new_daemon enabled = \<lparr>dm_enabled = enabled, dm_stop = False, dm_trigger = False, dm_count = 0, dm_place = Entry, dm_asked = False\<rparr>"

definition wait_interval :: "int \<Rightarrow> int" where
  "wait_interval interval_seconds = max 30 interval_seconds"

definition begin_pass :: "daemon \<Rightarrow> daemon" where
  "begin_pass d = d\<lparr>dm_place := Reconciling, dm_asked := False\<rparr>"

definition do_reconcile :: "bool \<Rightarrow> daemon \<Rightarrow> daemon" where
  "do_reconcile success d = (if success then d\<lparr>dm_count := dm_count d + 1, dm_place := LoopTest\<rparr> else d\<lparr>dm_place := LoopTest\<rparr>)"

text \<open>
  A step of the thread, given whether a pass that ends here succeeds; \<^const>\<open>None\<close> when it has ended
  or waits and the event it waits for is not set.
\<close>

fun run_step :: "bool \<Rightarrow> daemon \<Rightarrow> daemon option" where
  "run_step success d =
     (case dm_place d of
        Entry \<Rightarrow> Some (if dm_enabled d then begin_pass d else d\<lparr>dm_place := Finished\<rparr>)
      | Reconciling \<Rightarrow> Some (do_reconcile success d)
      | LoopTest \<Rightarrow> Some (d\<lparr>dm_place := if dm_stop d then Finished else Waiting\<rparr>)
      | Waiting \<Rightarrow> if dm_trigger d then Some (d\<lparr>dm_place := StopTest\<rparr>) else None
      | StopTest \<Rightarrow> Some (d\<lparr>dm_place := if dm_stop d then Finished else Clearing\<rparr>)
      | Clearing \<Rightarrow> Some (begin_pass (d\<lparr>dm_trigger := False\<rparr>))
      | Finished \<Rightarrow> None)"

declare run_step.simps [simp del]

inductive daemon_step :: "daemon \<Rightarrow> daemon \<Rightarrow> bool" where
  thread: "run_step success d = Some d' \<Longrightarrow> daemon_step d d'"
| timeout: "dm_place d = Waiting \<Longrightarrow> daemon_step d (d\<lparr>dm_place := StopTest\<rparr>)"
| trigger_reconcile: "daemon_step d (d\<lparr>dm_trigger := True, dm_asked := True\<rparr>)"
| stop_set: "daemon_step d (d\<lparr>dm_stop := True\<rparr>)"
| stop_wake: "dm_stop d \<Longrightarrow> daemon_step d (d\<lparr>dm_trigger := True\<rparr>)"

inductive reachable :: "bool \<Rightarrow> daemon \<Rightarrow> bool" for enabled where
  start: "reachable enabled (new_daemon enabled)"
| step: "reachable enabled d \<Longrightarrow> daemon_step d d' \<Longrightarrow> reachable enabled d'"

inductive_cases daemon_stepE: "daemon_step d d'"

text \<open>The thread alone, for a number of steps and the outcomes of the passes that end in them.\<close>

fun run_thread :: "bool list \<Rightarrow> daemon \<Rightarrow> daemon option" where
  "run_thread [] d = Some d"
| "run_thread (success # ss) d = (case run_step success d of None \<Rightarrow> None | Some d' \<Rightarrow> run_thread ss d')"

definition daemon_inv :: "bool \<Rightarrow> daemon \<Rightarrow> bool" where
  "daemon_inv enabled d \<longleftrightarrow> dm_enabled d = enabled
     \<and> (dm_asked d \<longrightarrow> dm_trigger d)
     \<and> (dm_place d = Finished \<longrightarrow> dm_stop d \<or> \<not> enabled)
     \<and> (\<not> enabled \<longrightarrow> dm_place d \<in> {Entry, Finished} \<and> dm_count d = 0)"

lemma run_step_inv: "daemon_inv enabled d \<Longrightarrow> run_step success d = Some d' \<Longrightarrow> daemon_inv enabled d'"
  by (auto simp: daemon_inv_def run_step.simps begin_pass_def do_reconcile_def split: place.splits if_splits)

lemma reachable_inv: "reachable enabled d \<Longrightarrow> daemon_inv enabled d"
proof (induction rule: reachable.induct)
  case start
  show ?case by (simp add: daemon_inv_def new_daemon_def)
next
  case (step d d')
  note ih = step.IH
  from step.hyps(2) show ?case
  proof (rule daemon_stepE)
    fix success assume "run_step success d = Some d'"
    then show ?thesis by (rule run_step_inv [OF ih])
  qed (use ih in \<open>auto simp: daemon_inv_def\<close>)
qed

text \<open>
  C37: a request is never lost. In every state an enabled daemon can reach in which a request was
  made since the last pass began and no stop was, the thread begins a new pass in at most five of
  its own steps, without waiting for the interval to end, whatever the outcome of a pass that
  is under way.
\<close>

theorem request_served:
  assumes "reachable True d" "dm_asked d" "\<not> dm_stop d"
  shows "\<exists>n \<le> 5. \<forall>outcomes. length outcomes = n \<longrightarrow>
     (\<exists>d'. run_thread outcomes d = Some d' \<and> dm_place d' = Reconciling \<and> \<not> dm_asked d')"
proof -
  have i: "dm_enabled d" "dm_trigger d" "dm_place d \<noteq> Finished"
    using reachable_inv [OF assms(1)] assms(2,3) by (auto simp: daemon_inv_def)
  define n where "n = (case dm_place d of Entry \<Rightarrow> 1 | Reconciling \<Rightarrow> 5 | LoopTest \<Rightarrow> 4 | Waiting \<Rightarrow> 3 | StopTest \<Rightarrow> 2 | _ \<Rightarrow> (1 :: nat))"
  have "\<exists>d'. run_thread outcomes d = Some d' \<and> dm_place d' = Reconciling \<and> \<not> dm_asked d'" if "length outcomes = n" for outcomes
    using that i assms(3)
    by (cases "dm_place d") (auto simp: n_def eval_nat_numeral length_Suc_conv run_step.simps begin_pass_def do_reconcile_def)
  moreover have "n \<le> 5" by (simp add: n_def split: place.split)
  ultimately show ?thesis by blast
qed

definition asked_daemon :: daemon where
  "asked_daemon = (new_daemon True)\<lparr>dm_trigger := True, dm_asked := True\<rparr>"

lemma asked_reachable: "reachable True asked_daemon"
  unfolding asked_daemon_def by (rule reachable.step [OF reachable.start daemon_step.trigger_reconcile])

theorem request_served_witness:
  "\<exists>n \<le> 5. \<forall>outcomes. length outcomes = n \<longrightarrow>
     (\<exists>d'. run_thread outcomes asked_daemon = Some d' \<and> dm_place d' = Reconciling \<and> \<not> dm_asked d')"
  by (rule request_served [OF asked_reachable]) (simp_all add: asked_daemon_def new_daemon_def)

text \<open>
  C38: a daemon that is asked to stop does. In every state it can reach after both halves of \<open>stop\<close>
  the thread has ended within five of its own steps, and completes at most one more pass.
\<close>

theorem stop_ends:
  assumes "reachable enabled d" "dm_stop d" "dm_trigger d"
  shows "\<exists>n \<le> 5. \<forall>outcomes. length outcomes = n \<longrightarrow>
     (\<exists>d'. run_thread outcomes d = Some d' \<and> dm_place d' = Finished \<and> dm_count d' \<le> dm_count d + 1)"
proof -
  define n where "n = (case dm_place d of Entry \<Rightarrow> (if enabled then 3 else 1) | Reconciling \<Rightarrow> 2 | LoopTest \<Rightarrow> 1 | Waiting \<Rightarrow> 2
      | StopTest \<Rightarrow> 1 | Clearing \<Rightarrow> 3 | Finished \<Rightarrow> (0 :: nat))"
  have e: "dm_enabled d = enabled" using reachable_inv [OF assms(1)] by (simp add: daemon_inv_def)
  have "\<exists>d'. run_thread outcomes d = Some d' \<and> dm_place d' = Finished \<and> dm_count d' \<le> dm_count d + 1" if "length outcomes = n" for outcomes
    using that e assms(2,3)
    by (cases "dm_place d") (auto simp: n_def eval_nat_numeral length_Suc_conv run_step.simps begin_pass_def do_reconcile_def split: if_splits)
  moreover have "n \<le> 5" by (simp add: n_def split: place.split)
  ultimately show ?thesis by blast
qed

definition stopping_daemon :: daemon where
  "stopping_daemon = (new_daemon True)\<lparr>dm_stop := True, dm_trigger := True\<rparr>"

lemma stopping_reachable: "reachable True stopping_daemon"
proof -
  have "daemon_step ((new_daemon True)\<lparr>dm_stop := True\<rparr>) ((new_daemon True)\<lparr>dm_stop := True\<rparr>\<lparr>dm_trigger := True\<rparr>)"
    by (rule daemon_step.stop_wake) simp
  then show ?thesis
    unfolding stopping_daemon_def by (rule reachable.step [OF reachable.step [OF reachable.start daemon_step.stop_set]])
qed

theorem stop_ends_witness:
  "\<exists>n \<le> 5. \<forall>outcomes. length outcomes = n \<longrightarrow>
     (\<exists>d'. run_thread outcomes stopping_daemon = Some d' \<and> dm_place d' = Finished \<and> dm_count d' \<le> dm_count stopping_daemon + 1)"
  by (rule stop_ends [OF stopping_reachable]) (simp_all add: stopping_daemon_def)

end
