(* ===== verification/FlowReconstruct.thy ===== *)
theory FlowReconstruct
  imports Complex_Main Prelude
begin

text \<open>
  Reconstruction of a flow from packet observations, \<open>services/flow_reconstruct.py\<close>: the links on
  which packets of a flow were seen, ordered by their TTL and oriented from high to low. A \<open>KeyError\<close>
  for a link that the graph does not have is an error value. The order in which a set of names is
  iterated is a parameter \<open>iter\<close>; weights are exact fractions.
\<close>

section \<open>Graph\<close>

record link_ref =
  lr_id :: string
  lr_node_a :: string
  lr_node_b :: string
  lr_iface_a :: string
  lr_iface_b :: string

record topo_graph =
  tg_given_nodes :: "string set"
  tg_links :: "link_ref list"

definition tg_nodes :: "topo_graph \<Rightarrow> string set" where
  "tg_nodes g = tg_given_nodes g \<union> set (concat (map (\<lambda>l. [lr_node_a l, lr_node_b l]) (tg_links g)))"

definition by_id :: "topo_graph \<Rightarrow> (string, link_ref) dict" where
  "by_id g = dict_of (map (\<lambda>l. (lr_id l, l)) (tg_links g))"

text \<open>\<open>_adj\<close>: a link from a node to itself is there twice.\<close>

definition adj :: "topo_graph \<Rightarrow> string \<Rightarrow> link_ref list" where
  "adj g node = concat (map (\<lambda>l. (if lr_node_a l = node then [l] else []) @ (if lr_node_b l = node then [l] else [])) (tg_links g))"

definition link_endpoints :: "topo_graph \<Rightarrow> string \<Rightarrow> string + string \<times> string" where
  "link_endpoints g link_id =
     (case dict_get (by_id g) link_id of None \<Rightarrow> Inl link_id | Some l \<Rightarrow> Inr (lr_node_a l, lr_node_b l))"

definition other_end :: "string \<Rightarrow> link_ref \<Rightarrow> string" where
  "other_end node l = (if lr_node_a l = node then lr_node_b l else lr_node_a l)"

definition neighbors :: "topo_graph \<Rightarrow> string \<Rightarrow> string set" where
  "neighbors g node = set (map (other_end node) (adj g node))"

text \<open>The body of the breadth-first search: a link of the node that is taken from the queue.\<close>

definition visit_link ::
  "string \<Rightarrow> link_ref \<Rightarrow> string set \<times> string list \<times> string list \<Rightarrow> string set \<times> string list \<times> string list" where
  "visit_link node l st =
     (case st of (seen, queue, link_ids) \<Rightarrow>
        let link_ids = (if lr_id l \<in> set link_ids then link_ids else link_ids @ [lr_id l]); other = other_end node l
        in if other \<in> seen then (seen, queue, link_ids) else (insert other seen, queue @ [other], link_ids))"

definition unseen :: "topo_graph \<Rightarrow> string set \<Rightarrow> nat" where
  "unseen g seen = card (set (concat (map (\<lambda>l. [lr_node_a l, lr_node_b l]) (tg_links g))) - seen)"

lemma visit_link_measure:
  assumes "l \<in> set (tg_links g)" "visit_link node l (seen, queue, ids) = (seen', queue', ids')"
  shows "2 * unseen g seen' + length queue' \<le> 2 * unseen g seen + length queue"
proof (cases "other_end node l \<in> seen")
  case False
  let ?N = "set (concat (map (\<lambda>l. [lr_node_a l, lr_node_b l]) (tg_links g)))"
  have "other_end node l \<in> ?N - seen" using assms(1) False by (auto simp: other_end_def)
  then have "card (?N - insert (other_end node l) seen) < card (?N - seen)" by (intro psubset_card_mono) auto
  then show ?thesis using assms(2) False by (auto simp: visit_link_def Let_def unseen_def)
qed (use assms(2) in \<open>auto simp: visit_link_def Let_def\<close>)

lemma adj_links: "set (adj g node) = {l \<in> set (tg_links g). lr_node_a l = node \<or> lr_node_b l = node}"
  by (auto simp: adj_def)

lemma visit_fold_measure:
  "set ls \<subseteq> set (tg_links g) \<Longrightarrow> fold (visit_link node) ls (seen, queue, ids) = (seen', queue', ids') \<Longrightarrow>
     2 * unseen g seen' + length queue' \<le> 2 * unseen g seen + length queue"
proof (induction ls arbitrary: seen queue ids)
  case (Cons l ls)
  obtain s q i where v: "visit_link node l (seen, queue, ids) = (s, q, i)" by (metis prod_cases3)
  have "2 * unseen g s + length q \<le> 2 * unseen g seen + length queue"
    using Cons.prems(1) by (intro visit_link_measure [OF _ v]) simp
  moreover have "2 * unseen g seen' + length queue' \<le> 2 * unseen g s + length q"
    using Cons.IH [of s q i] Cons.prems v by simp
  ultimately show ?case by simp
qed simp

function bfs :: "topo_graph \<Rightarrow> string set \<Rightarrow> string list \<Rightarrow> string list \<Rightarrow> string list" where
  "bfs g seen [] link_ids = link_ids"
| "bfs g seen (node # queue) link_ids =
     (case fold (visit_link node) (adj g node) (seen, queue, link_ids) of (seen', queue', link_ids') \<Rightarrow> bfs g seen' queue' link_ids')"
  by pat_completeness auto
termination
proof (relation "measure (\<lambda>(g, seen, queue, ids). 2 * unseen g seen + length queue)")
  fix g seen node queue ids seen' y queue' ids'
  assume "(seen', y) = fold (visit_link node) (adj g node) (seen, queue, ids)" "(queue', ids') = y"
  then have "fold (visit_link node) (adj g node) (seen, queue, ids) = (seen', queue', ids')" by simp
  then show "((g, seen', queue', ids'), g, seen, node # queue, ids) \<in> measure (\<lambda>(g, seen, queue, ids). 2 * unseen g seen + length queue)"
    using visit_fold_measure [of "adj g node" g node seen queue ids seen' queue' ids'] by (auto simp: adj_links)
qed simp

definition candidate_links :: "topo_graph \<Rightarrow> string \<Rightarrow> string list" where
  "candidate_links g source = (if source \<notin> tg_nodes g then [] else bfs g {source} [source] [])"

section \<open>Observations and results\<close>

record packet_observation =
  po_link_id :: string
  po_ttl :: int
  po_ts_local :: rat
  po_host :: string
  po_direction :: string
  po_instance_key :: "string option"
  po_five_tuple :: "string \<times> string \<times> string \<times> int option \<times> int option"

record flow_edge =
  fe_link_id :: string
  fe_src_node :: string
  fe_dst_node :: string
  fe_ttl :: int
  fe_weight :: rat
  fe_weight_quality :: string

record flow_layer =
  fl_ttl :: int
  fl_edges :: "flow_edge list"
  fl_state :: string

record flow_segment =
  fs_ttl_high :: int
  fs_ttl_low :: int
  fs_state :: string
  fs_missing_ttl :: "int option"

record flow_path =
  fp_leg :: string
  fp_layers :: "flow_layer list"
  fp_segments :: "flow_segment list"
  fp_classification :: string

record reconstruction_result =
  rr_forward :: flow_path
  rr_backward :: flow_path
  rr_asymmetric :: bool

text \<open>The identity of a packet along its path; \<open>ip_id or 0\<close> is 0 for a missing id.\<close>

definition instance_key ::
  "string \<Rightarrow> int option \<Rightarrow> int option \<Rightarrow> int option \<Rightarrow> int option \<Rightarrow> int option \<Rightarrow> string option \<Rightarrow> string option" where
  "instance_key proto icmp_id icmp_seq tcp_seq payload_len ip_id payload_hash =
     (let proto = str_lower proto
      in if proto \<in> {''icmp'', ''icmp6'', ''icmpv6''} then
           (case (icmp_id, icmp_seq) of
              (Some i, Some s) \<Rightarrow> Some (''icmp:'' @ show_int i @ '':'' @ show_int s)
            | _ \<Rightarrow> None)
         else if proto = ''tcp'' then
           (case tcp_seq of
              None \<Rightarrow> None
            | Some s \<Rightarrow> Some (''tcp:'' @ show_int s @ '':'' @ (case payload_len of Some n \<Rightarrow> show_int n | None \<Rightarrow> [])
                @ '':'' @ show_int (case ip_id of Some i \<Rightarrow> i | None \<Rightarrow> 0)))
         else if proto = ''udp'' then
           (case ip_id of
              Some i \<Rightarrow> if i \<noteq> 0 then Some (''udp:ipid:'' @ show_int i)
                        else (case payload_hash of Some h \<Rightarrow> if h \<noteq> [] then Some (''udp:hash:'' @ h) else None | None \<Rightarrow> None)
            | None \<Rightarrow> (case payload_hash of Some h \<Rightarrow> if h \<noteq> [] then Some (''udp:hash:'' @ h) else None | None \<Rightarrow> None))
         else None)"

section \<open>Orientation\<close>

type_synonym orientation = "(string, string option \<times> string option) dict"

text \<open>\<open>oriented[lid]\<close>; every link of a layer has an entry (\<open>orient_covers\<close> below).\<close>

definition ori :: "orientation \<Rightarrow> string \<Rightarrow> string option \<times> string option" where
  "ori oriented lid = dict_get_or oriented lid (None, None)"

text \<open>The links of a list that touch a node, each oriented away from it.\<close>

fun touching :: "topo_graph \<Rightarrow> string \<Rightarrow> string list \<Rightarrow> string + (string \<times> string \<times> string) list" where
  "touching g node [] = Inr []"
| "touching g node (lid # lids) =
     bindE (link_endpoints g lid) (\<lambda>(a, b).
     bindE (touching g node lids) (\<lambda>ts.
     Inr (if node = a then (lid, a, b) # ts else if node = b then (lid, b, a) # ts else ts)))"

lemma touching_length:
  "touching g node lids = Inr ts \<Longrightarrow> length (filter (\<lambda>l. l \<notin> fst ` set ts) lids) + length ts \<le> length lids"
proof -
  have "length (filter (\<lambda>l. l \<notin> S) lids) + length ts \<le> length lids" if "touching g node lids = Inr ts" "fst ` set ts \<subseteq> S" for S
    using that
  proof (induction lids arbitrary: ts)
    case (Cons lid lids)
    obtain a b us where e: "link_endpoints g lid = Inr (a, b)" "touching g node lids = Inr us"
      "ts = (if node = a then (lid, a, b) # us else if node = b then (lid, b, a) # us else us)"
      using Cons.prems(1) by (auto simp: result_simps)
    have "length (filter (\<lambda>l. l \<notin> S) lids) + length us \<le> length lids"
      using Cons.prems(2) e(3) by (intro Cons.IH [OF e(2)]) (auto split: if_splits)
    then show ?case using e(3) Cons.prems(2) by (auto split: if_splits)
  qed simp
  then show "touching g node lids = Inr ts \<Longrightarrow> length (filter (\<lambda>l. l \<notin> fst ` set ts) lids) + length ts \<le> length lids" by blast
qed

function orient_loop ::
  "topo_graph \<Rightarrow> string list \<Rightarrow> string list \<Rightarrow> orientation \<Rightarrow> string set \<Rightarrow> string + orientation \<times> string list \<times> string set" where
  "orient_loop g [] remaining oriented downstream = Inr (oriented, remaining, downstream)"
| "orient_loop g (node # frontier) remaining oriented downstream =
     (case touching g node remaining of
        Inl e \<Rightarrow> Inl e
      | Inr ts \<Rightarrow> orient_loop g (frontier @ map (\<lambda>(lid, src, dst). dst) ts) (filter (\<lambda>l. l \<notin> fst ` set ts) remaining)
          (fold (\<lambda>(lid, src, dst). dict_set lid (Some src, Some dst)) ts oriented)
          (downstream \<union> set (map (\<lambda>(lid, src, dst). dst) ts)))"
  by pat_completeness auto
termination
proof (relation "measure (\<lambda>(g, frontier, remaining, oriented, downstream). 2 * length remaining + length frontier)")
  fix g node and frontier remaining :: "string list" and oriented downstream ts
  assume "touching g node remaining = Inr ts"
  from touching_length [OF this] show "((g, frontier @ map (\<lambda>(lid, src, dst). dst) ts, filter (\<lambda>l. l \<notin> fst ` set ts) remaining,
       fold (\<lambda>(lid, src, dst). dict_set lid (Some src, Some dst)) ts oriented, downstream \<union> set (map (\<lambda>(lid, src, dst). dst) ts)),
      g, node # frontier, remaining, oriented, downstream)
      \<in> measure (\<lambda>(g, frontier, remaining, oriented, downstream). 2 * length remaining + length frontier)"
    by simp
qed simp

definition orient_same_ttl_links ::
  "(string set \<Rightarrow> string list) \<Rightarrow> topo_graph \<Rightarrow> string list \<Rightarrow> string set \<Rightarrow> string + orientation \<times> string set" where
  "orient_same_ttl_links iter g lids upstream =
     bindE (orient_loop g (iter upstream) (iter (set lids)) [] {}) (\<lambda>(oriented, remaining, downstream).
     Inr (fold (\<lambda>lid. dict_set lid (None, None)) remaining oriented, downstream))"

fun layer_nodes :: "topo_graph \<Rightarrow> string list \<Rightarrow> string + string set" where
  "layer_nodes g [] = Inr {}"
| "layer_nodes g (lid # lids) =
     bindE (link_endpoints g lid) (\<lambda>(a, b). bindE (layer_nodes g lids) (\<lambda>ns. Inr (insert a (insert b ns))))"

definition initial_upstream :: "(int \<times> string list) list \<Rightarrow> topo_graph \<Rightarrow> string \<Rightarrow> string + string set" where
  "initial_upstream run_desc g source_node =
     bindE (layer_nodes g (snd (hd run_desc))) (\<lambda>top_nodes.
     if source_node \<in> top_nodes then Inr {source_node}
     else (case run_desc of
        _ # second # _ \<Rightarrow> bindE (layer_nodes g (snd second)) (\<lambda>second_nodes. Inr (top_nodes - (top_nodes \<inter> second_nodes)))
      | _ \<Rightarrow> Inr {}))"

fun runs_from :: "int list \<Rightarrow> int list \<Rightarrow> int list list" where
  "runs_from current [] = [current]"
| "runs_from current (ttl # ttls) =
     (if List.last current - ttl = 1 then runs_from (current @ [ttl]) ttls else current # runs_from [ttl] ttls)"

definition contiguous_runs :: "int list \<Rightarrow> int list list" where
  "contiguous_runs ttls_desc = runs_from [hd ttls_desc] (tl ttls_desc)"

definition orient_layer ::
  "(string set \<Rightarrow> string list) \<Rightarrow> topo_graph \<Rightarrow> int \<times> string list \<Rightarrow> orientation \<times> string set \<Rightarrow> string + orientation \<times> string set" where
  "orient_layer iter g ttl_lids st =
     (case st of (oriented, upstream) \<Rightarrow>
        bindE (orient_same_ttl_links iter g (snd ttl_lids) upstream) (\<lambda>(layer_oriented, downstream).
        Inr (fold (\<lambda>(k, v). dict_set k v) layer_oriented oriented, if downstream = {} then upstream else downstream)))"

definition orient_run ::
  "(string set \<Rightarrow> string list) \<Rightarrow> topo_graph \<Rightarrow> (int, string list) dict \<Rightarrow> string \<Rightarrow> int list \<Rightarrow> orientation \<Rightarrow> string + orientation" where
  "orient_run iter g layer_links source_node run oriented =
     (let run_desc = map (\<lambda>ttl. (ttl, dict_get_or layer_links ttl [])) run
      in bindE (initial_upstream run_desc g source_node) (\<lambda>upstream.
         bindE (foldE (orient_layer iter g) run_desc (oriented, upstream)) (\<lambda>(oriented, upstream). Inr oriented)))"

definition orient ::
  "(string set \<Rightarrow> string list) \<Rightarrow> topo_graph \<Rightarrow> (int, string list) dict \<Rightarrow> int list \<Rightarrow> string \<Rightarrow> string + orientation" where
  "orient iter g layer_links ttls_desc source_node =
     foldE (orient_run iter g layer_links source_node) (contiguous_runs ttls_desc) []"

section \<open>Layers and segments\<close>

definition srcs :: "string list \<Rightarrow> orientation \<Rightarrow> string set" where
  "srcs lids oriented = set (List.map_filter (\<lambda>lid. fst (ori oriented lid)) lids)"

definition dsts :: "string list \<Rightarrow> orientation \<Rightarrow> string set" where
  "dsts lids oriented = set (List.map_filter (\<lambda>lid. snd (ori oriented lid)) lids)"

definition layer_entry_nodes :: "string list \<Rightarrow> orientation \<Rightarrow> string set" where
  "layer_entry_nodes lids oriented = srcs lids oriented - dsts lids oriented"

definition layer_exit_nodes :: "string list \<Rightarrow> orientation \<Rightarrow> string set" where
  "layer_exit_nodes lids oriented = dsts lids oriented - srcs lids oriented"

definition adjacency_ok :: "string list \<Rightarrow> string list \<Rightarrow> orientation \<Rightarrow> bool" where
  "adjacency_ok hi_lids lo_lids oriented \<longleftrightarrow>
     layer_exit_nodes hi_lids oriented \<noteq> {} \<and> layer_entry_nodes lo_lids oriented \<noteq> {}
     \<and> layer_entry_nodes lo_lids oriented \<subseteq> layer_exit_nodes hi_lids oriented"

definition ttl_layer_is_ecmp :: "string list \<Rightarrow> orientation \<Rightarrow> bool" where
  "ttl_layer_is_ecmp lids oriented =
     (if length lids \<le> 1 \<or> list_ex (\<lambda>lid. fst (ori oriented lid) = None \<or> snd (ori oriented lid) = None) lids then False
      else
        (let ss = List.map_filter (\<lambda>lid. fst (ori oriented lid)) lids; ds = List.map_filter (\<lambda>lid. snd (ori oriented lid)) lids;
             nodes = set ss \<union> set ds;
             sources = {n \<in> nodes. count_list ds n = 0 \<and> 0 < count_list ss n};
             sinks = {n \<in> nodes. count_list ss n = 0 \<and> 0 < count_list ds n}
         in if card sources \<noteq> 1 \<or> card sinks \<noteq> 1 then True
            else \<exists>n \<in> nodes. 1 < count_list ds n \<or> 1 < count_list ss n))"

definition segment_between :: "(int, string list) dict \<Rightarrow> orientation \<Rightarrow> int \<times> int \<Rightarrow> flow_segment" where
  "segment_between layer_links oriented hl =
     (case hl of (hi, lo) \<Rightarrow>
        let hi_lids = dict_get_or layer_links hi []; lo_lids = dict_get_or layer_links lo []
        in if hi - lo > 1 then \<lparr>fs_ttl_high = hi, fs_ttl_low = lo, fs_state = ''unresolved'', fs_missing_ttl = Some (hi - 1)\<rparr>
           else if \<not> adjacency_ok hi_lids lo_lids oriented
           then \<lparr>fs_ttl_high = hi, fs_ttl_low = lo, fs_state = ''unresolved'', fs_missing_ttl = None\<rparr>
           else \<lparr>fs_ttl_high = hi, fs_ttl_low = lo,
                  fs_state = (if ttl_layer_is_ecmp hi_lids oriented \<or> ttl_layer_is_ecmp lo_lids oriented then ''ecmp'' else ''determinate''),
                  fs_missing_ttl = None\<rparr>)"

definition segments :: "(int, string list) dict \<Rightarrow> int list \<Rightarrow> orientation \<Rightarrow> flow_segment list" where
  "segments layer_links ttls_desc oriented = map (segment_between layer_links oriented) (zip ttls_desc (tl ttls_desc))"

definition classify :: "flow_layer list \<Rightarrow> flow_segment list \<Rightarrow> bool \<Rightarrow> string" where
  "classify layers segs anchor_ok =
     (if \<not> anchor_ok \<or> list_ex (\<lambda>l. fl_state l = ''unresolved'') layers \<or> list_ex (\<lambda>s. fs_state s = ''unresolved'') segs then ''partial''
      else if list_ex (\<lambda>l. fl_state l = ''ecmp'') layers then ''multipath'' else ''certain'')"

section \<open>Reconstruction\<close>

text \<open>\<open>Counter(ttls).most_common(1)[0][0]\<close>: the most frequent value, of several the one seen first.\<close>

definition most_common :: "int list \<Rightarrow> int" where
  "most_common ttls = (case py_max (count_list ttls) (rev (remdups (rev ttls))) of Some t \<Rightarrow> t | None \<Rightarrow> 0)"

definition obs_by_link :: "packet_observation list \<Rightarrow> (string, packet_observation list) dict" where
  "obs_by_link obs = fold (\<lambda>o1. dict_append (po_link_id o1) o1) obs []"

definition link_ttl :: "packet_observation list \<Rightarrow> (string, int) dict" where
  "link_ttl obs = map (\<lambda>(lid, lobs). (lid, most_common (map po_ttl lobs))) (obs_by_link obs)"

definition layer_links_of :: "packet_observation list \<Rightarrow> (int, string list) dict" where
  "layer_links_of obs = fold (\<lambda>(lid, ttl). dict_append ttl lid) (link_ttl obs) []"

definition ttls_of :: "packet_observation list \<Rightarrow> int list" where
  "ttls_of obs = rev (sort (dict_keys (layer_links_of obs)))"

definition keyed :: "packet_observation list \<Rightarrow> bool" where
  "keyed obs \<longleftrightarrow> list_all (\<lambda>o1. po_instance_key o1 \<noteq> None) obs"

definition count_of :: "packet_observation list \<Rightarrow> string \<Rightarrow> nat" where
  "count_of obs lid =
     (let lobs = dict_get_or (obs_by_link obs) lid []
      in if keyed obs then card (set (map po_instance_key lobs)) else length lobs)"

text \<open>\<open>x or 1\<close>.\<close>

definition total_of :: "packet_observation list \<Rightarrow> nat" where
  "total_of obs =
     (let n = (if keyed obs then card (set (map po_instance_key obs))
               else sum_list (map (count_of obs) (dict_get_or (layer_links_of obs) (hd (ttls_of obs)) [])))
      in if n = 0 then 1 else n)"

definition edge_of :: "packet_observation list \<Rightarrow> orientation \<Rightarrow> int \<Rightarrow> string \<Rightarrow> flow_edge" where
  "edge_of obs oriented ttl lid =
     \<lparr>fe_link_id = lid,
      fe_src_node = (case fst (ori oriented lid) of Some n \<Rightarrow> n | None \<Rightarrow> []),
      fe_dst_node = (case snd (ori oriented lid) of Some n \<Rightarrow> n | None \<Rightarrow> []),
      fe_ttl = ttl, fe_weight = of_nat (count_of obs lid) / of_nat (total_of obs),
      fe_weight_quality = (if keyed obs then ''joint'' else ''marginal'')\<rparr>"

definition layer_of :: "packet_observation list \<Rightarrow> orientation \<Rightarrow> int \<Rightarrow> flow_layer" where
  "layer_of obs oriented ttl =
     (let lids = dict_get_or (layer_links_of obs) ttl []
      in \<lparr>fl_ttl = ttl, fl_edges = map (edge_of obs oriented ttl) lids,
          fl_state = (if list_ex (\<lambda>lid. fst (ori oriented lid) = None) lids then ''unresolved''
                      else if ttl_layer_is_ecmp lids oriented then ''ecmp'' else ''determinate'')\<rparr>)"

text \<open>\<open>any(source_node in graph.link_endpoints(lid) for lid in lids)\<close> stops at the first hit.\<close>

fun anchored :: "topo_graph \<Rightarrow> string \<Rightarrow> string list \<Rightarrow> string + bool" where
  "anchored g source_node [] = Inr False"
| "anchored g source_node (lid # lids) =
     bindE (link_endpoints g lid) (\<lambda>(a, b). if source_node = a \<or> source_node = b then Inr True else anchored g source_node lids)"

definition reconstruct_leg ::
  "(string set \<Rightarrow> string list) \<Rightarrow> topo_graph \<Rightarrow> packet_observation list \<Rightarrow> string \<Rightarrow> string \<Rightarrow> string + flow_path" where
  "reconstruct_leg iter g obs leg source_node =
     (if obs = [] then Inr \<lparr>fp_leg = leg, fp_layers = [], fp_segments = [], fp_classification = ''certain''\<rparr>
      else
        (let layer_links = layer_links_of obs; ttls_desc = ttls_of obs
         in bindE (orient iter g layer_links ttls_desc source_node) (\<lambda>oriented.
            let layers = map (layer_of obs oriented) ttls_desc;
                segs = segments layer_links ttls_desc oriented;
                anchor_ttl = (if leg = ''forward'' then hd ttls_desc else List.last ttls_desc)
            in bindE (anchored g source_node (dict_get_or layer_links anchor_ttl [])) (\<lambda>anchor_ok.
               Inr \<lparr>fp_leg = leg, fp_layers = layers, fp_segments = segs, fp_classification = classify layers segs anchor_ok\<rparr>))))"

definition edge_map :: "flow_path \<Rightarrow> (string, string \<times> string) dict" where
  "edge_map path = dict_of (concat (map (\<lambda>layer. map (\<lambda>e. (fe_link_id e, fe_src_node e, fe_dst_node e)) (fl_edges layer)) (fp_layers path)))"

definition is_asymmetric :: "flow_path \<Rightarrow> flow_path \<Rightarrow> bool" where
  "is_asymmetric forward backward =
     (let fwd = edge_map forward; bwd = edge_map backward
      in if fwd = [] \<or> bwd = [] then False
         else if set (dict_keys fwd) \<noteq> set (dict_keys bwd) then True
         else list_ex (\<lambda>(lid, src, dst). dict_get bwd lid \<noteq> Some (dst, src)) fwd)"

definition reconstruct ::
  "(string set \<Rightarrow> string list) \<Rightarrow> topo_graph \<Rightarrow> packet_observation list \<Rightarrow> string \<Rightarrow> string + reconstruction_result" where
  "reconstruct iter g observations source_node =
     bindE (reconstruct_leg iter g (filter (\<lambda>o1. po_direction o1 = ''forward'') observations) ''forward'' source_node) (\<lambda>forward.
     bindE (reconstruct_leg iter g (filter (\<lambda>o1. po_direction o1 = ''return'') observations) ''return'' source_node) (\<lambda>backward.
     Inr \<lparr>rr_forward = forward, rr_backward = backward, rr_asymmetric = is_asymmetric forward backward\<rparr>))"

section \<open>Candidate links\<close>

text \<open>The nodes that are connected to a source.\<close>

inductive reach :: "topo_graph \<Rightarrow> string \<Rightarrow> string \<Rightarrow> bool" for g source where
  reach_source: "reach g source source"
| reach_link: "reach g source n \<Longrightarrow> l \<in> set (adj g n) \<Longrightarrow> reach g source (other_end n l)"

lemma visit_fold:
  "fold (visit_link n) ls (seen, queue, ids) = (seen', queue', ids') \<Longrightarrow>
     seen' = seen \<union> other_end n ` set ls \<and> set queue' = set queue \<union> (other_end n ` set ls - seen)
     \<and> set ids' = set ids \<union> lr_id ` set ls \<and> (distinct ids \<longrightarrow> distinct ids')"
proof (induction ls arbitrary: seen queue ids)
  case (Cons l ls)
  obtain s q i where v: "visit_link n l (seen, queue, ids) = (s, q, i)" by (metis prod_cases3)
  then have 1: "s = insert (other_end n l) seen" "set q = set queue \<union> ({other_end n l} - seen)" "set i = insert (lr_id l) (set ids)"
    "distinct ids \<longrightarrow> distinct i"
    by (auto simp: visit_link_def Let_def split: if_splits)
  have "fold (visit_link n) ls (s, q, i) = (seen', queue', ids')" using Cons.prems v by simp
  from Cons.IH [OF this] show ?case using 1 by auto
qed simp

text \<open>The invariant of the search, for the nodes that were taken from the queue.\<close>

definition bfs_inv :: "topo_graph \<Rightarrow> string \<Rightarrow> string set \<Rightarrow> string set \<Rightarrow> string list \<Rightarrow> string list \<Rightarrow> bool" where
  "bfs_inv g source done_nodes seen queue ids \<longleftrightarrow>
     source \<in> seen \<and> seen = done_nodes \<union> set queue \<and> (\<forall>n \<in> seen. reach g source n)
     \<and> (\<forall>n \<in> done_nodes. other_end n ` set (adj g n) \<subseteq> seen)
     \<and> set ids = lr_id ` (\<Union>n \<in> done_nodes. set (adj g n)) \<and> distinct ids"

lemma bfs_inv_step:
  assumes "bfs_inv g source P seen (node # queue) ids" "fold (visit_link node) (adj g node) (seen, queue, ids) = (seen', queue', ids')"
  shows "bfs_inv g source (insert node P) seen' queue' ids'"
proof -
  note i = assms(1) [unfolded bfs_inv_def]
  have "reach g source n" if "n \<in> other_end node ` set (adj g node)" for n
    using i that reach_link by auto
  then show ?thesis
    using visit_fold [OF assms(2)] i unfolding bfs_inv_def by (intro conjI) (auto 0 3)
qed

lemma bfs_closed:
  assumes "bfs_inv g source P seen [] ids"
  shows "n \<in> P \<longleftrightarrow> reach g source n"
proof
  assume "reach g source n"
  then show "n \<in> P"
  proof (induction rule: reach.induct)
    case reach_source
    then show ?case using assms by (auto simp: bfs_inv_def)
  next
    case (reach_link n l)
    then have "other_end n l \<in> other_end n ` set (adj g n)" by blast
    then show ?case using assms reach_link.IH unfolding bfs_inv_def by auto
  qed
qed (use assms in \<open>auto simp: bfs_inv_def\<close>)

lemma bfs_correct:
  "bfs_inv g source P seen queue ids \<Longrightarrow>
     set (bfs g seen queue ids) = lr_id ` (\<Union>n \<in> {n. reach g source n}. set (adj g n)) \<and> distinct (bfs g seen queue ids)"
proof (induction g seen queue ids arbitrary: P rule: bfs.induct)
  case (1 g seen ids)
  then have "P = {n. reach g source n}" using bfs_closed by blast
  then show ?case using 1 by (auto simp: bfs_inv_def)
next
  case (2 g seen node queue ids)
  obtain seen' queue' ids' where f: "fold (visit_link node) (adj g node) (seen, queue, ids) = (seen', queue', ids')"
    by (metis prod_cases3)
  have "bfs_inv g source (insert node P) seen' queue' ids'" by (rule bfs_inv_step [OF 2(2) f])
  from 2(1) [OF f [symmetric] refl this] show ?case using f by simp
qed

text \<open>
  The candidate links of a source are exactly the links with an end that is connected to it,
  each of them once, and none for a name that is not a node. The search ends on every graph,
  cycles and parallel links included.
\<close>

theorem candidate_links_reachable:
  "distinct (candidate_links g source)
   \<and> set (candidate_links g source) =
     (if source \<in> tg_nodes g then lr_id ` {l \<in> set (tg_links g). reach g source (lr_node_a l) \<or> reach g source (lr_node_b l)} else {})"
proof (cases "source \<in> tg_nodes g")
  case True
  have "bfs_inv g source {} {source} [source] []" by (simp add: bfs_inv_def reach_source)
  from bfs_correct [OF this] have
    "set (candidate_links g source) = lr_id ` (\<Union>n \<in> {n. reach g source n}. set (adj g n))" "distinct (candidate_links g source)"
    using True by (simp_all add: candidate_links_def)
  moreover have "(\<Union>n \<in> {n. reach g source n}. set (adj g n))
      = {l \<in> set (tg_links g). reach g source (lr_node_a l) \<or> reach g source (lr_node_b l)}"
    by (auto simp: adj_links)
  ultimately show ?thesis using True by simp
qed (simp add: candidate_links_def)

section \<open>Bins\<close>

lemma group_get:
  "dict_get_or (fold (\<lambda>x. dict_append (k x) (v x)) xs d) key [] = dict_get_or d key [] @ map v (filter (\<lambda>x. k x = key) xs)"
  by (induction xs arbitrary: d) (auto simp: dict_simps)

lemma dict_append_key_set: "fst ` set (dict_append k x d) = insert k (fst ` set d)"
  by (simp add: dict_append_def dict_keys_set)

lemma group_keys: "fst ` set (fold (\<lambda>x. dict_append (k x) (v x)) xs d) = fst ` set d \<union> k ` set xs"
  by (induction xs arbitrary: d) (auto simp: dict_append_key_set)

lemma group_ok: "dict_ok d \<Longrightarrow> dict_ok (fold (\<lambda>x. dict_append (k x) (v x)) xs d)"
  by (induction xs arbitrary: d) (auto simp: dict_append_ok)

lemma obs_by_link_get: "dict_get_or (obs_by_link obs) lid [] = filter (\<lambda>o1. po_link_id o1 = lid) obs"
  using group_get [of po_link_id "\<lambda>x. x" obs "[]" lid] by (simp add: obs_by_link_def dict_get_or_def)

lemma obs_by_link_keys: "fst ` set (obs_by_link obs) = po_link_id ` set obs" "dict_ok (obs_by_link obs)"
  using group_keys [of po_link_id "\<lambda>x. x" obs "[]"] group_ok [of "[]" po_link_id "\<lambda>x. x" obs] by (simp_all add: obs_by_link_def)

text \<open>The TTL of a link is the most frequent one of its observations.\<close>

definition ttl_of :: "packet_observation list \<Rightarrow> string \<Rightarrow> int" where
  "ttl_of obs lid = most_common (map po_ttl (filter (\<lambda>o1. po_link_id o1 = lid) obs))"

lemma link_ttl_eq: "link_ttl obs = map (\<lambda>lid. (lid, ttl_of obs lid)) (dict_keys (obs_by_link obs))"
proof -
  have "lobs = filter (\<lambda>o1. po_link_id o1 = lid) obs" if "(lid, lobs) \<in> set (obs_by_link obs)" for lid lobs
    using obs_by_link_get [of obs lid] map_of_is_SomeI [OF obs_by_link_keys(2) that] by (simp add: dict_get_or_def)
  then show ?thesis by (auto simp: link_ttl_def ttl_of_def comp_def)
qed

definition links_at :: "packet_observation list \<Rightarrow> int \<Rightarrow> string list" where
  "links_at obs ttl = filter (\<lambda>lid. ttl_of obs lid = ttl) (dict_keys (obs_by_link obs))"

lemma layer_links_get: "dict_get_or (layer_links_of obs) ttl [] = links_at obs ttl"
proof -
  have f: "(\<lambda>(lid, ttl). dict_append ttl lid) = (\<lambda>x. dict_append (snd x) (fst x))" by auto
  show ?thesis
    using group_get [of snd fst "link_ttl obs" "[]" ttl]
    by (simp add: layer_links_of_def f links_at_def dict_get_or_def link_ttl_eq filter_map comp_def)
qed

lemma layer_links_keys:
  "fst ` set (layer_links_of obs) = ttl_of obs ` po_link_id ` set obs" "dict_ok (layer_links_of obs)"
proof -
  have f: "(\<lambda>(lid, ttl). dict_append ttl lid) = (\<lambda>x. dict_append (snd x) (fst x))" by auto
  show "fst ` set (layer_links_of obs) = ttl_of obs ` po_link_id ` set obs"
  proof -
    have "snd ` set (link_ttl obs) = ttl_of obs ` fst ` set (obs_by_link obs)" by (simp add: link_ttl_eq image_image)
    then show ?thesis
      using group_keys [of snd fst "link_ttl obs" "[]"] unfolding obs_by_link_keys(1) layer_links_of_def f by simp
  qed
  show "dict_ok (layer_links_of obs)"
    using group_ok [of "[]" snd fst "link_ttl obs"] by (simp add: layer_links_of_def f)
qed

lemma ttls_of_set: "set (ttls_of obs) = ttl_of obs ` po_link_id ` set obs"
  using layer_links_keys(1) [of obs] by (simp add: ttls_of_def)

lemma ttls_of_desc: "sorted_wrt (>) (ttls_of obs)"
proof -
  have "sorted_wrt (<) (sort (dict_keys (layer_links_of obs)))"
    using layer_links_keys(2) [of obs] by (simp add: strict_sorted_iff)
  then show ?thesis by (simp add: ttls_of_def sorted_wrt_rev)
qed

lemma ttls_of_distinct: "distinct (ttls_of obs)"
  using layer_links_keys(2) [of obs] by (simp add: ttls_of_def)

lemma links_at_set: "set (links_at obs ttl) = {lid \<in> po_link_id ` set obs. ttl_of obs lid = ttl}"
  using obs_by_link_keys(1) [of obs] by (auto simp: links_at_def)

lemma links_at_all:
  "distinct (concat (map (links_at obs) (ttls_of obs))) \<and> set (concat (map (links_at obs) (ttls_of obs))) = po_link_id ` set obs"
proof -
  have "distinct (concat (map (links_at obs) ts))" if "distinct ts" for ts
    using that
  proof (induction ts)
    case (Cons t ts)
    then show ?case using obs_by_link_keys(2) [of obs] by (auto simp: links_at_set) (simp add: links_at_def)
  qed simp
  then show ?thesis using ttls_of_distinct by (auto simp: links_at_set ttls_of_set)
qed

lemma most_common_mode:
  assumes "ttls \<noteq> []"
  shows "most_common ttls \<in> set ttls" "count_list ttls t \<le> count_list ttls (most_common ttls)"
proof -
  let ?xs = "rev (remdups (rev ttls))"
  obtain m where m: "py_max (count_list ttls) ?xs = Some m" using assms by (cases "py_max (count_list ttls) ?xs") auto
  then show "most_common ttls \<in> set ttls" using py_max_mem [OF m] by (simp add: most_common_def)
  show "count_list ttls t \<le> count_list ttls (most_common ttls)"
  proof (cases "t \<in> set ttls")
    case True
    then show ?thesis using py_max_ge [OF m, of t] m by (simp add: most_common_def)
  qed simp
qed

section \<open>Orientation: lemmas\<close>

text \<open>Every entry is unresolved or follows the link in one of its two directions.\<close>

definition along :: "topo_graph \<Rightarrow> string \<Rightarrow> string option \<times> string option \<Rightarrow> bool" where
  "along g lid v \<longleftrightarrow> v = (None, None)
     \<or> (\<exists>a b. link_endpoints g lid = Inr (a, b) \<and> (v = (Some a, Some b) \<or> v = (Some b, Some a)))"

definition sound_ori :: "topo_graph \<Rightarrow> orientation \<Rightarrow> bool" where
  "sound_ori g oriented \<longleftrightarrow> (\<forall>(lid, v) \<in> set oriented. along g lid v)"

lemma sound_set: "sound_ori g oriented \<Longrightarrow> along g lid v \<Longrightarrow> sound_ori g (dict_set lid v oriented)"
  unfolding sound_ori_def by (induction oriented) (auto split: if_splits)

lemma sound_ori_get: "sound_ori g oriented \<Longrightarrow> along g lid (ori oriented lid)"
  by (auto simp: sound_ori_def ori_def dict_get_or_def along_def split: option.splits dest!: map_of_SomeD)

lemma touching_sound:
  "touching g node lids = Inr ts \<Longrightarrow> (lid, src, dst) \<in> set ts \<Longrightarrow> lid \<in> set lids \<and> along g lid (Some src, Some dst)"
proof (induction lids arbitrary: ts)
  case (Cons l lids)
  then show ?case by (fastforce simp: result_simps along_def split: if_splits)
qed simp

lemma fold_set_keys: "fst ` set (fold (\<lambda>x. dict_set (k x) (v x)) xs d) = fst ` set d \<union> k ` set xs"
  by (induction xs arbitrary: d) (auto simp: dict_keys_set)

lemma fold_set_sound:
  "sound_ori g d \<Longrightarrow> (\<And>x. x \<in> set xs \<Longrightarrow> along g (k x) (v x)) \<Longrightarrow> sound_ori g (fold (\<lambda>x. dict_set (k x) (v x)) xs d)"
  by (induction xs arbitrary: d) (auto intro: sound_set)

lemma triple_fold: "(\<lambda>(lid, src, dst). dict_set lid (Some src, Some dst)) = (\<lambda>x. dict_set (fst x) (Some (fst (snd x)), Some (snd (snd x))))"
  by auto

lemma pair_fold: "(\<lambda>(k, v). dict_set k v) = (\<lambda>x. dict_set (fst x) (snd x))"
  by auto

lemma orient_loop_sound:
  "orient_loop g frontier remaining oriented downstream = Inr (o', r', d') \<Longrightarrow> sound_ori g oriented \<Longrightarrow>
     sound_ori g o' \<and> fst ` set o' \<union> set r' = fst ` set oriented \<union> set remaining"
proof (induction g frontier remaining oriented downstream rule: orient_loop.induct)
  case (2 g node frontier remaining oriented downstream)
  then obtain ts where ts: "touching g node remaining = Inr ts" by (auto split: sum.splits)
  let ?o = "fold (\<lambda>(lid, src, dst). dict_set lid (Some src, Some dst)) ts oriented"
  have "sound_ori g ?o"
    unfolding triple_fold using "2.prems"(2) touching_sound [OF ts] by (intro fold_set_sound) auto
  moreover have "fst ` set ?o = fst ` set oriented \<union> fst ` set ts" unfolding triple_fold by (rule fold_set_keys)
  moreover have "fst ` set ts \<subseteq> set remaining" using touching_sound [OF ts] by fastforce
  ultimately show ?case using "2.IH" [OF ts] "2.prems"(1) ts by auto
qed auto

lemma orient_same_sound:
  assumes "orient_same_ttl_links iter g lids upstream = Inr (o', d')" "iter_ok iter"
  shows "sound_ori g o' \<and> fst ` set o' = set lids"
proof -
  obtain o1 r where l: "orient_loop g (iter upstream) (iter (set lids)) [] {} = Inr (o1, r, d')"
    "o' = fold (\<lambda>lid. dict_set lid (None, None)) r o1"
    using assms(1) by (auto simp: orient_same_ttl_links_def result_simps)
  have "sound_ori g o1 \<and> fst ` set o1 \<union> set r = set lids"
    using orient_loop_sound [OF l(1)] iter_set [OF assms(2), of "set lids"] by (simp add: sound_ori_def)
  then show ?thesis
    using fold_set_sound [of g o1 r "\<lambda>x. x" "\<lambda>_. (None, None)"] fold_set_keys [of "\<lambda>x. x" "\<lambda>_. (None, None)" r o1] l(2)
    by (simp add: along_def)
qed

lemma foldE_Cons: "foldE f (x # xs) s = Inr s' \<longleftrightarrow> (\<exists>t. f x s = Inr t \<and> foldE f xs t = Inr s')"
  by (cases "f x s") auto

lemma orient_layer_Inr:
  "orient_layer iter g r (oriented, up) = Inr st \<longleftrightarrow>
     (\<exists>o1 d1. orient_same_ttl_links iter g (snd r) up = Inr (o1, d1)
        \<and> st = (fold (\<lambda>(k, v). dict_set k v) o1 oriented, if d1 = {} then up else d1))"
  by (cases "orient_same_ttl_links iter g (snd r) up") (simp, auto simp: orient_layer_def split: prod.splits)

lemma orient_run_Inr:
  "orient_run iter g ll source run oriented = Inr o2 \<longleftrightarrow>
     (\<exists>up up'. initial_upstream (map (\<lambda>t. (t, dict_get_or ll t [])) run) g source = Inr up
        \<and> foldE (orient_layer iter g) (map (\<lambda>t. (t, dict_get_or ll t [])) run) (oriented, up) = Inr (o2, up'))"
proof -
  have "(bindE r (\<lambda>(oriented, upstream). Inr oriented) = Inr o2) \<longleftrightarrow> (\<exists>up'. r = Inr (o2, up'))" for r :: "string + orientation \<times> string set"
    by (cases r) auto
  then show ?thesis unfolding orient_run_def Let_def bindE_eq_Inr by auto
qed

lemma orient_layers_sound:
  "foldE (orient_layer iter g) run_desc (oriented, up) = Inr (o', up') \<Longrightarrow> iter_ok iter \<Longrightarrow> sound_ori g oriented \<Longrightarrow>
     sound_ori g o' \<and> fst ` set o' = fst ` set oriented \<union> set (concat (map snd run_desc))"
proof (induction run_desc arbitrary: oriented up)
  case (Cons r rs)
  obtain o1 d1 where s: "orient_same_ttl_links iter g (snd r) up = Inr (o1, d1)"
    and f: "foldE (orient_layer iter g) rs (fold (\<lambda>(k, v). dict_set k v) o1 oriented, if d1 = {} then up else d1) = Inr (o', up')"
    using Cons.prems(1) unfolding foldE_Cons orient_layer_Inr by auto
  note o1 = orient_same_sound [OF s Cons.prems(2)]
  have "sound_ori g (fold (\<lambda>(k, v). dict_set k v) o1 oriented)"
    unfolding pair_fold using Cons.prems(3) o1 by (intro fold_set_sound) (auto simp: sound_ori_def)
  from Cons.IH [OF f Cons.prems(2) this] show ?case
    using o1 unfolding pair_fold fold_set_keys by auto
qed simp

lemma runs_from_concat: "concat (runs_from current ttls) = current @ ttls"
  by (induction current ttls rule: runs_from.induct) auto

lemma orient_covers:
  assumes "orient iter g ll ttls source = Inr oriented" "iter_ok iter" "ttls \<noteq> []"
  shows "sound_ori g oriented \<and> fst ` set oriented = set (concat (map (\<lambda>t. dict_get_or ll t []) ttls))"
proof -
  have "sound_ori g o2 \<and> fst ` set o2 = fst ` set o1 \<union> set (concat (map (\<lambda>t. dict_get_or ll t []) (concat runs)))"
    if "foldE (orient_run iter g ll source) runs o1 = Inr o2" "sound_ori g o1" for runs o1 o2
    using that
  proof (induction runs arbitrary: o1)
    case (Cons r rs)
    obtain up up' om where f: "foldE (orient_layer iter g) (map (\<lambda>t. (t, dict_get_or ll t [])) r) (o1, up) = Inr (om, up')"
      "foldE (orient_run iter g ll source) rs om = Inr o2"
      using Cons.prems(1) unfolding foldE_Cons orient_run_Inr by auto
    show ?case using orient_layers_sound [OF f(1) assms(2) Cons.prems(2)] Cons.IH [OF f(2)] by (auto simp: comp_def)
  qed simp
  from this [of "contiguous_runs ttls" "[]" oriented] show ?thesis
    using assms(1,3) runs_from_concat [of "[hd ttls]" "tl ttls"] by (simp add: orient_def contiguous_runs_def sound_ori_def)
qed

section \<open>What a reconstruction says\<close>

definition edge_ok :: "topo_graph \<Rightarrow> packet_observation list \<Rightarrow> flow_layer \<Rightarrow> flow_edge \<Rightarrow> bool" where
  "edge_ok g obs layer e \<longleftrightarrow>
     fe_ttl e = fl_ttl layer
     \<and> (\<forall>t. count_list (map po_ttl (filter (\<lambda>o1. po_link_id o1 = fe_link_id e) obs)) t
           \<le> count_list (map po_ttl (filter (\<lambda>o1. po_link_id o1 = fe_link_id e) obs)) (fe_ttl e))
     \<and> (link_endpoints g (fe_link_id e) = Inr (fe_src_node e, fe_dst_node e)
        \<or> link_endpoints g (fe_link_id e) = Inr (fe_dst_node e, fe_src_node e)
        \<or> fl_state layer = ''unresolved'' \<and> fe_src_node e = [] \<and> fe_dst_node e = [])
     \<and> 0 < fe_weight e \<and> (keyed obs \<longrightarrow> fe_weight e \<le> 1)"

lemma count_of_pos: "lid \<in> po_link_id ` set obs \<Longrightarrow> 0 < count_of obs lid"
  by (auto simp: count_of_def Let_def obs_by_link_get card_gt_0_iff filter_empty_conv)

lemma total_of_pos: "0 < total_of obs"
  by (simp add: total_of_def Let_def)

lemma count_le_total: "keyed obs \<Longrightarrow> count_of obs lid \<le> total_of obs"
proof -
  assume k: "keyed obs"
  have "card (set (map po_instance_key (filter (\<lambda>o1. po_link_id o1 = lid) obs))) \<le> card (set (map po_instance_key obs))"
    by (intro card_mono) auto
  then show ?thesis using k by (simp add: count_of_def total_of_def Let_def obs_by_link_get)
qed

lemma layer_edges:
  assumes "sound_ori g oriented" "ttl \<in> set (ttls_of obs)" "e \<in> set (fl_edges (layer_of obs oriented ttl))"
  shows "edge_ok g obs (layer_of obs oriented ttl) e"
proof -
  obtain lid where lid: "lid \<in> set (links_at obs ttl)" "e = edge_of obs oriented ttl lid"
    using assms(3) by (auto simp: layer_of_def Let_def layer_links_get)
  have m: "lid \<in> po_link_id ` set obs" "ttl = ttl_of obs lid" using lid(1) by (auto simp: links_at_set)
  then have ne: "map po_ttl (filter (\<lambda>o1. po_link_id o1 = lid) obs) \<noteq> []" by (auto simp: filter_empty_conv)
  have a: "along g lid (ori oriented lid)" using assms(1) by (rule sound_ori_get)
  have s: "fl_state (layer_of obs oriented ttl) = ''unresolved''" if "ori oriented lid = (None, None)"
    using lid(1) that by (auto simp: layer_of_def Let_def layer_links_get list_ex_iff intro!: bexI [of _ lid])
  have t: "fl_ttl (layer_of obs oriented ttl) = ttl" by (simp add: layer_of_def Let_def)
  show ?thesis
    using a s t most_common_mode(2) [OF ne] count_of_pos [OF m(1)] total_of_pos [of obs] count_le_total [of obs lid]
    by (auto simp: edge_ok_def lid(2) edge_of_def along_def m(2) ttl_of_def)
qed

lemma classify_certain:
  "classify layers segs anchor = ''certain'' \<Longrightarrow> anchor \<and> (\<forall>s \<in> set segs. fs_state s \<noteq> ''unresolved'')"
  by (auto simp: classify_def list_ex_iff split: if_splits)

text \<open>
  C23: the layers of a leg go down strictly in TTL and have every link on which the leg was seen
  exactly once. Each edge has the TTL of its layer, which is one that no other occurs more often
  than among the observations of its link; it follows its link in one of the two directions, or
  it is without nodes in a layer marked as unresolved; its weight is positive, and at most 1 when
  packets are told apart. In a path that is reported as certain no TTL is missing between two
  layers.
\<close>

theorem reconstruct_leg_sound:
  assumes "iter_ok iter" "reconstruct_leg iter g obs leg source = Inr path" "obs \<noteq> []"
  shows "sorted_wrt (>) (map fl_ttl (fp_layers path))
     \<and> distinct (concat (map (\<lambda>layer. map fe_link_id (fl_edges layer)) (fp_layers path)))
     \<and> set (concat (map (\<lambda>layer. map fe_link_id (fl_edges layer)) (fp_layers path))) = po_link_id ` set obs
     \<and> (\<forall>layer \<in> set (fp_layers path). \<forall>e \<in> set (fl_edges layer). edge_ok g obs layer e)
     \<and> (fp_classification path = ''certain'' \<longrightarrow>
          (\<forall>i. Suc i < length (fp_layers path) \<longrightarrow> fl_ttl (fp_layers path ! i) = fl_ttl (fp_layers path ! Suc i) + 1))"
proof -
  let ?ts = "ttls_of obs"
  obtain oriented anchor where r: "orient iter g (layer_links_of obs) ?ts source = Inr oriented"
    "path = \<lparr>fp_leg = leg, fp_layers = map (layer_of obs oriented) ?ts, fp_segments = segments (layer_links_of obs) ?ts oriented,
       fp_classification = classify (map (layer_of obs oriented) ?ts) (segments (layer_links_of obs) ?ts oriented) anchor\<rparr>"
    using assms(2,3) by (auto simp: reconstruct_leg_def Let_def bindE_eq_Inr)
  have ne: "?ts \<noteq> []" using ttls_of_set [of obs] assms(3) by auto
  note s = orient_covers [OF r(1) assms(1) ne, THEN conjunct1]
  have ttl: "fl_ttl (layer_of obs oriented t) = t" for t by (simp add: layer_of_def Let_def)
  have ids: "map fe_link_id (fl_edges (layer_of obs oriented t)) = links_at obs t" for t
    by (simp add: layer_of_def Let_def layer_links_get edge_of_def comp_def)
  have "fl_ttl (layer_of obs oriented (?ts ! i)) = fl_ttl (layer_of obs oriented (?ts ! Suc i)) + 1"
    if c: "fp_classification path = ''certain''" "Suc i < length ?ts" for i
  proof -
    have "(?ts ! i, ?ts ! Suc i) \<in> set (zip ?ts (tl ?ts))"
      using c(2) by (auto simp: in_set_zip nth_tl intro!: exI [of _ i])
    then have "fs_state (segment_between (layer_links_of obs) oriented (?ts ! i, ?ts ! Suc i)) \<noteq> ''unresolved''"
      using classify_certain c(1) by (fastforce simp: r(2) segments_def)
    then have "\<not> 1 < ?ts ! i - ?ts ! Suc i" by (auto simp: segment_between_def Let_def)
    moreover have "?ts ! i > ?ts ! Suc i" using sorted_wrt_nth_less [OF ttls_of_desc, of i "Suc i" obs] c(2) by simp
    ultimately show ?thesis by (simp add: ttl)
  qed
  moreover have "\<forall>layer \<in> set (map (layer_of obs oriented) ?ts). \<forall>e \<in> set (fl_edges layer). edge_ok g obs layer e"
    using layer_edges [OF s] by auto
  ultimately show ?thesis
    using ttls_of_desc [of obs] links_at_all [of obs] by (simp add: r(2) comp_def ttl ids)
qed

section \<open>Flows along a line\<close>

text \<open>
  A line of distinct nodes in the graph, which may have any other links, and observations of a
  leg on exactly its links, with the TTL that decreases by one from link to link.
\<close>

definition line :: "topo_graph \<Rightarrow> string list \<Rightarrow> string list \<Rightarrow> bool" where
  "line g vs ls \<longleftrightarrow> ls \<noteq> [] \<and> length vs = Suc (length ls) \<and> distinct vs \<and> distinct ls
     \<and> (\<forall>i < length ls. link_endpoints g (ls ! i) = Inr (vs ! i, vs ! Suc i) \<or> link_endpoints g (ls ! i) = Inr (vs ! Suc i, vs ! i))"

definition seen_on :: "string list \<Rightarrow> int \<Rightarrow> packet_observation list \<Rightarrow> bool" where
  "seen_on ls t0 obs \<longleftrightarrow> po_link_id ` set obs = set ls
     \<and> (\<forall>o1 \<in> set obs. \<forall>i < length ls. po_link_id o1 = ls ! i \<longrightarrow> po_ttl o1 = t0 - int i)"

lemma distinct_singleton: "distinct xs \<Longrightarrow> set xs = {x} \<Longrightarrow> xs = [x]"
  by (cases xs; cases "tl xs") auto

lemma desc_unique:
  fixes xs ys :: "int list"
  assumes "sorted_wrt (>) xs" "sorted_wrt (>) ys" "set xs = set ys"
  shows "xs = ys"
proof -
  have "sorted_wrt (<) (rev xs)" "sorted_wrt (<) (rev ys)" using assms(1,2) by (simp_all add: sorted_wrt_rev)
  then have "rev xs = rev ys" using assms(3) by (intro strict_sorted_equal) auto
  then show ?thesis by simp
qed

lemma line_ttl: "seen_on ls t0 obs \<Longrightarrow> i < length ls \<Longrightarrow> ttl_of obs (ls ! i) = t0 - int i"
proof -
  assume seen: "seen_on ls t0 obs" and i: "i < length ls"
  then have "ls ! i \<in> po_link_id ` set obs" using seen by (simp add: seen_on_def)
  then have "map po_ttl (filter (\<lambda>o1. po_link_id o1 = ls ! i) obs) \<noteq> []" by (auto simp: filter_empty_conv)
  from most_common_mode(1) [OF this] show ?thesis using seen i by (auto simp: ttl_of_def seen_on_def)
qed

lemma line_links: "seen_on ls t0 obs \<Longrightarrow> i < length ls \<Longrightarrow> links_at obs (t0 - int i) = [ls ! i]"
proof (rule distinct_singleton)
  assume seen: "seen_on ls t0 obs" and i: "i < length ls"
  show "distinct (links_at obs (t0 - int i))" using obs_by_link_keys(2) [of obs] by (simp add: links_at_def)
  show "set (links_at obs (t0 - int i)) = {ls ! i}"
    using seen line_ttl [OF seen] i by (auto simp: links_at_set seen_on_def in_set_conv_nth)
qed

lemma line_ttls:
  assumes "seen_on ls t0 obs"
  shows "ttls_of obs = map (\<lambda>i. t0 - int i) [0..<length ls]"
proof (rule desc_unique [OF ttls_of_desc])
  show "sorted_wrt (>) (map (\<lambda>i. t0 - int i) [0..<length ls])" by (simp add: sorted_wrt_iff_nth_less)
  show "set (ttls_of obs) = set (map (\<lambda>i. t0 - int i) [0..<length ls])"
  proof -
    have "set (ttls_of obs) = ttl_of obs ` set ls" using assms by (simp add: ttls_of_set seen_on_def)
    also have "set ls = (\<lambda>i. ls ! i) ` {0..<length ls}" by (metis list.set_map map_nth set_upt)
    also have "ttl_of obs ` \<dots> = (\<lambda>i. ttl_of obs (ls ! i)) ` {0..<length ls}" by (simp add: image_image)
    also have "\<dots> = (\<lambda>i. t0 - int i) ` {0..<length ls}" using line_ttl [OF assms] by (intro image_cong) auto
    finally show ?thesis by simp
  qed
qed

lemma runs_from_line:
  "List.last current = t0 - int k + 1 \<Longrightarrow> current \<noteq> [] \<Longrightarrow>
     runs_from current (map (\<lambda>i. t0 - int i) [k..<n]) = [current @ map (\<lambda>i. t0 - int i) [k..<n]]"
proof (induction "n - k" arbitrary: current k)
  case (Suc d)
  then have u: "[k..<n] = k # [Suc k..<n]" by (simp add: upt_conv_Cons)
  have "runs_from (current @ [t0 - int k]) (map (\<lambda>i. t0 - int i) [Suc k..<n]) = [(current @ [t0 - int k]) @ map (\<lambda>i. t0 - int i) [Suc k..<n]]"
    using Suc.hyps(2) by (intro Suc.hyps(1)) auto
  then show ?case using Suc.prems(1) by (simp add: u)
qed simp

lemma contiguous_line:
  assumes "0 < n"
  shows "contiguous_runs (map (\<lambda>i. t0 - int i) [0..<n]) = [map (\<lambda>i. t0 - int i) [0..<n]]"
proof -
  have "map (\<lambda>i. t0 - int i) [0..<n] = t0 # map (\<lambda>i. t0 - int i) [1..<n]" using assms by (simp add: upt_conv_Cons)
  then show ?thesis using runs_from_line [of "[t0]" t0 1 n] by (simp add: contiguous_runs_def)
qed

lemma orient_line_link:
  assumes "iter_ok iter" "a \<noteq> b" "link_endpoints g lid = Inr (a, b) \<or> link_endpoints g lid = Inr (b, a)"
  shows "orient_same_ttl_links iter g [lid] {a} = Inr ([(lid, Some a, Some b)], {b})"
proof -
  have "touching g a [lid] = Inr [(lid, a, b)]" using assms(2,3) by auto
  then have "orient_loop g [a] [lid] [] {} = Inr ([(lid, Some a, Some b)], [], {b})" by simp
  then show ?thesis by (simp add: orient_same_ttl_links_def iter_single [OF assms(1)])
qed

definition line_ori :: "string list \<Rightarrow> string list \<Rightarrow> nat \<Rightarrow> orientation" where
  "line_ori vs ls k = map (\<lambda>i. (ls ! i, Some (vs ! i), Some (vs ! Suc i))) [0..<k]"

lemma line_step:
  assumes "line g vs ls" "k < length ls"
  shows "link_endpoints g (ls ! k) = Inr (vs ! k, vs ! Suc k) \<or> link_endpoints g (ls ! k) = Inr (vs ! Suc k, vs ! k)"
    "vs ! k \<noteq> vs ! Suc k"
  using assms by (auto simp: line_def nth_eq_iff_index_eq)

lemma orient_line:
  assumes "line g vs ls" "iter_ok iter"
  shows "k \<le> length ls \<Longrightarrow>
     foldE (orient_layer iter g) (map (\<lambda>i. (t0 - int i, [ls ! i])) [0..<k]) ([], {vs ! 0}) = Inr (line_ori vs ls k, {vs ! k})"
proof (induction k)
  case 0
  then show ?case by (simp add: line_ori_def)
next
  case (Suc k)
  have "ls ! k \<notin> fst ` set (line_ori vs ls k)"
    using assms(1) Suc.prems by (auto simp: line_ori_def line_def nth_eq_iff_index_eq)
  then have "dict_set (ls ! k) (Some (vs ! k), Some (vs ! Suc k)) (line_ori vs ls k) = line_ori vs ls (Suc k)"
    by (simp add: dict_set_new line_ori_def)
  then show ?case
    using Suc orient_line_link [OF assms(2) line_step(2,1) [OF assms(1)], of k]
    by (simp add: foldE_append orient_layer_def)
qed

lemma line_ori_get:
  assumes "line g vs ls" "i < length ls"
  shows "ori (line_ori vs ls (length ls)) (ls ! i) = (Some (vs ! i), Some (vs ! Suc i))"
proof -
  have "dict_get (line_ori vs ls (length ls)) (ls ! i) = Some (Some (vs ! i), Some (vs ! Suc i))"
    using assms by (intro map_of_is_SomeI) (auto simp: line_ori_def line_def comp_def map_nth)
  then show ?thesis by (simp add: ori_def dict_get_or_def)
qed

text \<open>Where a leg along a line starts to be oriented: at its first node.\<close>

lemma initial_line:
  assumes "line g vs ls" "source = vs ! 0 \<or> (source = vs ! length ls \<and> 2 \<le> length ls)"
  shows "initial_upstream (map (\<lambda>i. (t0 - int i, [ls ! i])) [0..<length ls]) g source = Inr {vs ! 0}"
proof -
  have n: "0 < length ls" using assms(1) by (auto simp: line_def)
  have top_nodes: "layer_nodes g [ls ! 0] = Inr {vs ! 0, vs ! 1}" using line_step(1) [OF assms(1) n] by auto
  show ?thesis
  proof (cases "source = vs ! 0")
    case True
    then show ?thesis using n top_nodes by (simp add: initial_upstream_def upt_conv_Cons)
  next
    case False
    then have s: "source = vs ! length ls" "2 \<le> length ls" using assms(2) by auto
    then obtain m where m: "length ls = Suc (Suc m)" by (metis Suc_le_D numeral_2_eq_2 Suc_le_mono)
    have "layer_nodes g [ls ! 1] = Inr {vs ! 1, vs ! 2}" using line_step(1) [OF assms(1), of 1] s(2) by (auto simp: numeral_2_eq_2)
    moreover have "vs ! 0 \<notin> {vs ! 1, vs ! 2}" "vs ! length ls \<notin> {vs ! 0, vs ! 1}"
      using assms(1) s(2) by (auto simp: line_def nth_eq_iff_index_eq)
    moreover have "[0..<length ls] = 0 # 1 # [2..<length ls]" by (simp add: m upt_conv_Cons numeral_2_eq_2 del: upt_Suc)
    ultimately show ?thesis using top_nodes s(1) by (auto simp: initial_upstream_def)
  qed
qed

definition line_edges :: "string list \<Rightarrow> string list \<Rightarrow> (string \<times> string \<times> string) list list" where
  "line_edges vs ls = map (\<lambda>i. [(ls ! i, vs ! i, vs ! Suc i)]) [0..<length ls]"

definition path_edges :: "flow_path \<Rightarrow> (string \<times> string \<times> string) list list" where
  "path_edges path = map (\<lambda>layer. map (\<lambda>e. (fe_link_id e, fe_src_node e, fe_dst_node e)) (fl_edges layer)) (fp_layers path)"

lemma single_not_ecmp [simp]: "\<not> ttl_layer_is_ecmp [lid] oriented"
  by (simp add: ttl_layer_is_ecmp_def)

lemma srcs_single: "ori oriented lid = (Some a, Some b) \<Longrightarrow> srcs [lid] oriented = {a} \<and> dsts [lid] oriented = {b}"
  by (simp add: srcs_def dsts_def map_filter_simps)

lemma line_segments:
  assumes "line g vs ls" "seen_on ls t0 obs" "s \<in> set (segments (layer_links_of obs) (ttls_of obs) (line_ori vs ls (length ls)))"
  shows "fs_state s = ''determinate''"
proof -
  let ?o = "line_ori vs ls (length ls)"
  obtain i where i: "Suc i < length ls" "s = segment_between (layer_links_of obs) ?o (t0 - int i, t0 - int (Suc i))"
    using assms(3) by (auto simp: segments_def line_ttls [OF assms(2)] in_set_zip nth_tl less_diff_conv)
  have n: "vs ! i \<noteq> vs ! Suc i" "vs ! Suc i \<noteq> vs ! Suc (Suc i)" using line_step(2) [OF assms(1)] i(1) by simp_all
  have "adjacency_ok [ls ! i] [ls ! Suc i] ?o"
    using srcs_single [OF line_ori_get [OF assms(1)], of i] srcs_single [OF line_ori_get [OF assms(1)], of "Suc i"] i(1) n
    by (simp add: adjacency_ok_def layer_exit_nodes_def layer_entry_nodes_def)
  then show ?thesis
    using i(1) line_links [OF assms(2), of i] line_links [OF assms(2), of "Suc i"]
    by (simp add: i(2) segment_between_def Let_def layer_links_get)
qed

lemma line_leg:
  assumes "line g vs ls" "seen_on ls t0 obs" "iter_ok iter"
    and "(leg = ''forward'' \<or> length ls = 1) \<and> source = vs ! 0 \<or> leg \<noteq> ''forward'' \<and> source = vs ! length ls \<and> 2 \<le> length ls"
  shows "\<exists>path. reconstruct_leg iter g obs leg source = Inr path \<and> fp_leg path = leg
     \<and> fp_classification path = ''certain'' \<and> path_edges path = line_edges vs ls"
proof -
  let ?n = "length ls" and ?o = "line_ori vs ls (length ls)"
  have n: "0 < ?n" using assms(1) by (auto simp: line_def)
  have ne: "obs \<noteq> []" using assms(1,2) by (auto simp: line_def seen_on_def)
  have desc: "map (\<lambda>t. (t, dict_get_or (layer_links_of obs) t [])) (ttls_of obs) = map (\<lambda>i. (t0 - int i, [ls ! i])) [0..<?n]"
    using line_links [OF assms(2)] by (simp add: line_ttls [OF assms(2)] layer_links_get comp_def)
  have "source = vs ! 0 \<or> (source = vs ! ?n \<and> 2 \<le> ?n)" using assms(4) by blast
  then have "orient_run iter g (layer_links_of obs) source (ttls_of obs) [] = Inr ?o"
    unfolding orient_run_Inr desc using initial_line [OF assms(1), of source t0] orient_line [OF assms(1,3), of ?n t0] by auto
  then have o: "orient iter g (layer_links_of obs) (ttls_of obs) source = Inr ?o"
    using contiguous_line [OF n, of t0] by (simp add: orient_def line_ttls [OF assms(2)])
  have layer: "layer_of obs ?o (t0 - int i) = \<lparr>fl_ttl = t0 - int i, fl_edges = [edge_of obs ?o (t0 - int i) (ls ! i)], fl_state = ''determinate''\<rparr>"
    if "i < ?n" for i
    using that by (simp add: layer_of_def Let_def layer_links_get line_links [OF assms(2)] line_ori_get [OF assms(1)])
  have ends: "hd (ttls_of obs) = t0 - int 0" "List.last (ttls_of obs) = t0 - int (?n - 1)"
    using n by (simp_all add: line_ttls [OF assms(2)] hd_map last_map)
  have anchor: "anchored g source (dict_get_or (layer_links_of obs) (if leg = ''forward'' then hd (ttls_of obs) else List.last (ttls_of obs)) []) = Inr True"
  proof (cases "leg = ''forward''")
    case True
    then show ?thesis using assms(4) line_step(1) [OF assms(1) n] line_links [OF assms(2) n] by (auto simp: ends layer_links_get)
  next
    case False
    then have "source = vs ! Suc (?n - 1) \<or> source = vs ! (?n - 1)" "leg \<noteq> ''forward''" using assms(4) n by auto
    moreover have "?n - 1 < ?n" using n by simp
    ultimately show ?thesis
      using line_step(1) [OF assms(1), of "?n - 1"] line_links [OF assms(2), of "?n - 1"] unfolding ends by (auto simp: layer_links_get)
  qed
  let ?layers = "map (layer_of obs ?o) (ttls_of obs)" and ?segs = "segments (layer_links_of obs) (ttls_of obs) ?o"
  have states: "fl_state l = ''determinate''" if "l \<in> set ?layers" for l
    using that layer by (auto simp: line_ttls [OF assms(2)])
  have "classify ?layers ?segs True = ''certain''"
    using states line_segments [OF assms(1,2)] by (fastforce simp: classify_def list_ex_iff)
  moreover have "path_edges \<lparr>fp_leg = leg, fp_layers = ?layers, fp_segments = ?segs, fp_classification = ''certain''\<rparr> = line_edges vs ls"
    using layer line_ori_get [OF assms(1)] by (simp add: path_edges_def line_edges_def line_ttls [OF assms(2)] edge_of_def)
  ultimately show ?thesis
    using o anchor ne by (simp add: reconstruct_leg_def Let_def)
qed

lemma line_rev: "line g vs ls \<Longrightarrow> line g (rev vs) (rev ls)"
proof -
  assume l: "line g vs ls"
  have "link_endpoints g (rev ls ! i) = Inr (rev vs ! i, rev vs ! Suc i) \<or> link_endpoints g (rev ls ! i) = Inr (rev vs ! Suc i, rev vs ! i)"
    if "i < length ls" for i
  proof -
    let ?j = "length ls - Suc i"
    have "rev ls ! i = ls ! ?j" "rev vs ! i = vs ! Suc ?j" "rev vs ! Suc i = vs ! ?j" "?j < length ls"
      using l that by (auto simp: line_def rev_nth Suc_diff_Suc)
    then show ?thesis using line_step(1) [OF l, of ?j] by auto
  qed
  then show ?thesis using l by (simp add: line_def)
qed

lemma edge_map_edges: "edge_map path = dict_of (concat (path_edges path))"
  by (simp add: edge_map_def path_edges_def)

lemma line_edges_concat: "concat (line_edges vs ls) = map (\<lambda>i. (ls ! i, vs ! i, vs ! Suc i)) [0..<length ls]"
proof -
  have "concat (map (\<lambda>i. [f i]) xs) = map f xs" for f :: "nat \<Rightarrow> string \<times> string \<times> string" and xs by (induction xs) auto
  then show ?thesis by (simp add: line_edges_def)
qed

lemma line_edge_map:
  assumes "line g vs ls" "path_edges path = line_edges vs ls"
  shows "edge_map path = map (\<lambda>i. (ls ! i, vs ! i, vs ! Suc i)) [0..<length ls]" "dict_ok (edge_map path)"
proof -
  let ?es = "map (\<lambda>i. (ls ! i, vs ! i, vs ! Suc i)) [0..<length ls]"
  have "dict_ok ?es" using assms(1) by (simp add: comp_def line_def map_nth)
  then have "dict_of ?es = ?es" using fold_dict_set_new [of ?es "[]"] by (simp add: dict_of_def)
  then show "edge_map path = ?es" "dict_ok (edge_map path)" using \<open>dict_ok ?es\<close> assms(2) line_edges_concat by (simp_all add: edge_map_edges)
qed

lemma line_edge_get:
  assumes "line g vs ls" "path_edges path = line_edges vs ls" "i < length ls"
  shows "dict_get (edge_map path) (ls ! i) = Some (vs ! i, vs ! Suc i)"
  using line_edge_map [OF assms(1,2)] assms(3) by (intro map_of_is_SomeI) (auto simp: image_iff)

text \<open>
  C5: a flow along a line of at least two links of any graph, seen in both directions with a TTL
  that goes down by one from link to link, is recovered as it was: both legs are certain, they
  have one link per layer in the order in which the packets crossed them, each oriented along the
  flow, and the result is not asymmetric. How often a link was seen, and in which order, does not
  matter.
\<close>

theorem line_reconstructed:
  assumes "line g vs ls" "2 \<le> length ls" "iter_ok iter"
    and "seen_on ls t1 (filter (\<lambda>o1. po_direction o1 = ''forward'') obs)"
    and "seen_on (rev ls) t2 (filter (\<lambda>o1. po_direction o1 = ''return'') obs)"
  shows "\<exists>r. reconstruct iter g obs (vs ! 0) = Inr r
     \<and> fp_classification (rr_forward r) = ''certain'' \<and> path_edges (rr_forward r) = line_edges vs ls
     \<and> fp_classification (rr_backward r) = ''certain'' \<and> path_edges (rr_backward r) = line_edges (rev vs) (rev ls)
     \<and> \<not> rr_asymmetric r"
proof -
  obtain fwd where f: "reconstruct_leg iter g (filter (\<lambda>o1. po_direction o1 = ''forward'') obs) ''forward'' (vs ! 0) = Inr fwd"
    "fp_classification fwd = ''certain''" "path_edges fwd = line_edges vs ls"
    using line_leg [OF assms(1,4,3), of "''forward''" "vs ! 0"] by auto
  note rl = line_rev [OF assms(1)]
  have "vs ! 0 = rev vs ! length (rev ls)" using assms(1) by (simp add: line_def rev_nth)
  then obtain bwd where b: "reconstruct_leg iter g (filter (\<lambda>o1. po_direction o1 = ''return'') obs) ''return'' (vs ! 0) = Inr bwd"
    "fp_classification bwd = ''certain''" "path_edges bwd = line_edges (rev vs) (rev ls)"
    using line_leg [OF rl assms(5,3), of "''return''" "vs ! 0"] assms(2) by auto
  note fm = line_edge_map [OF assms(1) f(3)] and bm = line_edge_map [OF rl b(3)]
  have "dict_get (edge_map bwd) (ls ! i) = Some (vs ! Suc i, vs ! i)" if "i < length ls" for i
  proof -
    let ?j = "length ls - Suc i"
    have "rev ls ! ?j = ls ! i" "rev vs ! ?j = vs ! Suc i" "rev vs ! Suc ?j = vs ! i" "?j < length ls"
      using assms(1) that by (auto simp: line_def rev_nth Suc_diff_Suc)
    then show ?thesis using line_edge_get [OF rl b(3), of ?j] by simp
  qed
  moreover have "set (dict_keys (edge_map fwd)) = set ls" "set (dict_keys (edge_map bwd)) = set ls"
    unfolding fm(1) bm(1) using map_nth [of ls] map_nth [of "rev ls"] by (simp_all add: comp_def)
  ultimately have "\<not> is_asymmetric fwd bwd"
    by (auto simp: is_asymmetric_def Let_def list_ex_iff fm(1))
  then show ?thesis using f b by (simp add: reconstruct_def)
qed

text \<open>
  On a single link between two nodes the reply leg is oriented like the request leg, away from
  the source, because a leg that starts at a link of the source is always oriented away from it.
  So every exchange between neighbours is reported as asymmetric.
\<close>

theorem neighbours_asymmetric:
  assumes "line g [source, peer] [lid]" "iter_ok iter"
    and "seen_on [lid] t1 (filter (\<lambda>o1. po_direction o1 = ''forward'') obs)"
    and "seen_on [lid] t2 (filter (\<lambda>o1. po_direction o1 = ''return'') obs)"
  shows "\<exists>r. reconstruct iter g obs source = Inr r
     \<and> path_edges (rr_forward r) = [[(lid, source, peer)]] \<and> path_edges (rr_backward r) = [[(lid, source, peer)]]
     \<and> rr_asymmetric r"
proof -
  obtain fwd where f: "reconstruct_leg iter g (filter (\<lambda>o1. po_direction o1 = ''forward'') obs) ''forward'' source = Inr fwd"
    "path_edges fwd = line_edges [source, peer] [lid]"
    using line_leg [OF assms(1,3,2), of "''forward''" source] by auto
  obtain bwd where b: "reconstruct_leg iter g (filter (\<lambda>o1. po_direction o1 = ''return'') obs) ''return'' source = Inr bwd"
    "path_edges bwd = line_edges [source, peer] [lid]"
    using line_leg [OF assms(1,4,2), of "''return''" source] by auto
  have "source \<noteq> peer" using assms(1) by (simp add: line_def)
  then have "is_asymmetric fwd bwd"
    using line_edge_map(1) [OF assms(1) f(2)] line_edge_map(1) [OF assms(1) b(2)] by (simp add: is_asymmetric_def Let_def)
  then show ?thesis using f b by (simp add: reconstruct_def line_edges_def)
qed

section \<open>A line of three nodes\<close>

definition demo_graph :: topo_graph where
  "demo_graph = \<lparr>tg_given_nodes = {}, tg_links = [
     \<lparr>lr_id = ''l0'', lr_node_a = ''r1'', lr_node_b = ''r2'', lr_iface_a = [], lr_iface_b = []\<rparr>,
     \<lparr>lr_id = ''l1'', lr_node_a = ''r3'', lr_node_b = ''r2'', lr_iface_a = [], lr_iface_b = []\<rparr>]\<rparr>"

definition demo_obs :: "string \<Rightarrow> int \<Rightarrow> string \<Rightarrow> packet_observation" where
  "demo_obs lid ttl direction =
     \<lparr>po_link_id = lid, po_ttl = ttl, po_ts_local = 0, po_host = ''h'', po_direction = direction,
      po_instance_key = Some ''icmp:1:1'', po_five_tuple = (''10.0.0.1'', ''10.0.0.2'', ''icmp'', None, None)\<rparr>"

definition demo_flow :: "packet_observation list" where
  "demo_flow = [demo_obs ''l1'' 63 ''forward'', demo_obs ''l0'' 64 ''forward'', demo_obs ''l1'' 255 ''return'', demo_obs ''l0'' 254 ''return'']"

lemma demo_endpoints:
  "link_endpoints demo_graph ''l0'' = Inr (''r1'', ''r2'')" "link_endpoints demo_graph ''l1'' = Inr (''r3'', ''r2'')"
  by (simp_all add: link_endpoints_def by_id_def dict_of_def demo_graph_def)

lemma demo_line: "line demo_graph [''r1'', ''r2'', ''r3''] [''l0'', ''l1'']"
  by (auto simp: line_def demo_endpoints less_Suc_eq)

lemma demo_seen:
  "seen_on [''l0'', ''l1''] 64 (filter (\<lambda>o1. po_direction o1 = ''forward'') demo_flow)"
  "seen_on (rev [''l0'', ''l1'']) 255 (filter (\<lambda>o1. po_direction o1 = ''return'') demo_flow)"
  by (auto simp: seen_on_def demo_flow_def demo_obs_def less_Suc_eq)

theorem line_reconstructed_witness:
  "\<exists>r. reconstruct sorted_list_of_set demo_graph demo_flow ''r1'' = Inr r
     \<and> path_edges (rr_forward r) = [[(''l0'', ''r1'', ''r2'')], [(''l1'', ''r2'', ''r3'')]] \<and> \<not> rr_asymmetric r"
  using line_reconstructed [OF demo_line _ sorted_iter_ok demo_seen] by (auto simp: line_edges_def)

theorem reconstruct_leg_sound_witness:
  "\<exists>path. reconstruct_leg sorted_list_of_set demo_graph (filter (\<lambda>o1. po_direction o1 = ''forward'') demo_flow) ''forward'' ''r1'' = Inr path
     \<and> sorted_wrt (>) (map fl_ttl (fp_layers path))"
proof -
  let ?obs = "filter (\<lambda>o1. po_direction o1 = ''forward'') demo_flow"
  obtain path where p: "reconstruct_leg sorted_list_of_set demo_graph ?obs ''forward'' ''r1'' = Inr path"
    using line_leg [OF demo_line demo_seen(1) sorted_iter_ok, of "''forward''" "''r1''"] by auto
  have "?obs \<noteq> []" by (simp add: demo_flow_def demo_obs_def)
  from reconstruct_leg_sound [OF sorted_iter_ok p this] show ?thesis using p by blast
qed

theorem neighbours_asymmetric_witness:
  "\<exists>r. reconstruct sorted_list_of_set demo_graph [demo_obs ''l0'' 64 ''forward'', demo_obs ''l0'' 64 ''return''] ''r1'' = Inr r \<and> rr_asymmetric r"
proof -
  let ?obs = "[demo_obs ''l0'' 64 ''forward'', demo_obs ''l0'' 64 ''return'']"
  have "line demo_graph [''r1'', ''r2''] [''l0'']" by (simp add: line_def demo_endpoints)
  moreover have "seen_on [''l0''] 64 (filter (\<lambda>o1. po_direction o1 = ''forward'') ?obs)"
    "seen_on [''l0''] 64 (filter (\<lambda>o1. po_direction o1 = ''return'') ?obs)"
    by (simp_all add: seen_on_def demo_obs_def)
  ultimately show ?thesis using neighbours_asymmetric [OF _ sorted_iter_ok] by blast
qed

end
