(* ===== verification/FollowRabbit.thy ===== *)
theory FollowRabbit
  imports FlowReconstruct HostsConfig Remote
begin

text \<open>
  Follow the Rabbit, \<open>services/follow_rabbit.py\<close>: the capture filters and capture points of a flow, the
  packets that the probes see, and the path that is reconstructed from them. The manager of the
  sessions is in theory \<open>RabbitSessions\<close>. Times and other floating-point numbers are rationals;
  \<open>fl\<close> prints them.
\<close>

section \<open>Capture filters\<close>

record flow_filter =
  ff_src_ip :: string
  ff_dst_ip :: string
  ff_protocol :: string
  ff_src_port :: int
  ff_dst_port :: int

datatype rabbit_error =
    BadDirection | BadAddress string | BadProtocol | BadPort string | PortsNeedProtocol
  | HostsUnreadable hosts_error | TopologyUnreadable string | SourceNotFound string | NotDeployed string
  | TooManySessions | SessionNotFound

definition check_ip :: "string \<Rightarrow> string \<Rightarrow> rabbit_error + string" where
  "check_ip s what = (case ip_address s of None \<Rightarrow> Inl (BadAddress what) | Some ip \<Rightarrow> Inr (ip_str ip))"

definition check_port :: "int \<Rightarrow> string \<Rightarrow> rabbit_error + unit" where
  "check_port p what = (if 1 \<le> p \<and> p \<le> 65535 then Inr () else Inl (BadPort what))"

definition clean_protocol :: "flow_filter \<Rightarrow> string" where
  "clean_protocol f = str_strip (str_lower (ff_protocol f))"

definition bpf_terms :: "string \<Rightarrow> string \<Rightarrow> string \<Rightarrow> int \<Rightarrow> int \<Rightarrow> string list" where
  "bpf_terms a b protocol sp dp =
     [''src host '' @ a, ''dst host '' @ b]
     @ (if protocol \<noteq> [] then [protocol] else [])
     @ (if sp \<noteq> 0 then [''src port '' @ show_int sp] else [])
     @ (if dp \<noteq> 0 then [''dst port '' @ show_int dp] else [])"

definition known_protocol :: "string \<Rightarrow> bool" where
  "known_protocol p \<longleftrightarrow> p = [] \<or> p \<in> {''tcp'', ''udp'', ''icmp'', ''icmp6''}"

definition has_ports :: "string \<Rightarrow> bool" where
  "has_ports p \<longleftrightarrow> p \<in> {''tcp'', ''udp''}"

text \<open>The checks that both legs share: the addresses in canonical form.\<close>

definition check_flow :: "flow_filter \<Rightarrow> rabbit_error + string \<times> string" where
  "check_flow f =
     bindE (check_ip (ff_src_ip f) ''src_ip'') (\<lambda>src.
     bindE (check_ip (ff_dst_ip f) ''dst_ip'') (\<lambda>dst.
     if \<not> known_protocol (clean_protocol f) then Inl BadProtocol
     else
       bindE (if ff_src_port f \<noteq> 0 then check_port (ff_src_port f) ''src_port'' else Inr ()) (\<lambda>_.
       bindE (if ff_dst_port f \<noteq> 0 then check_port (ff_dst_port f) ''dst_port'' else Inr ()) (\<lambda>_.
       if (ff_src_port f \<noteq> 0 \<or> ff_dst_port f \<noteq> 0) \<and> \<not> has_ports (clean_protocol f) then Inl PortsNeedProtocol
       else Inr (src, dst)))))"

definition build_bpf :: "flow_filter \<Rightarrow> string \<Rightarrow> rabbit_error + string" where
  "build_bpf f direction =
     (if direction \<notin> {''forward'', ''return''} then Inl BadDirection
      else
        bindE (check_flow f) (\<lambda>(src, dst).
          Inr (str_join '' and ''
            (if direction = ''forward'' then bpf_terms src dst (clean_protocol f) (ff_src_port f) (ff_dst_port f)
             else bpf_terms dst src (clean_protocol f) (ff_dst_port f) (ff_src_port f)))))"

definition clamp_timeout :: "int \<Rightarrow> int" where
  "clamp_timeout v = (if v = 0 then 60 else max 5 (min v 600))"

definition remote_capture_timeout :: "int \<Rightarrow> int" where
  "remote_capture_timeout session_timeout = max 1 (session_timeout - 2)"

section \<open>Capture points\<close>

record capture_point =
  cp_id :: string
  cp_link_id :: string
  cp_link_type :: string
  cp_host :: string
  cp_iface :: string
  cp_endpoint_a :: "(string, string) dict"
  cp_endpoint_b :: "(string, string) dict"
  cp_side :: string

definition runtime_link_points :: "runtime_link_state \<Rightarrow> capture_point list" where
  "runtime_link_points l =
     List.map_filter (\<lambda>(side, host, iface).
         if host \<noteq> [] \<and> iface \<noteq> []
         then Some \<lparr>cp_id = lst_id l @ '':'' @ side @ '':'' @ host @ '':'' @ iface, cp_link_id = lst_id l,
                    cp_link_type = lst_link_type l, cp_host = host, cp_iface = iface,
                    cp_endpoint_a = lst_endpoint_a l, cp_endpoint_b = lst_endpoint_b l, cp_side = side\<rparr>
         else None)
       [(''a'', lst_host_a l, lst_host_endpoint_a l), (''b'', lst_host_b l, lst_host_endpoint_b l)]"

definition mgmt_point :: "string \<Rightarrow> string \<Rightarrow> string \<Rightarrow> capture_point" where
  "mgmt_point prefix host iface =
     \<lparr>cp_id = prefix @ '':'' @ host @ '':'' @ iface, cp_link_id = ''mgmt:'' @ host, cp_link_type = ''mgmt'',
      cp_host = host, cp_iface = iface, cp_endpoint_a = [(''mgmt'', iface)], cp_endpoint_b = [(''host'', host)],
      cp_side = []\<rparr>"

definition mgmt_points :: "deployment_state \<Rightarrow> capture_point list" where
  "mgmt_points state =
     (case dep_mgmt state of
        None \<Rightarrow> []
      | Some m \<Rightarrow>
          concat (map (\<lambda>host. mgmt_point ''mgmt'' host (mst_bridge m)
              # (if mst_vxlan_iface m \<noteq> [] then [mgmt_point ''mgmt-vxlan'' host (mst_vxlan_iface m)] else []))
            (sorted_list_of_set (set (dict_keys (dep_scheduling state)) \<union> set (dict_keys (dep_mgmt_anchors state)) \<union> {''master''}))))"

definition realnet_points :: "real_net_state \<Rightarrow> capture_point list" where
  "realnet_points rn =
     map (\<lambda>host. \<lparr>cp_id = ''realnet:'' @ rnst_name rn @ '':'' @ host @ '':'' @ rnst_bridge rn,
                  cp_link_id = ''realnet:'' @ rnst_name rn @ '':'' @ host, cp_link_type = ''real_net'',
                  cp_host = host, cp_iface = rnst_bridge rn, cp_endpoint_a = [(''real_net'', rnst_name rn)],
                  cp_endpoint_b = [(''host'', host)], cp_side = []\<rparr>)
       (if rnst_hosts rn = [] then [''master''] else rnst_hosts rn)"

text \<open>Of the elements with one key, the first is kept.\<close>

fun dedupe_by :: "('a \<Rightarrow> 'k) \<Rightarrow> 'k set \<Rightarrow> 'a list \<Rightarrow> 'a list" where
  "dedupe_by key seen [] = []"
| "dedupe_by key seen (x # xs) =
     (if key x \<in> seen then dedupe_by key seen xs else x # dedupe_by key (insert (key x) seen) xs)"

definition point_key :: "capture_point \<Rightarrow> string \<times> string \<times> string" where
  "point_key p = (cp_host p, cp_iface p, cp_link_id p)"

definition dedupe_points :: "capture_point list \<Rightarrow> capture_point list" where
  "dedupe_points = dedupe_by point_key {}"

definition build_capture_points :: "deployment_state \<Rightarrow> capture_point list" where
  "build_capture_points state =
     dedupe_points (concat (map runtime_link_points (dep_runtime_links state))
       @ mgmt_points state @ concat (map realnet_points (dep_realnets state)))"

section \<open>The graph of a lab\<close>

text \<open>An endpoint of a real network has no node and stands for itself.\<close>

definition end_node :: "(string, string) dict \<Rightarrow> string" where
  "end_node e =
     (let node = dict_get_or e ''node'' []; rn = dict_get_or e ''real_net'' []
      in if node = [] \<and> rn \<noteq> [] then ''realnet:'' @ rn else node)"

definition link_ref_of :: "runtime_link_state \<Rightarrow> link_ref option" where
  "link_ref_of l =
     (if end_node (lst_endpoint_a l) \<noteq> [] \<and> end_node (lst_endpoint_b l) \<noteq> []
      then Some \<lparr>lr_id = lst_id l, lr_node_a = end_node (lst_endpoint_a l), lr_node_b = end_node (lst_endpoint_b l),
                 lr_iface_a = dict_get_or (lst_endpoint_a l) ''iface'' [],
                 lr_iface_b = dict_get_or (lst_endpoint_b l) ''iface'' []\<rparr>
      else None)"

definition build_topo_graph :: "deployment_state \<Rightarrow> topo_graph" where
  "build_topo_graph state = \<lparr>tg_given_nodes = {}, tg_links = List.map_filter link_ref_of (dep_runtime_links state)\<rparr>"

section \<open>Packets\<close>

definition observation_from_packet :: "parsed_packet \<Rightarrow> capture_point \<Rightarrow> string \<Rightarrow> packet_observation" where
  "observation_from_packet pkt point direction =
     \<lparr>po_link_id = cp_link_id point, po_ttl = int (pp_ttl pkt), po_ts_local = pp_ts pkt, po_host = cp_host point,
      po_direction = direction,
      po_instance_key = instance_key (pp_proto pkt) (map_option int (pp_icmp_id pkt)) (map_option int (pp_icmp_seq pkt))
        (map_option int (pp_tcp_seq pkt)) (Some (int (pp_payload_len pkt))) (Some (int (pp_ip_id pkt))) None,
      po_five_tuple = (pp_src_ip pkt, pp_dst_ip pkt, pp_proto pkt, Some (int (pp_src_port pkt)), Some (int (pp_dst_port pkt)))\<rparr>"

definition observations_from_pcap :: "byte list \<Rightarrow> capture_point \<Rightarrow> string \<Rightarrow> packet_observation list" where
  "observations_from_pcap bytes point direction = map (\<lambda>pkt. observation_from_packet pkt point direction) (parse_pcap bytes)"

text \<open>A packet that was seen at both ends of a link counts once; packets without identity are all kept.\<close>

fun dedupe_observations_from ::
  "(string \<times> string \<times> string) set \<Rightarrow> packet_observation list \<Rightarrow> packet_observation list" where
  "dedupe_observations_from seen [] = []"
| "dedupe_observations_from seen (ob # obs) =
     (case po_instance_key ob of
        None \<Rightarrow> ob # dedupe_observations_from seen obs
      | Some k \<Rightarrow>
          (let key = (po_link_id ob, po_direction ob, k) in
           if key \<in> seen then dedupe_observations_from seen obs
           else ob # dedupe_observations_from (insert key seen) obs))"

definition dedupe_observations :: "packet_observation list \<Rightarrow> packet_observation list" where
  "dedupe_observations = dedupe_observations_from {}"

text \<open>The command of a probe.\<close>

definition capture_cmd :: "capture_point \<Rightarrow> string \<Rightarrow> int \<Rightarrow> string" where
  "capture_cmd point bpf timeout_seconds =
     ''timeout '' @ show_int timeout_seconds @ ''s tcpdump -w - -U -n -i '' @ shlex_quote (cp_iface point)
     @ '' -c 200 '' @ shlex_quote bpf"

section \<open>Results as JSON\<close>

definition last_packet_at :: "packet_observation list \<Rightarrow> (string \<times> string, rat) dict" where
  "last_packet_at obs =
     fold (\<lambda>ob out. let key = (po_link_id ob, po_direction ob)
                  in dict_set key (max (dict_get_or out key 0) (po_ts_local ob)) out) obs []"

text \<open>The interfaces at the two ends of an edge; a link that is not in the graph has empty names.\<close>

definition edge_ifaces :: "link_ref option \<Rightarrow> string \<Rightarrow> string \<Rightarrow> string \<times> string" where
  "edge_ifaces meta src dst =
     (case meta of
        None \<Rightarrow> ([], [])
      | Some l \<Rightarrow>
          if src = lr_node_a l \<and> dst = lr_node_b l then (lr_iface_a l, lr_iface_b l)
          else if src = lr_node_b l \<and> dst = lr_node_a l then (lr_iface_b l, lr_iface_a l)
          else ([], []))"

definition json_end :: "string \<Rightarrow> string \<Rightarrow> yvalue" where
  "json_end node iface = (if node = [] then VDict [] else VDict [(''node'', VStr node), (''iface'', VStr iface)])"

definition oriented_link_metadata :: "link_ref option \<Rightarrow> string \<Rightarrow> string \<Rightarrow> (string, yvalue) dict" where
  "oriented_link_metadata meta src dst =
     [(''source_iface'', VStr (fst (edge_ifaces meta src dst))), (''target_iface'', VStr (snd (edge_ifaces meta src dst))),
      (''endpoint_a'', case meta of None \<Rightarrow> VDict [] | Some l \<Rightarrow> json_end (lr_node_a l) (lr_iface_a l)),
      (''endpoint_b'', case meta of None \<Rightarrow> VDict [] | Some l \<Rightarrow> json_end (lr_node_b l) (lr_iface_b l))]"

definition serialize_edge ::
  "(rat \<Rightarrow> yvalue) \<Rightarrow> (string, link_ref) dict \<Rightarrow> (string \<times> string, rat) dict \<Rightarrow> string \<Rightarrow> flow_edge \<Rightarrow> yvalue" where
  "serialize_edge fl meta seen leg e = VDict
     ([(''link_id'', VStr (fe_link_id e)), (''src_node'', VStr (fe_src_node e)), (''dst_node'', VStr (fe_dst_node e))]
      @ oriented_link_metadata (dict_get meta (fe_link_id e)) (fe_src_node e) (fe_dst_node e)
      @ [(''last_packet_at'', case dict_get seen (fe_link_id e, leg) of None \<Rightarrow> VNone | Some t \<Rightarrow> fl t),
         (''ttl'', VInt (fe_ttl e)), (''weight'', fl (fe_weight e)), (''weight_quality'', VStr (fe_weight_quality e))])"

definition serialize_path ::
  "(rat \<Rightarrow> yvalue) \<Rightarrow> (string, link_ref) dict \<Rightarrow> (string \<times> string, rat) dict \<Rightarrow> flow_path \<Rightarrow> yvalue" where
  "serialize_path fl meta seen path = VDict
     [(''leg'', VStr (fp_leg path)), (''classification'', VStr (fp_classification path)),
      (''layers'', VList (map (\<lambda>layer. VDict
         [(''ttl'', VInt (fl_ttl layer)), (''state'', VStr (fl_state layer)),
          (''edges'', VList (map (serialize_edge fl meta seen (fp_leg path)) (fl_edges layer)))]) (fp_layers path))),
      (''segments'', VList (map (\<lambda>s. VDict
         [(''ttl_high'', VInt (fs_ttl_high s)), (''ttl_low'', VInt (fs_ttl_low s)), (''state'', VStr (fs_state s)),
          (''missing_ttl'', case fs_missing_ttl s of None \<Rightarrow> VNone | Some t \<Rightarrow> VInt t)]) (fp_segments path)))]"

definition serialize_result ::
  "(rat \<Rightarrow> yvalue) \<Rightarrow> reconstruction_result \<Rightarrow> topo_graph \<Rightarrow> packet_observation list \<Rightarrow> yvalue" where
  "serialize_result fl r g obs =
     (let meta = by_id g; seen = last_packet_at obs
      in VDict [(''forward'', serialize_path fl meta seen (rr_forward r)),
                (''backward'', serialize_path fl meta seen (rr_backward r)),
                (''asymmetric'', VBool (rr_asymmetric r))])"

text \<open>
  What a reconstruction works on: the packets on links of the graph, each counted once. The result
  is what \<^const>\<open>reconstruct\<close> says about them; \<^const>\<open>Inl\<close> is its \<open>KeyError\<close>.
\<close>

definition known_observations :: "topo_graph \<Rightarrow> packet_observation list \<Rightarrow> packet_observation list" where
  "known_observations g obs = dedupe_observations (filter (\<lambda>ob. po_link_id ob \<in> lr_id ` set (tg_links g)) obs)"

definition reconstruction_of ::
  "(string set \<Rightarrow> string list) \<Rightarrow> (rat \<Rightarrow> yvalue) \<Rightarrow> topo_graph \<Rightarrow> packet_observation list \<Rightarrow> string \<Rightarrow> string + yvalue" where
  "reconstruction_of iter fl g obs source_node =
     (let known = known_observations g obs
      in bindE (reconstruct iter g known source_node) (\<lambda>r. Inr (serialize_result fl r g known)))"

section \<open>Filters: lemmas\<close>

definition swap_flow :: "flow_filter \<Rightarrow> flow_filter" where
  "swap_flow f = f\<lparr>ff_src_ip := ff_dst_ip f, ff_dst_ip := ff_src_ip f, ff_src_port := ff_dst_port f, ff_dst_port := ff_src_port f\<rparr>"

text \<open>What the checks of a flow ask for.\<close>

definition flow_ok :: "flow_filter \<Rightarrow> bool" where
  "flow_ok f \<longleftrightarrow>
     ip_address (ff_src_ip f) \<noteq> None \<and> ip_address (ff_dst_ip f) \<noteq> None
   \<and> known_protocol (clean_protocol f)
   \<and> (\<forall>p \<in> {ff_src_port f, ff_dst_port f}. p = 0 \<or> 1 \<le> p \<and> p \<le> 65535 \<and> has_ports (clean_protocol f))"

lemma check_flow_Inr:
  "check_flow f = Inr sd \<longleftrightarrow>
     flow_ok f \<and> sd = (ip_str (the (ip_address (ff_src_ip f))), ip_str (the (ip_address (ff_dst_ip f))))"
  by (auto simp: check_flow_def check_ip_def check_port_def flow_ok_def bindE_eq_Inr split: option.splits if_splits)

lemma build_bpf_forward:
  "build_bpf f ''forward'' = Inr s \<longleftrightarrow>
     flow_ok f \<and> s = str_join '' and '' (bpf_terms (ip_str (the (ip_address (ff_src_ip f)))) (ip_str (the (ip_address (ff_dst_ip f))))
       (clean_protocol f) (ff_src_port f) (ff_dst_port f))"
  by (simp add: build_bpf_def bindE_eq_Inr check_flow_Inr) auto

lemma build_bpf_return:
  "build_bpf f ''return'' = Inr s \<longleftrightarrow>
     flow_ok f \<and> s = str_join '' and '' (bpf_terms (ip_str (the (ip_address (ff_dst_ip f)))) (ip_str (the (ip_address (ff_src_ip f))))
       (clean_protocol f) (ff_dst_port f) (ff_src_port f))"
  by (simp add: build_bpf_def bindE_eq_Inr check_flow_Inr) auto

lemma flow_ok_swap [simp]: "flow_ok (swap_flow f) = flow_ok f"
  by (auto simp: flow_ok_def swap_flow_def clean_protocol_def)

section \<open>Deduplication: lemmas\<close>

lemma dedupe_by_set:
  "key ` set (dedupe_by key seen xs) = key ` set xs - seen \<and> set (dedupe_by key seen xs) \<subseteq> set xs
   \<and> distinct (map key (dedupe_by key seen xs))"
  by (induction key seen xs rule: dedupe_by.induct) auto

lemma dedupe_observations_subset: "set (dedupe_observations_from seen obs) \<subseteq> set obs"
proof (induction obs arbitrary: seen)
  case (Cons ob obs)
  then show ?case by (cases "po_instance_key ob") (auto simp: Let_def dest: subsetD [OF Cons.IH])
qed simp

section \<open>A reconstruction of packets on known links never fails\<close>

definition known_links :: "topo_graph \<Rightarrow> string list \<Rightarrow> bool" where
  "known_links g lids \<longleftrightarrow> set lids \<subseteq> lr_id ` set (tg_links g)"

lemma known_links_simps [simp]:
  "known_links g []" "known_links g (lid # lids) \<longleftrightarrow> lid \<in> lr_id ` set (tg_links g) \<and> known_links g lids"
  by (simp_all add: known_links_def)

lemma known_links_sub: "known_links g lids \<Longrightarrow> set lids' \<subseteq> set lids \<Longrightarrow> known_links g lids'"
  unfolding known_links_def by blast

lemma endpoints_known: "lid \<in> lr_id ` set (tg_links g) \<Longrightarrow> \<exists>a b. link_endpoints g lid = Inr (a, b)"
proof -
  assume "lid \<in> lr_id ` set (tg_links g)"
  then have "map_of (rev (map (\<lambda>l. (lr_id l, l)) (tg_links g))) lid \<noteq> None"
    by (auto simp: map_of_eq_None_iff image_iff)
  then show ?thesis by (auto simp: link_endpoints_def by_id_def dict_get_dict_of split: option.split)
qed

lemma layer_nodes_total: "known_links g lids \<Longrightarrow> \<exists>ns. layer_nodes g lids = Inr ns"
proof (induction lids)
  case (Cons lid lids)
  then obtain ns where "layer_nodes g lids = Inr ns" by auto
  moreover obtain a b where "link_endpoints g lid = Inr (a, b)" using endpoints_known Cons.prems by fastforce
  ultimately show ?case by simp
qed simp

lemma touching_total: "known_links g lids \<Longrightarrow> \<exists>ts. touching g node lids = Inr ts"
proof (induction lids)
  case (Cons lid lids)
  then obtain ts where "touching g node lids = Inr ts" by auto
  moreover obtain a b where "link_endpoints g lid = Inr (a, b)" using endpoints_known Cons.prems by fastforce
  ultimately show ?case by simp
qed simp

lemma orient_loop_total:
  "known_links g remaining \<Longrightarrow> \<exists>r. orient_loop g frontier remaining oriented downstream = Inr r"
proof (induction g frontier remaining oriented downstream rule: orient_loop.induct)
  case (2 g node frontier remaining oriented downstream)
  obtain ts where ts: "touching g node remaining = Inr ts" using touching_total [OF "2.prems"] by blast
  have "known_links g (filter (\<lambda>l. l \<notin> fst ` set ts) remaining)" using "2.prems" by (rule known_links_sub) auto
  then show ?case using "2.IH" [OF ts] ts by simp
qed simp

lemma orient_same_total:
  assumes "known_links g lids" "iter_ok iter"
  shows "\<exists>r. orient_same_ttl_links iter g lids upstream = Inr r"
proof -
  have "known_links g (iter (set lids))" using assms(1) iter_set [OF assms(2), of "set lids"] by (simp add: known_links_def)
  then obtain r where "orient_loop g (iter upstream) (iter (set lids)) [] {} = Inr r" using orient_loop_total by blast
  then show ?thesis by (cases r) (simp add: orient_same_ttl_links_def)
qed

lemma orient_layers_total:
  assumes "iter_ok iter" and "\<And>r. r \<in> set run_desc \<Longrightarrow> known_links g (snd r)"
  shows "\<exists>st'. foldE (orient_layer iter g) run_desc st = Inr st'"
  using assms(2)
proof (induction run_desc arbitrary: st)
  case (Cons r rs)
  obtain oriented up where st: "st = (oriented, up)" by (cases st)
  obtain o1 d1 where "orient_same_ttl_links iter g (snd r) up = Inr (o1, d1)"
    using orient_same_total [OF Cons.prems assms(1)] by fastforce
  then have "orient_layer iter g r st = Inr (fold (\<lambda>(k, v). dict_set k v) o1 oriented, if d1 = {} then up else d1)"
    unfolding st orient_layer_Inr by blast
  then show ?case using Cons by simp
qed simp

lemma initial_upstream_total:
  assumes "run_desc \<noteq> []" and "\<And>r. r \<in> set run_desc \<Longrightarrow> known_links g (snd r)"
  shows "\<exists>up. initial_upstream run_desc g source = Inr up"
proof -
  obtain ns where ns: "layer_nodes g (snd (hd run_desc)) = Inr ns" using layer_nodes_total assms by (meson hd_in_set)
  have "\<exists>ms. layer_nodes g (snd second) = Inr ms" if "run_desc = first # second # rest" for first second rest
    using layer_nodes_total assms(2) [of second] that by simp
  then show ?thesis using ns by (fastforce simp: initial_upstream_def split: list.split)
qed

lemma runs_from_nonempty: "current \<noteq> [] \<Longrightarrow> r \<in> set (runs_from current ttls) \<Longrightarrow> r \<noteq> []"
  by (induction current ttls rule: runs_from.induct) (auto split: if_splits)

lemma orient_total:
  assumes "iter_ok iter" and "\<And>t. known_links g (dict_get_or ll t [])"
  shows "\<exists>oriented. orient iter g ll ttls source = Inr oriented"
proof -
  have run: "\<exists>o2. orient_run iter g ll source run o1 = Inr o2" if "run \<noteq> []" for run o1
  proof -
    let ?d = "map (\<lambda>t. (t, dict_get_or ll t [])) run"
    have k: "\<And>r. r \<in> set ?d \<Longrightarrow> known_links g (snd r)" using assms(2) by auto
    have "?d \<noteq> []" using that by simp
    then have "\<exists>up. initial_upstream ?d g source = Inr up" using k by (rule initial_upstream_total)
    then obtain up where "initial_upstream ?d g source = Inr up" by blast
    moreover obtain o2 up' where "foldE (orient_layer iter g) ?d (o1, up) = Inr (o2, up')"
      using orient_layers_total [OF assms(1), of ?d g "(o1, up)"] k by (metis (no_types, lifting) surj_pair)
    ultimately show ?thesis unfolding orient_run_Inr by blast
  qed
  have "\<exists>o2. foldE (orient_run iter g ll source) runs o1 = Inr o2" if "\<And>r. r \<in> set runs \<Longrightarrow> r \<noteq> []" for runs o1
    using that
  proof (induction runs arbitrary: o1)
    case (Cons r rs)
    obtain o2 where "orient_run iter g ll source r o1 = Inr o2" using run [of r o1] Cons.prems by auto
    moreover have "\<And>r. r \<in> set rs \<Longrightarrow> r \<noteq> []" using Cons.prems by simp
    ultimately show ?case using Cons.IH [of o2] by simp
  qed simp
  then show ?thesis unfolding orient_def contiguous_runs_def using runs_from_nonempty by blast
qed

lemma anchored_total: "known_links g lids \<Longrightarrow> \<exists>b. anchored g source lids = Inr b"
proof (induction lids)
  case (Cons lid lids)
  obtain a b where "link_endpoints g lid = Inr (a, b)" using endpoints_known Cons.prems by fastforce
  then show ?case using Cons by auto
qed (simp, blast)

lemma reconstruct_leg_total:
  assumes "iter_ok iter" and "\<And>ob. ob \<in> set obs \<Longrightarrow> po_link_id ob \<in> lr_id ` set (tg_links g)"
  shows "\<exists>path. reconstruct_leg iter g obs leg source = Inr path"
proof (cases "obs = []")
  case False
  have k: "known_links g (dict_get_or (layer_links_of obs) t [])" for t
    using assms(2) obs_by_link_keys(1) [of obs] unfolding layer_links_get links_at_def known_links_def by auto
  obtain oriented where "orient iter g (layer_links_of obs) (ttls_of obs) source = Inr oriented"
    using orient_total [OF assms(1) k] by blast
  moreover have "\<exists>b. anchored g source (dict_get_or (layer_links_of obs) t []) = Inr b" for t
    using anchored_total [OF k] .
  ultimately show ?thesis using False by (auto simp: reconstruct_leg_def Let_def bindE_eq_Inr)
qed (simp add: reconstruct_leg_def)

lemma reconstruct_total:
  assumes "iter_ok iter" and "\<And>ob. ob \<in> set obs \<Longrightarrow> po_link_id ob \<in> lr_id ` set (tg_links g)"
  shows "\<exists>r. reconstruct iter g obs source = Inr r"
proof -
  have leg: "\<exists>path. reconstruct_leg iter g (filter (\<lambda>ob. po_direction ob = d) obs) leg source = Inr path" for d leg
    by (rule reconstruct_leg_total [OF assms(1)]) (simp add: assms(2))
  obtain p1 p2 where "reconstruct_leg iter g (filter (\<lambda>ob. po_direction ob = ''forward'') obs) ''forward'' source = Inr p1"
    "reconstruct_leg iter g (filter (\<lambda>ob. po_direction ob = ''return'') obs) ''return'' source = Inr p2"
    using leg by blast
  then show ?thesis by (simp add: reconstruct_def)
qed

lemma reconstruction_total:
  assumes "iter_ok iter"
  shows "\<exists>v. reconstruction_of iter fl g obs source = Inr v"
proof -
  have "po_link_id ob \<in> lr_id ` set (tg_links g)" if "ob \<in> set (known_observations g obs)" for ob
    using that dedupe_observations_subset unfolding known_observations_def dedupe_observations_def by fastforce
  then show ?thesis using reconstruct_total [OF assms] by (fastforce simp: reconstruction_of_def Let_def bindE_eq_Inr)
qed

section \<open>The points of a session\<close>

text \<open>Only links that can carry a flow of the source are watched; without any, every point is.\<close>

definition session_points :: "deployment_state \<Rightarrow> string \<Rightarrow> capture_point list" where
  "session_points state source_node =
     (let candidate = set (candidate_links (build_topo_graph state) source_node)
      in filter (\<lambda>p. candidate = {} \<or> cp_link_id p \<in> candidate) (build_capture_points state))"

lemma points_of_links:
  "set (build_capture_points state) \<subseteq>
     set (concat (map runtime_link_points (dep_runtime_links state)) @ mgmt_points state @ concat (map realnet_points (dep_realnets state)))"
  using dedupe_by_set [of point_key "{}"] unfolding build_capture_points_def dedupe_points_def by blast

lemma link_end_watched:
  assumes "l \<in> set (dep_runtime_links state)" "p \<in> set (runtime_link_points l)"
  shows "point_key p \<in> point_key ` set (build_capture_points state)"
  using assms dedupe_by_set [of point_key "{}" "concat (map runtime_link_points (dep_runtime_links state))
       @ mgmt_points state @ concat (map realnet_points (dep_realnets state))"]
  unfolding build_capture_points_def dedupe_points_def by force

section \<open>Properties\<close>

text \<open>
  C35: the two legs of a flow are watched by mirrored filters. A flow that passes the checks has a
  filter for either leg, one that does not has neither, and the filter of the return leg is the
  forward filter of the flow with its ends swapped.
\<close>

theorem build_bpf_legs:
  "(\<exists>s. build_bpf f ''forward'' = Inr s) = flow_ok f \<and> (\<exists>s. build_bpf f ''return'' = Inr s) = flow_ok f
   \<and> (\<forall>s. build_bpf f ''return'' = Inr s \<longleftrightarrow> build_bpf (swap_flow f) ''forward'' = Inr s)"
  by (simp add: build_bpf_forward build_bpf_return) (simp add: swap_flow_def clean_protocol_def)

text \<open>
  A reconstruction never fails. Whatever packets the probes of a session have delivered, also on
  links that have gone from the graph, the result is the serialised reconstruction of the packets on
  known links, each counted once per link and direction.
\<close>

theorem reconstruction_never_fails:
  assumes "iter_ok iter"
  shows "\<exists>r. reconstruct iter g (known_observations g obs) source = Inr r
     \<and> reconstruction_of iter fl g obs source = Inr (serialize_result fl r g (known_observations g obs))"
proof -
  obtain v where "reconstruction_of iter fl g obs source = Inr v" using reconstruction_total [OF assms] by blast
  then show ?thesis by (auto simp: reconstruction_of_def Let_def bindE_eq_Inr)
qed

text \<open>
  C36: what a session watches. No interface is watched twice for one link. If the source is an end of
  some link, the watched links are among those connected to it, and both ends of every such link
  that have a host interface are watched. If the source is no end of a link, every capture point of
  the lab is watched, those of the management network and of the real networks included.
\<close>

theorem session_points_cover:
  "distinct (map point_key (session_points state source))
   \<and> (source \<in> tg_nodes (build_topo_graph state) \<longrightarrow>
        (\<forall>p \<in> set (session_points state source). \<exists>l \<in> set (tg_links (build_topo_graph state)). lr_id l = cp_link_id p
            \<and> (reach (build_topo_graph state) source (lr_node_a l) \<or> reach (build_topo_graph state) source (lr_node_b l)))
      \<and> (\<forall>l \<in> set (dep_runtime_links state). \<forall>r. link_ref_of l = Some r
            \<longrightarrow> reach (build_topo_graph state) source (lr_node_a r) \<or> reach (build_topo_graph state) source (lr_node_b r)
            \<longrightarrow> point_key ` set (runtime_link_points l) \<subseteq> point_key ` set (session_points state source)))
   \<and> (source \<notin> tg_nodes (build_topo_graph state) \<longrightarrow> session_points state source = build_capture_points state)"
proof (intro conjI impI ballI allI)
  let ?g = "build_topo_graph state"
  show "distinct (map point_key (session_points state source))"
    using dedupe_by_set [of point_key "{}"]
    by (simp add: session_points_def build_capture_points_def dedupe_points_def Let_def distinct_map_filter)
  show "session_points state source = build_capture_points state" if "source \<notin> tg_nodes ?g"
    using that by (simp add: session_points_def candidate_links_def)
  assume s: "source \<in> tg_nodes ?g"
  have cand: "set (candidate_links ?g source) =
      lr_id ` {l \<in> set (tg_links ?g). reach ?g source (lr_node_a l) \<or> reach ?g source (lr_node_b l)}"
    using candidate_links_reachable [of ?g source] s by simp
  have "\<exists>l \<in> set (tg_links ?g). lr_node_a l = source \<or> lr_node_b l = source"
    using s by (auto simp: tg_nodes_def build_topo_graph_def)
  then have ne: "set (candidate_links ?g source) \<noteq> {}" unfolding cand using reach_source by fastforce
  {
    fix p assume "p \<in> set (session_points state source)"
    then have "cp_link_id p \<in> set (candidate_links ?g source)" using ne by (auto simp: session_points_def Let_def)
    then show "\<exists>l \<in> set (tg_links ?g). lr_id l = cp_link_id p \<and> (reach ?g source (lr_node_a l) \<or> reach ?g source (lr_node_b l))"
      unfolding cand by force
  next
    fix l r assume l: "l \<in> set (dep_runtime_links state)" "link_ref_of l = Some r"
      and r: "reach ?g source (lr_node_a r) \<or> reach ?g source (lr_node_b r)"
    have "r \<in> set (tg_links ?g)" using l by (auto simp: build_topo_graph_def map_filter_def intro!: image_eqI [of _ _ l])
    then have c: "lr_id r \<in> set (candidate_links ?g source)" unfolding cand using r by blast
    have id: "lr_id r = lst_id l" using l(2) by (auto simp: link_ref_of_def split: if_splits)
    show "point_key ` set (runtime_link_points l) \<subseteq> point_key ` set (session_points state source)"
    proof
      fix k assume "k \<in> point_key ` set (runtime_link_points l)"
      then obtain p where p: "p \<in> set (runtime_link_points l)" "k = point_key p" by blast
      obtain q where q: "q \<in> set (build_capture_points state)" "point_key q = point_key p"
        using link_end_watched [OF l(1) p(1)] by force
      have "cp_link_id p = lst_id l" using p(1) by (auto simp: runtime_link_points_def map_filter_def split: if_splits)
      then have "cp_link_id q \<in> set (candidate_links ?g source)" using q(2) c id by (simp add: point_key_def)
      then have "q \<in> set (session_points state source)" using q(1) by (simp add: session_points_def Let_def)
      then show "k \<in> point_key ` set (session_points state source)" using q(2) p(2) by (metis imageI)
    qed
  }
qed

section \<open>Witnesses\<close>

definition demo_runtime_link :: "string \<Rightarrow> string \<Rightarrow> string \<Rightarrow> runtime_link_state" where
  "demo_runtime_link lid a b =
     \<lparr>lst_id = lid, lst_link_type = ''runtime'', lst_endpoint_a = [(''node'', a), (''iface'', ''eth1'')],
      lst_endpoint_b = [(''node'', b), (''iface'', ''eth2'')], lst_host_a = ''master'', lst_host_b = ''w1'',
      lst_host_endpoint_a = ''h'' @ lid, lst_host_endpoint_b = ''g'' @ lid, lst_container_a = [], lst_container_b = [],
      lst_warm_a = False, lst_warm_b = False, lst_vxlan_id = 0, lst_state = ''up'', lst_last_error = [],
      lst_validation_error = False\<rparr>"

definition demo_state :: deployment_state where
  "demo_state =
     \<lparr>dep_lab_name = ''demo'', dep_topology_file = [], dep_deployed_at = [], dep_dnlab_deployed = True, dep_runtime_mode = ''micro'',
      dep_vrf_table_id = 0, dep_mgmt = None, dep_jumphost = None, dep_dns = None, dep_runtime_relays = [],
      dep_scheduling = [], dep_vxlan_dataplane = [], dep_mgmt_anchors = [], dep_node_runtime = [],
      dep_runtime_links = [demo_runtime_link ''L1'' ''r1'' ''r2'', demo_runtime_link ''L2'' ''r3'' ''r4''],
      dep_webui_allocations = [], dep_mgmt_ip_reservations = [], dep_realnets = [], dep_phases_completed = []\<rparr>"

lemma demo_points: "map cp_iface (session_points demo_state ''r1'') = [''hL1'', ''gL1'']"
  by code_simp

theorem reconstruction_never_fails_witness:
  "\<exists>r. reconstruct sorted_list_of_set (build_topo_graph demo_state) (known_observations (build_topo_graph demo_state) []) ''r1'' = Inr r
     \<and> reconstruction_of sorted_list_of_set (\<lambda>_. VNone) (build_topo_graph demo_state) [] ''r1''
         = Inr (serialize_result (\<lambda>_. VNone) r (build_topo_graph demo_state) (known_observations (build_topo_graph demo_state) []))"
  by (rule reconstruction_never_fails [OF sorted_iter_ok])

theorem session_points_cover_witness:
  "\<exists>p \<in> set (session_points demo_state ''r1''). \<exists>l \<in> set (tg_links (build_topo_graph demo_state)). lr_id l = cp_link_id p
     \<and> (reach (build_topo_graph demo_state) ''r1'' (lr_node_a l) \<or> reach (build_topo_graph demo_state) ''r1'' (lr_node_b l))"
proof -
  have r: "''r1'' \<in> tg_nodes (build_topo_graph demo_state)" by code_simp
  obtain p where "p \<in> set (session_points demo_state ''r1'')" using demo_points by (cases "session_points demo_state ''r1''") auto
  then show ?thesis using session_points_cover [of demo_state "''r1''"] r by blast
qed

end
