(* ===== verification/RabbitSessions.thy ===== *)
theory RabbitSessions
  imports FollowRabbit Values
begin

text \<open>
  The manager of Follow the Rabbit sessions, \<open>FollowRabbitManager\<close> of \<open>services/follow_rabbit.py\<close>. Its
  coroutines never wait while they hold the lock, so between two points where a coroutine waits
  (for a chunk of a capture, for tasks, for time) everything happens at once: each such stretch is one
  function, and the coroutines interleave as a step relation. The clock is a parameter that is read
  once in a step.
\<close>

section \<open>Sessions\<close>

record rabbit_hit =
  ht_point :: capture_point
  ht_direction :: string
  ht_sample :: "string list"
  ht_observed_at :: rat

record probe_report =
  br_point :: capture_point
  br_direction :: string
  br_rc :: int
  br_packet_count :: nat
  br_sample :: "string list"
  br_error :: string
  br_observed_at :: rat

record rabbit_session =
  ss_id :: string
  ss_lab :: string
  ss_source :: string
  ss_flow :: flow_filter
  ss_status :: string
  ss_started :: rat
  ss_completed :: rat
  ss_timeout :: int
  ss_hits :: "(string, rabbit_hit) dict"
  ss_observations :: "probe_report list"
  ss_reconstruction :: yvalue
  ss_capture_points :: nat
  ss_probe_count :: nat
  ss_packets :: "packet_observation list"
  ss_graph :: "topo_graph option"
  ss_last_emit :: rat

abbreviation running :: "rabbit_session \<Rightarrow> bool" where
  "running s \<equiv> ss_status s = ''running''"

text \<open>The parameters: how sets are iterated and how numbers print.\<close>

record rabbit_world =
  rw_iter :: "string set \<Rightarrow> string list"
  rw_float :: "rat \<Rightarrow> yvalue"

definition str_map_json :: "(string, string) dict \<Rightarrow> yvalue" where
  "str_map_json d = VDict (map (\<lambda>(k, v). (k, VStr v)) d)"

definition hit_json :: "rabbit_world \<Rightarrow> rabbit_hit \<Rightarrow> (string, yvalue) dict" where
  "hit_json w h =
     [(''link_id'', VStr (cp_link_id (ht_point h))), (''link_type'', VStr (cp_link_type (ht_point h))),
      (''direction'', VStr (ht_direction h)), (''host'', VStr (cp_host (ht_point h))), (''iface'', VStr (cp_iface (ht_point h))),
      (''endpoint_a'', str_map_json (cp_endpoint_a (ht_point h))), (''endpoint_b'', str_map_json (cp_endpoint_b (ht_point h))),
      (''side'', VStr (cp_side (ht_point h))), (''sample'', VList (map VStr (ht_sample h))),
      (''observed_at'', rw_float w (ht_observed_at h))]"

definition report_json :: "rabbit_world \<Rightarrow> probe_report \<Rightarrow> (string, yvalue) dict" where
  "report_json w r =
     [(''capture_point'', VStr (cp_id (br_point r))), (''link_id'', VStr (cp_link_id (br_point r))),
      (''link_type'', VStr (cp_link_type (br_point r))), (''direction'', VStr (br_direction r)),
      (''host'', VStr (cp_host (br_point r))), (''iface'', VStr (cp_iface (br_point r))), (''side'', VStr (cp_side (br_point r))),
      (''rc'', VInt (br_rc r)), (''packet_count'', VInt (int (br_packet_count r))),
      (''sample'', VList (map VStr (br_sample r))), (''error'', VStr (br_error r)),
      (''observed_at'', rw_float w (br_observed_at r))]"

text \<open>\<open>round(x, 1)\<close>: to the nearest tenth, a tie to the even one.\<close>

definition round1 :: "rat \<Rightarrow> rat" where
  "round1 x =
     (let y = 10 * x; d = y - of_int (floor y);
          n = (if 2 * d < 1 then floor y else if 2 * d > 1 then floor y + 1
               else if floor y mod 2 = 0 then floor y else floor y + 1)
      in of_int n / 10)"

definition elapsed_seconds :: "rat \<Rightarrow> rabbit_session \<Rightarrow> rat" where
  "elapsed_seconds now s = max 0 ((if ss_completed s \<noteq> 0 then ss_completed s else now) - ss_started s)"

definition remaining_seconds :: "rat \<Rightarrow> rabbit_session \<Rightarrow> rat" where
  "remaining_seconds now s = (if \<not> running s then 0 else max 0 (of_int (ss_timeout s) - elapsed_seconds now s))"

definition active_probes :: "rabbit_session \<Rightarrow> int" where
  "active_probes s = (if running s then max 0 (int (ss_probe_count s) - int (length (ss_observations s))) else 0)"

definition progress_percent :: "rat \<Rightarrow> rabbit_session \<Rightarrow> rat" where
  "progress_percent now s =
     (if running s \<and> ss_timeout s \<noteq> 0 then min 99 (elapsed_seconds now s / of_int (ss_timeout s) * 100) else 100)"

definition session_progress_fields :: "rabbit_world \<Rightarrow> rat \<Rightarrow> rabbit_session \<Rightarrow> (string, yvalue) dict" where
  "session_progress_fields w now s =
     [(''active_probe_count'', VInt (active_probes s)),
      (''elapsed_seconds'', rw_float w (round1 (elapsed_seconds now s))),
      (''remaining_seconds'', rw_float w (round1 (remaining_seconds now s))),
      (''progress_percent'', rw_float w (round1 (progress_percent now s)))]"

definition completed_json :: "rabbit_world \<Rightarrow> rabbit_session \<Rightarrow> yvalue" where
  "completed_json w s = (if ss_completed s = 0 then VNone else rw_float w (ss_completed s))"

definition session_summary :: "rabbit_world \<Rightarrow> rat \<Rightarrow> rabbit_session \<Rightarrow> (string, yvalue) dict" where
  "session_summary w now s =
     [(''capture_points'', VInt (int (ss_capture_points s))), (''probe_count'', VInt (int (ss_probe_count s))),
      (''completed_probe_count'', VInt (int (length (ss_observations s)))),
      (''packet_observation_count'', VInt (int (length (ss_packets s)))), (''completed_at'', completed_json w s)]
     @ session_progress_fields w now s"

text \<open>The payload of a progress event and of the last event.\<close>

definition session_progress_payload :: "rabbit_world \<Rightarrow> rat \<Rightarrow> rabbit_session \<Rightarrow> (string, yvalue) dict" where
  "session_progress_payload w now s = session_summary w now s @ [(''reconstruction'', ss_reconstruction s)]"

definition session_json :: "rabbit_world \<Rightarrow> rat \<Rightarrow> rabbit_session \<Rightarrow> (string, yvalue) dict" where
  "session_json w now s =
     [(''session_id'', VStr (ss_id s)), (''lab_name'', VStr (ss_lab s)), (''source_node'', VStr (ss_source s)),
      (''flow'', VDict [(''src_ip'', VStr (ff_src_ip (ss_flow s))), (''dst_ip'', VStr (ff_dst_ip (ss_flow s))),
                        (''protocol'', VStr (ff_protocol (ss_flow s))), (''src_port'', VInt (ff_src_port (ss_flow s))),
                        (''dst_port'', VInt (ff_dst_port (ss_flow s)))]),
      (''status'', VStr (ss_status s)), (''started_at'', rw_float w (ss_started s)), (''completed_at'', completed_json w s),
      (''timeout_seconds'', VInt (ss_timeout s)),
      (''hits'', VList (map (\<lambda>h. VDict (hit_json w h)) (dict_values (ss_hits s)))),
      (''observations'', VList (map (\<lambda>r. VDict (report_json w r)) (ss_observations s))),
      (''reconstruction'', ss_reconstruction s), (''error'', VStr []),
      (''capture_points'', VInt (int (ss_capture_points s))), (''probe_count'', VInt (int (ss_probe_count s))),
      (''completed_probe_count'', VInt (int (length (ss_observations s)))),
      (''packet_observation_count'', VInt (int (length (ss_packets s))))]
     @ session_progress_fields w now s"

text \<open>\<open>_reconstruct\<close>; the reconstruction of packets on known links never fails.\<close>

definition reconstruct_session :: "rabbit_world \<Rightarrow> rabbit_session \<Rightarrow> rabbit_session" where
  "reconstruct_session w s =
     (case ss_graph s of
        None \<Rightarrow> s
      | Some g \<Rightarrow>
          (case reconstruction_of (rw_iter w) (rw_float w) g (ss_packets s) (ss_source s) of
             Inl _ \<Rightarrow> s
           | Inr v \<Rightarrow> s\<lparr>ss_reconstruction := v\<rparr>))"

section \<open>The manager\<close>

record rabbit_event =
  re_kind :: string
  re_session :: string
  re_lab :: string
  re_data :: "(string, yvalue) dict"
  re_ts :: rat

definition event_of :: "string \<Rightarrow> rabbit_session \<Rightarrow> (string, yvalue) dict \<Rightarrow> rat \<Rightarrow> rabbit_event" where
  "event_of kind s data now = \<lparr>re_kind = kind, re_session = ss_id s, re_lab = ss_lab s, re_data = data, re_ts = now\<rparr>"

text \<open>A probe that runs: what it watches and how far its parser is.\<close>

record rabbit_probe =
  pb_point :: capture_point
  pb_direction :: string
  pb_bpf :: string
  pb_host_known :: bool
  pb_parser :: pcap_parser
  pb_count :: nat

text \<open>
  Where the coroutine \<open>_finish_after_timeout\<close> waits: before its first line, after \<open>sleep(0)\<close>, for the
  other tasks, for the deadline when there are none, for the tasks that are late, and before it
  closes the session.
\<close>

datatype finish_place = Created | Yielded | AwaitTasks "nat list" | AwaitDeadline | Draining "nat list" | Closing

text \<open>
  \<open>fm_sessions\<close> and \<open>fm_tasks\<close> are the two dictionaries of the manager; a session's tasks are its probes,
  which are numbered, and the finisher. \<open>fm_probes\<close> and \<open>fm_finishers\<close> are the tasks that have not ended,
  \<open>fm_stopping\<close> the calls of \<open>stop\<close> that wait for cancelled tasks, with their emit argument.
\<close>

record rabbit_manager =
  fm_sessions :: "(string, rabbit_session) dict"
  fm_tasks :: "(string, nat list) dict"
  fm_probes :: "(string \<times> nat, rabbit_probe) dict"
  fm_finishers :: "(string, finish_place) dict"
  fm_stopping :: "(string \<times> bool) list"
  fm_events :: "rabbit_event list"

definition new_manager :: rabbit_manager where
  "new_manager = \<lparr>fm_sessions = [], fm_tasks = [], fm_probes = [], fm_finishers = [], fm_stopping = [], fm_events = []\<rparr>"

definition upd_key :: "'k \<Rightarrow> ('v \<Rightarrow> 'v) \<Rightarrow> ('k, 'v) dict \<Rightarrow> ('k, 'v) dict" where
  "upd_key k f d = map (\<lambda>(k', v). (k', if k' = k then f v else v)) d"

definition on_session :: "string \<Rightarrow> (rabbit_session \<Rightarrow> rabbit_session) \<Rightarrow> rabbit_manager \<Rightarrow> rabbit_manager" where
  "on_session sid f m = m\<lparr>fm_sessions := upd_key sid f (fm_sessions m)\<rparr>"

text \<open>Emitting an event about a session, made from its present contents.\<close>

definition emit :: "string \<Rightarrow> (rabbit_session \<Rightarrow> rabbit_event) \<Rightarrow> rabbit_manager \<Rightarrow> rabbit_manager" where
  "emit sid mk m =
     (case dict_get (fm_sessions m) sid of None \<Rightarrow> m | Some s \<Rightarrow> m\<lparr>fm_events := fm_events m @ [mk s]\<rparr>)"

section \<open>Probes\<close>

definition emit_session_progress :: "rabbit_world \<Rightarrow> rat \<Rightarrow> bool \<Rightarrow> string \<Rightarrow> rabbit_manager \<Rightarrow> rabbit_manager" where
  "emit_session_progress w now force sid m =
     (case dict_get (fm_sessions m) sid of
        None \<Rightarrow> m
      | Some s \<Rightarrow>
          if \<not> force \<and> now - ss_last_emit s < 1 / 2 then m
          else emit sid (\<lambda>s. event_of ''session_progress'' s (session_progress_payload w now s) now)
                 (on_session sid (\<lambda>s. reconstruct_session w (s\<lparr>ss_last_emit := now\<rparr>)) m))"

definition packet_sample :: "nat \<Rightarrow> string list" where
  "packet_sample n = [show_nat n @ '' packet(s)'']"

definition hit_key :: "capture_point \<Rightarrow> string \<Rightarrow> string" where
  "hit_key point direction = direction @ '':'' @ cp_link_id point"

text \<open>\<open>_record_hit\<close>: the new hit, if this is the first packet on the link in that direction.\<close>

definition record_hit :: "rat \<Rightarrow> capture_point \<Rightarrow> string \<Rightarrow> string list \<Rightarrow> rabbit_session \<Rightarrow> rabbit_hit option" where
  "record_hit now point direction sample s =
     (if running s \<and> dict_get (ss_hits s) (hit_key point direction) = None
      then Some \<lparr>ht_point = point, ht_direction = direction, ht_sample = sample, ht_observed_at = now\<rparr> else None)"

text \<open>\<open>on_packet\<close> for the \<open>count\<close>th packet of a probe.\<close>

definition on_packet ::
  "rabbit_world \<Rightarrow> rat \<Rightarrow> string \<Rightarrow> capture_point \<Rightarrow> string \<Rightarrow> nat \<Rightarrow> parsed_packet \<Rightarrow> rabbit_manager \<Rightarrow> rabbit_manager" where
  "on_packet w now sid point direction n pkt m =
     (let m1 = on_session sid (\<lambda>s. s\<lparr>ss_packets := ss_packets s @ [observation_from_packet pkt point direction]\<rparr>) m
      in case dict_get (fm_sessions m1) sid of
           None \<Rightarrow> m1
         | Some s \<Rightarrow>
             (case record_hit now point direction (packet_sample n) s of
                Some h \<Rightarrow>
                  emit_session_progress w now True sid
                    (emit sid (\<lambda>s. event_of ''link_hit'' s (hit_json w h) now)
                      (on_session sid (\<lambda>s. s\<lparr>ss_hits := dict_set (hit_key point direction) h (ss_hits s)\<rparr>) m1))
              | None \<Rightarrow> emit_session_progress w now False sid m1))"

fun on_packets ::
  "rabbit_world \<Rightarrow> rat \<Rightarrow> string \<Rightarrow> capture_point \<Rightarrow> string \<Rightarrow> nat \<Rightarrow> parsed_packet list \<Rightarrow> rabbit_manager \<Rightarrow> rabbit_manager" where
  "on_packets w now sid point direction n [] m = m"
| "on_packets w now sid point direction n (pkt # pkts) m =
     on_packets w now sid point direction (Suc n) pkts (on_packet w now sid point direction (Suc n) pkt m)"

text \<open>A piece of a capture arrives at a probe.\<close>

definition probe_chunk :: "rabbit_world \<Rightarrow> rat \<Rightarrow> string \<times> nat \<Rightarrow> byte list \<Rightarrow> rabbit_probe \<Rightarrow> rabbit_manager \<Rightarrow> rabbit_manager" where
  "probe_chunk w now t data pb m =
     (case feed data (pb_parser pb) of
        (pkts, parser) \<Rightarrow>
          on_packets w now (fst t) (pb_point pb) (pb_direction pb) (pb_count pb) pkts
            (m\<lparr>fm_probes := upd_key t (\<lambda>p. p\<lparr>pb_parser := parser, pb_count := pb_count pb + length pkts\<rparr>) (fm_probes m)\<rparr>))"

definition end_probe :: "string \<times> nat \<Rightarrow> rabbit_manager \<Rightarrow> rabbit_manager" where
  "end_probe t m = m\<lparr>fm_probes := filter (\<lambda>(k, _). k \<noteq> t) (fm_probes m)\<rparr>"

text \<open>The capture command of a probe ends; the outcome of a probe for an unknown host is given.\<close>

definition probe_report_of :: "rat \<Rightarrow> int \<Rightarrow> string \<Rightarrow> rabbit_probe \<Rightarrow> probe_report" where
  "probe_report_of now rc err pb =
     \<lparr>br_point = pb_point pb, br_direction = pb_direction pb, br_rc = rc, br_packet_count = pb_count pb,
      br_sample = (if pb_count pb \<noteq> 0 then packet_sample (pb_count pb) else []),
      br_error = (if rc \<noteq> 0 \<and> pb_count pb = 0 then err else []), br_observed_at = now\<rparr>"

definition probe_done :: "rabbit_world \<Rightarrow> rat \<Rightarrow> string \<times> nat \<Rightarrow> int \<Rightarrow> string \<Rightarrow> rabbit_probe \<Rightarrow> rabbit_manager \<Rightarrow> rabbit_manager" where
  "probe_done w now t rc err pb m =
     (let r = probe_report_of now rc err pb;
          m1 = emit_session_progress w now True (fst t)
                 (on_session (fst t) (\<lambda>s. s\<lparr>ss_observations := ss_observations s @ [r]\<rparr>) m)
      in end_probe t
           (if pb_count pb = 0 \<and> rc \<notin> {124, 143} \<and> err \<noteq> []
            then emit (fst t) (\<lambda>s. event_of ''session_error'' s (report_json w r) now) m1 else m1))"

definition probe_failed :: "rabbit_world \<Rightarrow> rat \<Rightarrow> string \<times> nat \<Rightarrow> string \<Rightarrow> rabbit_probe \<Rightarrow> rabbit_manager \<Rightarrow> rabbit_manager" where
  "probe_failed w now t msg pb m =
     (let r = \<lparr>br_point = pb_point pb, br_direction = pb_direction pb, br_rc = 1, br_packet_count = 0, br_sample = [],
               br_error = msg, br_observed_at = now\<rparr>
      in end_probe t (emit (fst t) (\<lambda>s. event_of ''session_error'' s (report_json w r) now)
           (on_session (fst t) (\<lambda>s. s\<lparr>ss_observations := ss_observations s @ [r]\<rparr>) m)))"

definition unknown_host_msg :: "rabbit_probe \<Rightarrow> string" where
  "unknown_host_msg pb = ''unknown host '' @ str_repr (cp_host (pb_point pb))"

section \<open>Starting a session\<close>

text \<open>What \<open>start\<close> reads: the inventory, the topology (or why it is rejected) and the state of the lab.\<close>

record start_request =
  rq_config :: "hosts_error + hosts_config"
  rq_topology :: "string + string \<times> string set"
  rq_state :: "string \<Rightarrow> deployment_state option"
  rq_source :: string
  rq_flow :: flow_filter
  rq_timeout :: int

definition new_session :: "rat \<Rightarrow> string \<Rightarrow> string \<Rightarrow> start_request \<Rightarrow> topo_graph \<Rightarrow> nat \<Rightarrow> rabbit_session" where
  "new_session now sid lab rq g n =
     \<lparr>ss_id = sid, ss_lab = lab, ss_source = rq_source rq, ss_flow = rq_flow rq, ss_status = ''running'',
      ss_started = now, ss_completed = 0, ss_timeout = clamp_timeout (rq_timeout rq), ss_hits = [], ss_observations = [],
      ss_reconstruction = VDict [], ss_capture_points = n, ss_probe_count = n * 2, ss_packets = [],
      ss_graph = Some g, ss_last_emit = 0\<rparr>"

definition new_probe :: "hosts_config \<Rightarrow> capture_point \<times> string \<times> string \<Rightarrow> rabbit_probe" where
  "new_probe conf pdb =
     (case pdb of (point, direction, bpf) \<Rightarrow>
        \<lparr>pb_point = point, pb_direction = direction, pb_bpf = bpf,
         pb_host_known = (dict_get (hosts_all conf) (cp_host point) \<noteq> None), pb_parser = new_parser, pb_count = 0\<rparr>)"

text \<open>Two probes for each point, then the finisher.\<close>

definition open_session ::
  "rabbit_world \<Rightarrow> rat \<Rightarrow> string \<Rightarrow> string \<Rightarrow> hosts_config \<Rightarrow> deployment_state \<Rightarrow> start_request \<Rightarrow> string \<Rightarrow> string
     \<Rightarrow> rabbit_manager \<Rightarrow> rabbit_manager" where
  "open_session w now sid lab conf state rq forward_bpf return_bpf m =
     (let points = session_points state (rq_source rq);
          probes = map (new_probe conf)
            (concat (map (\<lambda>p. [(p, ''forward'', forward_bpf), (p, ''return'', return_bpf)]) points));
          s = new_session now sid lab rq (build_topo_graph state) (length points);
          m1 = emit sid (\<lambda>s. event_of ''session_started'' s (session_summary w now s) now)
                 (m\<lparr>fm_sessions := dict_set sid s (fm_sessions m)\<rparr>)
      in m1\<lparr>fm_probes := fm_probes m @ map (\<lambda>(i, p). ((sid, i), p)) (enumerate 0 probes),
            fm_finishers := dict_set sid Created (fm_finishers m),
            fm_tasks := dict_set sid [0..<length probes] (fm_tasks m)\<rparr>)"

definition active_sessions :: "rabbit_manager \<Rightarrow> nat" where
  "active_sessions m = length (filter running (dict_values (fm_sessions m)))"

definition start_session ::
  "rabbit_world \<Rightarrow> rat \<Rightarrow> string \<Rightarrow> start_request \<Rightarrow> rabbit_manager \<Rightarrow> rabbit_error + rabbit_manager" where
  "start_session w now sid rq m =
     bindE (build_bpf (rq_flow rq) ''forward'') (\<lambda>forward_bpf.
     bindE (build_bpf (rq_flow rq) ''return'') (\<lambda>return_bpf.
     bindE (map_sum HostsUnreadable id (rq_config rq)) (\<lambda>conf.
     bindE (map_sum TopologyUnreadable id (rq_topology rq)) (\<lambda>topo.
     if rq_source rq \<notin> snd topo then Inl (SourceNotFound (rq_source rq))
     else
       (case rq_state rq (fst topo) of
          None \<Rightarrow> Inl (NotDeployed (fst topo))
        | Some state \<Rightarrow>
            if int (active_sessions m) \<ge> hc_max_sessions conf then Inl TooManySessions
            else Inr (open_session w now sid (fst topo) conf state rq forward_bpf return_bpf m))))))"

section \<open>Stopping and finishing\<close>

definition close_stop :: "rabbit_world \<Rightarrow> rat \<Rightarrow> string \<Rightarrow> bool \<Rightarrow> rabbit_manager \<Rightarrow> rabbit_manager" where
  "close_stop w now sid notify m =
     (let m1 = on_session sid (reconstruct_session w) m
      in if notify then emit sid (\<lambda>s. event_of ''session_done'' s (session_progress_payload w now s) now) m1 else m1)"

text \<open>\<open>stop\<close> up to the point where it waits for the tasks it cancelled, if there are any.\<close>

definition begin_stop :: "rabbit_world \<Rightarrow> rat \<Rightarrow> string \<Rightarrow> bool \<Rightarrow> rabbit_manager \<Rightarrow> rabbit_error + rabbit_manager" where
  "begin_stop w now sid notify m =
     (if dict_get (fm_sessions m) sid = None then Inl SessionNotFound
      else
        (let m1 = on_session sid (\<lambda>s. s\<lparr>ss_status := ''stopped'', ss_completed := now\<rparr>) m
         in case dict_get (fm_tasks m) sid of
              None \<Rightarrow> Inr (close_stop w now sid notify m1)
            | Some ks \<Rightarrow>
                Inr (m1\<lparr>fm_tasks := dict_pop sid (fm_tasks m),
                        fm_probes := filter (\<lambda>(t, _). \<not> (fst t = sid \<and> snd t \<in> set ks)) (fm_probes m),
                        fm_finishers := dict_pop sid (fm_finishers m),
                        fm_stopping := fm_stopping m @ [(sid, notify)]\<rparr>)))"

definition alive :: "rabbit_manager \<Rightarrow> string \<Rightarrow> nat list \<Rightarrow> nat list" where
  "alive m sid ks = filter (\<lambda>k. (sid, k) \<in> set (dict_keys (fm_probes m))) ks"

definition session_running :: "rabbit_manager \<Rightarrow> string \<Rightarrow> bool" where
  "session_running m sid = (case dict_get (fm_sessions m) sid of None \<Rightarrow> False | Some s \<Rightarrow> running s)"

definition close_session :: "rabbit_world \<Rightarrow> rat \<Rightarrow> string \<Rightarrow> rabbit_manager \<Rightarrow> rabbit_manager" where
  "close_session w now sid m =
     emit sid (\<lambda>s. event_of ''session_done'' s (session_progress_payload w now s) now)
       (on_session sid (reconstruct_session w)
         ((on_session sid (\<lambda>s. s\<lparr>ss_status := ''done'', ss_completed := now\<rparr>) m)
            \<lparr>fm_tasks := dict_pop sid (fm_tasks m), fm_finishers := dict_pop sid (fm_finishers m)\<rparr>))"

definition move_finisher :: "string \<Rightarrow> finish_place \<Rightarrow> rabbit_manager \<Rightarrow> rabbit_manager" where
  "move_finisher sid place m = m\<lparr>fm_finishers := dict_set sid place (fm_finishers m)\<rparr>"

text \<open>
  One stretch of \<open>_finish_after_timeout\<close>, given whether the time it may wait is over; \<^const>\<open>None\<close> while it
  waits. Tasks that are still there after the grace time are cancelled.
\<close>

definition finish_step :: "rabbit_world \<Rightarrow> rat \<Rightarrow> bool \<Rightarrow> string \<Rightarrow> rabbit_manager \<Rightarrow> rabbit_manager option" where
  "finish_step w now over sid m =
     (case dict_get (fm_finishers m) sid of
        None \<Rightarrow> None
      | Some Created \<Rightarrow> Some (move_finisher sid Yielded m)
      | Some Yielded \<Rightarrow>
          if \<not> session_running m sid then Some (m\<lparr>fm_finishers := dict_pop sid (fm_finishers m)\<rparr>)
          else (let others = dict_get_or (fm_tasks m) sid []
                in Some (move_finisher sid (if others = [] then AwaitDeadline else AwaitTasks others) m))
      | Some (AwaitTasks others) \<Rightarrow>
          if alive m sid others = [] then Some (move_finisher sid Closing m)
          else if over then Some (move_finisher sid (Draining (alive m sid others)) m) else None
      | Some AwaitDeadline \<Rightarrow> if over then Some (move_finisher sid Closing m) else None
      | Some (Draining pending) \<Rightarrow>
          if alive m sid pending = [] then Some (move_finisher sid Closing m)
          else if over
          then Some (move_finisher sid Closing
                 (m\<lparr>fm_probes := filter (\<lambda>(t, _). \<not> (fst t = sid \<and> snd t \<in> set pending)) (fm_probes m)\<rparr>))
          else None
      | Some Closing \<Rightarrow>
          if \<not> session_running m sid then Some (m\<lparr>fm_finishers := dict_pop sid (fm_finishers m)\<rparr>)
          else Some (close_session w now sid m))"

definition list_sessions ::
  "rabbit_world \<Rightarrow> rat \<Rightarrow> string option \<Rightarrow> rabbit_manager \<Rightarrow> (string, yvalue) dict list \<times> rabbit_manager" where
  "list_sessions w now lab m =
     (let wanted = (\<lambda>s. lab = None \<or> lab = Some (ss_lab s));
          sessions = map (\<lambda>(k, s). (k, if wanted s then reconstruct_session w s else s)) (fm_sessions m)
      in (map (session_json w now) (filter wanted (dict_values sessions)), m\<lparr>fm_sessions := sessions\<rparr>))"

section \<open>Interleaving\<close>

text \<open>
  A session gets an identifier that no session has (\<open>secrets.token_hex\<close>); the inventory sets the same
  maximum at every start.
\<close>

inductive rabbit_step :: "rabbit_world \<Rightarrow> int \<Rightarrow> rabbit_manager \<Rightarrow> rabbit_manager \<Rightarrow> bool" for w limit where
  start: "start_session w now sid rq m = Inr m' \<Longrightarrow> sid \<notin> set (dict_keys (fm_sessions m))
    \<Longrightarrow> rq_config rq = Inr conf \<Longrightarrow> hc_max_sessions conf = limit \<Longrightarrow> rabbit_step w limit m m'"
| chunk: "dict_get (fm_probes m) t = Some pb \<Longrightarrow> pb_host_known pb \<Longrightarrow> rabbit_step w limit m (probe_chunk w now t data pb m)"
| ended: "dict_get (fm_probes m) t = Some pb \<Longrightarrow> (\<not> pb_host_known pb \<longrightarrow> rc = 127 \<and> err = unknown_host_msg pb)
    \<Longrightarrow> rabbit_step w limit m (probe_done w now t rc err pb m)"
| failed: "dict_get (fm_probes m) t = Some pb \<Longrightarrow> rabbit_step w limit m (probe_failed w now t msg pb m)"
| finish: "finish_step w now over sid m = Some m' \<Longrightarrow> rabbit_step w limit m m'"
| begin_stop: "begin_stop w now sid notify m = Inr m' \<Longrightarrow> rabbit_step w limit m m'"
| end_stop: "fm_stopping m = ps @ (sid, notify) # qs
    \<Longrightarrow> rabbit_step w limit m (close_stop w now sid notify (m\<lparr>fm_stopping := ps @ qs\<rparr>))"
| listing: "rabbit_step w limit m (snd (list_sessions w now lab m))"

inductive_cases rabbit_stepE: "rabbit_step w limit m m'"

inductive rabbit_reachable :: "rabbit_world \<Rightarrow> int \<Rightarrow> rabbit_manager \<Rightarrow> bool" for w limit where
  init: "rabbit_reachable w limit new_manager"
| step: "rabbit_reachable w limit m \<Longrightarrow> rabbit_step w limit m m' \<Longrightarrow> rabbit_reachable w limit m'"

section \<open>What a step changes\<close>

text \<open>
  The part of a manager that decides what can happen next: the status of every session, the
  registered tasks, the probes and the finishers that have not ended.
\<close>

definition statuses :: "rabbit_manager \<Rightarrow> (string, string) dict" where
  "statuses m = map (\<lambda>(k, s). (k, ss_status s)) (fm_sessions m)"

definition same_control :: "rabbit_manager \<Rightarrow> rabbit_manager \<Rightarrow> bool" where
  "same_control m m' \<longleftrightarrow> statuses m' = statuses m \<and> fm_tasks m' = fm_tasks m
     \<and> dict_keys (fm_probes m') = dict_keys (fm_probes m) \<and> fm_finishers m' = fm_finishers m
     \<and> fm_stopping m' = fm_stopping m"

lemma same_control_refl [simp]: "same_control m m"
  by (simp add: same_control_def)

lemma same_control_trans: "same_control m m' \<Longrightarrow> same_control m' m'' \<Longrightarrow> same_control m m''"
  by (simp add: same_control_def)

lemma upd_key_keys [simp]: "dict_keys (upd_key k f d) = dict_keys d"
  by (induction d) (auto simp: upd_key_def)

lemma upd_key_get: "dict_get (upd_key k f d) k' = (if k' = k then map_option f (dict_get d k) else dict_get d k')"
  by (induction d) (auto simp: upd_key_def)

lemma statuses_keys [simp]: "dict_keys (statuses m) = dict_keys (fm_sessions m)"
  by (simp add: statuses_def comp_def split_beta)

lemma statuses_get: "dict_get (statuses m) sid = map_option ss_status (dict_get (fm_sessions m) sid)"
proof -
  have "map_of (map (\<lambda>(k, s). (k, ss_status s)) ss) sid = map_option ss_status (map_of ss sid)" for ss
    by (induction ss) auto
  then show ?thesis by (simp add: statuses_def)
qed

lemma statuses_on_session:
  assumes "\<And>s. ss_status (f s) = ss_status s"
  shows "statuses (on_session sid f m) = statuses m"
  by (simp add: statuses_def on_session_def upd_key_def split_beta assms cong: if_cong)

lemma reconstruct_session_same [simp]:
  "ss_status (reconstruct_session w s) = ss_status s" "ss_hits (reconstruct_session w s) = ss_hits s"
  "ss_packets (reconstruct_session w s) = ss_packets s" "ss_observations (reconstruct_session w s) = ss_observations s"
  "ss_lab (reconstruct_session w s) = ss_lab s"
  by (simp_all add: reconstruct_session_def split: option.split sum.split)

lemma same_control_on_session: "(\<And>s. ss_status (f s) = ss_status s) \<Longrightarrow> same_control m (on_session sid f m)"
  by (simp add: same_control_def statuses_on_session) (simp add: on_session_def)

lemma same_control_emit [simp]: "same_control m (emit sid mk m)"
  by (simp add: emit_def same_control_def statuses_def split: option.split)

lemma same_control_progress: "same_control m (emit_session_progress w now force sid m)"
  unfolding emit_session_progress_def
  by (auto split: option.split intro: same_control_trans [OF same_control_on_session same_control_emit])

lemma same_control_packet: "same_control m (on_packet w now sid point direction n pkt m)"
  unfolding on_packet_def Let_def
  by (auto split: option.split
      intro!: same_control_trans [OF _ same_control_progress] same_control_trans [OF _ same_control_emit]
        same_control_on_session same_control_trans [OF same_control_on_session same_control_on_session])

lemma same_control_packets: "same_control m (on_packets w now sid point direction n pkts m)"
proof (induction w now sid point direction n pkts m rule: on_packets.induct)
  case (2 w now sid point direction n pkt pkts m)
  then show ?case using same_control_trans [OF same_control_packet] by simp
qed simp

lemma same_control_chunk: "same_control m (probe_chunk w now t data pb m)"
proof -
  obtain pkts parser where f: "feed data (pb_parser pb) = (pkts, parser)" by (cases "feed data (pb_parser pb)")
  let ?m = "m\<lparr>fm_probes := upd_key t (\<lambda>p. p\<lparr>pb_parser := parser, pb_count := pb_count pb + length pkts\<rparr>) (fm_probes m)\<rparr>"
  have "same_control m ?m" by (simp add: same_control_def statuses_def)
  then show ?thesis using same_control_trans [OF _ same_control_packets] f by (simp add: probe_chunk_def)
qed

lemma filter_probe_keys: "dict_keys (filter (\<lambda>(k, _). P k) d) = filter P (dict_keys d)"
  by (induction d) auto

text \<open>A probe that ends leaves everything but the probes.\<close>

lemma control_probe_done:
  "statuses (probe_done w now t rc err pb m) = statuses m" "fm_tasks (probe_done w now t rc err pb m) = fm_tasks m"
  "fm_finishers (probe_done w now t rc err pb m) = fm_finishers m"
  "dict_keys (fm_probes (probe_done w now t rc err pb m)) = filter (\<lambda>k. k \<noteq> t) (dict_keys (fm_probes m))"
proof -
  define m2 where "m2 = (let r = probe_report_of now rc err pb;
          m1 = emit_session_progress w now True (fst t) (on_session (fst t) (\<lambda>s. s\<lparr>ss_observations := ss_observations s @ [r]\<rparr>) m)
      in if pb_count pb = 0 \<and> rc \<notin> {124, 143} \<and> err \<noteq> []
         then emit (fst t) (\<lambda>s. event_of ''session_error'' s (report_json w r) now) m1 else m1)"
  have "same_control m m2"
    unfolding m2_def Let_def
    by (auto intro!: same_control_trans [OF _ same_control_emit] same_control_trans [OF _ same_control_progress] same_control_on_session)
  moreover have "probe_done w now t rc err pb m = end_probe t m2" by (simp add: probe_done_def m2_def Let_def)
  ultimately show
    "statuses (probe_done w now t rc err pb m) = statuses m" "fm_tasks (probe_done w now t rc err pb m) = fm_tasks m"
    "fm_finishers (probe_done w now t rc err pb m) = fm_finishers m"
    "dict_keys (fm_probes (probe_done w now t rc err pb m)) = filter (\<lambda>k. k \<noteq> t) (dict_keys (fm_probes m))"
    by (simp_all add: end_probe_def same_control_def statuses_def filter_probe_keys)
qed

lemma control_probe_failed:
  "statuses (probe_failed w now t msg pb m) = statuses m" "fm_tasks (probe_failed w now t msg pb m) = fm_tasks m"
  "fm_finishers (probe_failed w now t msg pb m) = fm_finishers m"
  "dict_keys (fm_probes (probe_failed w now t msg pb m)) = filter (\<lambda>k. k \<noteq> t) (dict_keys (fm_probes m))"
proof -
  have "same_control m (emit sid mk (on_session sid (\<lambda>s. s\<lparr>ss_observations := ss_observations s @ [r]\<rparr>) m))" for sid mk r
    by (rule same_control_trans [OF same_control_on_session same_control_emit]) simp
  then show
    "statuses (probe_failed w now t msg pb m) = statuses m" "fm_tasks (probe_failed w now t msg pb m) = fm_tasks m"
    "fm_finishers (probe_failed w now t msg pb m) = fm_finishers m"
    "dict_keys (fm_probes (probe_failed w now t msg pb m)) = filter (\<lambda>k. k \<noteq> t) (dict_keys (fm_probes m))"
    by (simp_all add: probe_failed_def Let_def end_probe_def same_control_def statuses_def filter_probe_keys)
qed

lemma statuses_end:
  assumes "\<And>s. ss_status (f s) = v"
  shows "statuses (on_session sid f m) = upd_key sid (\<lambda>_. v) (statuses m)"
  by (simp add: statuses_def on_session_def upd_key_def split_beta comp_def assms if_distrib [of ss_status] cong: if_cong)

section \<open>The invariant\<close>

definition running_count :: "(string, string) dict \<Rightarrow> nat" where
  "running_count S = length (filter (\<lambda>kv. snd kv = ''running'') S)"

definition live_in :: "(string, string) dict \<Rightarrow> string \<Rightarrow> bool" where
  "live_in S sid \<longleftrightarrow> dict_get S sid = Some ''running''"

lemma live_set [simp]: "live_in (dict_set sid v S) sid' = (if sid' = sid then v = ''running'' else live_in S sid')"
  by (simp add: live_in_def)

lemma live_upd [simp]: "v \<noteq> ''running'' \<Longrightarrow> live_in (upd_key sid (\<lambda>_. v) S) sid' = (sid' \<noteq> sid \<and> live_in S sid')"
  by (auto simp: live_in_def upd_key_get)

text \<open>
  A session runs exactly as long as it has a finisher and registered tasks; every probe belongs to
  a running session and is registered; the finisher knows of every probe there is.
\<close>

fun place_ok :: "nat list \<Rightarrow> nat set \<Rightarrow> finish_place \<Rightarrow> bool" where
  "place_ok ks live (AwaitTasks others) = (others = ks)"
| "place_ok ks live (Draining pending) = (live \<subseteq> set pending)"
| "place_ok ks live AwaitDeadline = (live = {})"
| "place_ok ks live Closing = (live = {})"
| "place_ok ks live _ = True"

definition sound :: "int \<Rightarrow> (string, string) dict \<Rightarrow> (string, nat list) dict \<Rightarrow> (string \<times> nat) set \<Rightarrow> (string, finish_place) dict \<Rightarrow> bool" where
  "sound limit S T P F \<longleftrightarrow>
     dict_ok S \<and> int (running_count S) \<le> max 0 limit
   \<and> (\<forall>sid k. (sid, k) \<in> P \<longrightarrow> (\<exists>ks. dict_get T sid = Some ks \<and> k \<in> set ks))
   \<and> (\<forall>sid. (dict_get T sid \<noteq> None) = live_in S sid
         \<and> (dict_get F sid \<noteq> None) = live_in S sid)
   \<and> (\<forall>sid ks place. dict_get T sid = Some ks \<longrightarrow> dict_get F sid = Some place \<longrightarrow> place_ok ks {k. (sid, k) \<in> P} place)"

definition sound_manager :: "int \<Rightarrow> rabbit_manager \<Rightarrow> bool" where
  "sound_manager limit m \<longleftrightarrow> sound limit (statuses m) (fm_tasks m) (set (dict_keys (fm_probes m))) (fm_finishers m)"

lemma active_running_count: "active_sessions m = running_count (statuses m)"
  by (simp add: active_sessions_def running_count_def statuses_def filter_map comp_def split_beta)

lemma place_ok_less: "place_ok ks live place \<Longrightarrow> live' \<subseteq> live \<Longrightarrow> place_ok ks live' place"
  by (cases place) auto

lemma soundD:
  assumes "sound limit S T P F"
  shows "dict_ok S" "int (running_count S) \<le> max 0 limit"
    "(sid, k) \<in> P \<Longrightarrow> \<exists>ks. dict_get T sid = Some ks \<and> k \<in> set ks"
    "(dict_get T sid \<noteq> None) = live_in S sid" "(dict_get F sid \<noteq> None) = live_in S sid"
    "dict_get T sid = Some ks \<Longrightarrow> dict_get F sid = Some place \<Longrightarrow> place_ok ks {k. (sid, k) \<in> P} place"
  using assms unfolding sound_def by simp_all

lemma soundI:
  assumes "dict_ok S" "int (running_count S) \<le> max 0 limit"
    "\<And>sid k. (sid, k) \<in> P \<Longrightarrow> \<exists>ks. dict_get T sid = Some ks \<and> k \<in> set ks"
    "\<And>sid. (dict_get T sid \<noteq> None) = live_in S sid" "\<And>sid. (dict_get F sid \<noteq> None) = live_in S sid"
    "\<And>sid ks place. dict_get T sid = Some ks \<Longrightarrow> dict_get F sid = Some place \<Longrightarrow> place_ok ks {k. (sid, k) \<in> P} place"
  shows "sound limit S T P F"
  using assms unfolding sound_def by blast

lemma sound_fewer_probes: "sound limit S T P F \<Longrightarrow> P' \<subseteq> P \<Longrightarrow> sound limit S T P' F"
proof -
  assume s: "sound limit S T P F" and sub: "P' \<subseteq> P"
  show ?thesis
    by (rule soundI, rule soundD(1) [OF s], rule soundD(2) [OF s], rule soundD(3) [OF s], (use sub in blast),
        rule soundD(4) [OF s], rule soundD(5) [OF s], rule place_ok_less [OF soundD(6) [OF s]]) (use sub in auto)
qed

lemma sound_start:
  assumes s: "sound limit S T P F" and new: "dict_get S sid = None" and less: "int (running_count S) < limit"
  shows "sound limit (dict_set sid ''running'' S) (dict_set sid ks T) (P \<union> Pair sid ` set ks) (dict_set sid Created F)"
proof -
  have "dict_set sid ''running'' S = S @ [(sid, ''running'')]"
    using new by (intro dict_set_new) (simp add: map_of_eq_None_iff)
  then have c: "running_count (dict_set sid ''running'' S) = Suc (running_count S)" by (simp add: running_count_def)
  have "\<not> live_in S sid" using new by (simp add: live_in_def)
  then have old: "(sid, k) \<notin> P" for k using soundD(3,4) [OF s] by blast
  show ?thesis
  proof (rule soundI)
    show "dict_ok (dict_set sid ''running'' S)" using soundD(1) [OF s] by (rule dict_set_ok)
    show "int (running_count (dict_set sid ''running'' S)) \<le> max 0 limit" using c less by simp
    show "\<exists>ks'. dict_get (dict_set sid ks T) sid' = Some ks' \<and> k \<in> set ks'" if "(sid', k) \<in> P \<union> Pair sid ` set ks" for sid' k
      using that old soundD(3) [OF s, of sid' k] by auto
    show "(dict_get (dict_set sid ks T) sid' \<noteq> None) = live_in (dict_set sid ''running'' S) sid'" for sid'
      using soundD(4) [OF s, of sid'] by simp
    show "(dict_get (dict_set sid Created F) sid' \<noteq> None) = live_in (dict_set sid ''running'' S) sid'" for sid'
      using soundD(5) [OF s, of sid'] by simp
    show "place_ok ks' {k. (sid', k) \<in> P \<union> Pair sid ` set ks} place"
      if "dict_get (dict_set sid ks T) sid' = Some ks'" "dict_get (dict_set sid Created F) sid' = Some place" for sid' ks' place
    proof (cases "sid' = sid")
      case False
      then have "{k. (sid', k) \<in> P \<union> Pair sid ` set ks} = {k. (sid', k) \<in> P}" by auto
      then show ?thesis using soundD(6) [OF s, of sid' ks' place] that False by simp
    qed (use that in auto)
  qed
qed

lemma running_count_end: "v \<noteq> ''running'' \<Longrightarrow> running_count (upd_key sid (\<lambda>_. v) S) \<le> running_count S"
proof (induction S)
  case (Cons kv S)
  then show ?case by (cases kv) (auto simp: running_count_def upd_key_def)
qed (simp add: upd_key_def)

lemma sound_end:
  assumes s: "sound limit S T P F" and v: "v \<noteq> ''running''" and none: "\<And>k. (sid, k) \<notin> P"
  shows "sound limit (upd_key sid (\<lambda>_. v) S) (dict_pop sid T) P (dict_pop sid F)"
proof (rule soundI)
  show "dict_ok (upd_key sid (\<lambda>_. v) S)" unfolding upd_key_keys by (rule soundD(1) [OF s])
  show "int (running_count (upd_key sid (\<lambda>_. v) S)) \<le> max 0 limit"
    using soundD(2) [OF s] running_count_end [OF v, of sid S] by linarith
  show "\<exists>ks. dict_get (dict_pop sid T) sid' = Some ks \<and> k \<in> set ks" if "(sid', k) \<in> P" for sid' k
    using soundD(3) [OF s that] none [of k] that by (cases "sid' = sid") simp_all
  show "(dict_get (dict_pop sid T) sid' \<noteq> None) = live_in (upd_key sid (\<lambda>_. v) S) sid'" for sid'
    using soundD(4) [OF s, of sid'] v by simp
  show "(dict_get (dict_pop sid F) sid' \<noteq> None) = live_in (upd_key sid (\<lambda>_. v) S) sid'" for sid'
    using soundD(5) [OF s, of sid'] v by simp
  show "place_ok ks {k. (sid', k) \<in> P} place"
    if "dict_get (dict_pop sid T) sid' = Some ks" "dict_get (dict_pop sid F) sid' = Some place" for sid' ks place
    using soundD(6) [OF s, of sid' ks place] that by (simp split: if_splits)
qed

lemma sound_end_idle:
  assumes s: "sound limit S T P F" and v: "v \<noteq> ''running''" and idle: "dict_get T sid = None"
  shows "sound limit (upd_key sid (\<lambda>_. v) S) T P F"
proof -
  have n: "\<not> live_in S sid" using soundD(4) [OF s, of sid] idle by simp
  have "int (running_count (upd_key sid (\<lambda>_. v) S)) \<le> max 0 limit"
    using soundD(2) [OF s] running_count_end [OF v, of sid S] by linarith
  then show ?thesis
    using soundD [OF s] n v by (intro soundI) (simp_all, (metis+)?)
qed

lemma sound_move:
  assumes s: "sound limit S T P F" and F: "dict_get F sid \<noteq> None"
    and ok: "\<And>ks. dict_get T sid = Some ks \<Longrightarrow> place_ok ks {k. (sid, k) \<in> P} place"
  shows "sound limit S T P (dict_set sid place F)"
proof (rule soundI)
  show "(dict_get (dict_set sid place F) sid' \<noteq> None) = live_in S sid'" for sid'
    using soundD(5) [OF s, of sid'] soundD(5) [OF s, of sid] F by simp
  show "place_ok ks {k. (sid', k) \<in> P} place'"
    if "dict_get T sid' = Some ks" "dict_get (dict_set sid place F) sid' = Some place'" for sid' ks place'
    using that ok soundD(6) [OF s, of sid' ks place'] by (simp split: if_splits)
qed (rule soundD [OF s]; assumption?)+

section \<open>Every step keeps the invariant\<close>

lemma same_control_sound: "same_control m m' \<Longrightarrow> sound_manager limit m \<Longrightarrow> sound_manager limit m'"
  by (simp add: same_control_def sound_manager_def)

lemma emit_fields [simp]:
  "statuses (emit sid mk m) = statuses m" "fm_tasks (emit sid mk m) = fm_tasks m"
  "fm_probes (emit sid mk m) = fm_probes m" "fm_finishers (emit sid mk m) = fm_finishers m"
  "fm_sessions (emit sid mk m) = fm_sessions m"
  by (simp_all add: emit_def statuses_def split: option.split)

lemma on_session_fields [simp]:
  "fm_tasks (on_session sid f m) = fm_tasks m" "fm_probes (on_session sid f m) = fm_probes m"
  "fm_finishers (on_session sid f m) = fm_finishers m" "fm_stopping (on_session sid f m) = fm_stopping m"
  "fm_sessions (on_session sid f m) = upd_key sid f (fm_sessions m)"
  by (simp_all add: on_session_def)

lemma statuses_update [simp]:
  "statuses (m\<lparr>fm_tasks := T\<rparr>) = statuses m" "statuses (m\<lparr>fm_probes := P\<rparr>) = statuses m"
  "statuses (m\<lparr>fm_finishers := F\<rparr>) = statuses m" "statuses (m\<lparr>fm_stopping := X\<rparr>) = statuses m"
  by (simp_all add: statuses_def)

lemma same_control_close_stop: "same_control m (close_stop w now sid notify m)"
  by (auto simp: close_stop_def Let_def intro!: same_control_trans [OF same_control_on_session same_control_emit] same_control_on_session)

lemma statuses_set: "statuses (m\<lparr>fm_sessions := dict_set sid s (fm_sessions m)\<rparr>) = dict_set sid (ss_status s) (statuses m)"
proof -
  have "map (\<lambda>(k, s). (k, ss_status s)) (dict_set sid s ss) = dict_set sid (ss_status s) (map (\<lambda>(k, s). (k, ss_status s)) ss)" for ss
    by (induction ss) auto
  then show ?thesis by (simp add: statuses_def)
qed

lemma control_open:
  assumes "m' = open_session w now sid lab conf state rq fb rb m"
  shows "\<exists>n. statuses m' = dict_set sid ''running'' (statuses m) \<and> fm_tasks m' = dict_set sid [0..<n] (fm_tasks m)
     \<and> set (dict_keys (fm_probes m')) = set (dict_keys (fm_probes m)) \<union> Pair sid ` set [0..<n]
     \<and> fm_finishers m' = dict_set sid Created (fm_finishers m)"
proof -
  define probes where "probes = map (new_probe conf)
     (concat (map (\<lambda>p. [(p, ''forward'', fb), (p, ''return'', rb)]) (session_points state (rq_source rq))))"
  have "dict_keys (map (\<lambda>(i, p). ((sid, i), p)) (enumerate 0 probes)) = map (Pair sid) [0..<length probes]"
    by (simp add: enumerate_eq_zip comp_def split_beta) (simp add: map_fst_zip flip: map_map [of "Pair sid" fst, unfolded comp_def])
  then have keys: "set (dict_keys (fm_probes m @ map (\<lambda>(i, p). ((sid, i), p)) (enumerate 0 probes)))
      = set (dict_keys (fm_probes m)) \<union> Pair sid ` set [0..<length probes]"
    by (simp only: map_append set_append) (simp only: set_map)
  have fields: "fm_probes m' = fm_probes m @ map (\<lambda>(i, p). ((sid, i), p)) (enumerate 0 probes)"
    "fm_tasks m' = dict_set sid [0..<length probes] (fm_tasks m)" "fm_finishers m' = dict_set sid Created (fm_finishers m)"
    "statuses m' = dict_set sid ''running'' (statuses m)"
    unfolding assms open_session_def Let_def probes_def [symmetric]
    by (simp_all add: statuses_set new_session_def del: length_concat)
  show ?thesis unfolding fields keys by blast
qed

lemma start_sound:
  assumes "sound_manager limit m" "start_session w now sid rq m = Inr m'" "sid \<notin> set (dict_keys (fm_sessions m))"
    and "rq_config rq = Inr conf" "hc_max_sessions conf = limit"
  shows "sound_manager limit m'"
proof -
  obtain lab state fb rb where m': "m' = open_session w now sid lab conf state rq fb rb m"
    and less: "int (active_sessions m) < limit"
    using assms(2,4,5) by (auto simp: start_session_def bindE_eq_Inr split: option.splits if_splits)
  have "dict_get (statuses m) sid = None" using assms(3) by (simp add: statuses_get map_of_eq_None_iff)
  then have "sound limit (dict_set sid ''running'' (statuses m)) (dict_set sid ks (fm_tasks m))
      (set (dict_keys (fm_probes m)) \<union> Pair sid ` set ks) (dict_set sid Created (fm_finishers m))" for ks
    using sound_start [OF assms(1) [unfolded sound_manager_def]] less by (simp only: active_running_count)
  moreover obtain n where "statuses m' = dict_set sid ''running'' (statuses m)" "fm_tasks m' = dict_set sid [0..<n] (fm_tasks m)"
     "set (dict_keys (fm_probes m')) = set (dict_keys (fm_probes m)) \<union> Pair sid ` set [0..<n]"
     "fm_finishers m' = dict_set sid Created (fm_finishers m)"
    using control_open [OF m'] by blast
  ultimately show ?thesis by (simp only: sound_manager_def)
qed

lemma begin_stop_sound:
  assumes "sound_manager limit m" "begin_stop w now sid notify m = Inr m'"
  shows "sound_manager limit m'"
proof -
  let ?f = "\<lambda>s. s\<lparr>ss_status := ''stopped'', ss_completed := now\<rparr>"
  have st: "statuses (on_session sid ?f m) = upd_key sid (\<lambda>_. ''stopped'') (statuses m)" by (rule statuses_end) simp
  show ?thesis
  proof (cases "dict_get (fm_tasks m) sid")
    case None
    then have m': "m' = close_stop w now sid notify (on_session sid ?f m)"
      using assms(2) by (auto simp: begin_stop_def Let_def split: if_splits)
    have "sound_manager limit (on_session sid ?f m)"
      using sound_end_idle [OF assms(1) [unfolded sound_manager_def] _ None, of "''stopped''"] st by (simp add: sound_manager_def)
    then show ?thesis unfolding m' by (rule same_control_sound [OF same_control_close_stop])
  next
    case (Some ks)
    let ?P = "filter (\<lambda>(t, _). \<not> (fst t = sid \<and> snd t \<in> set ks)) (fm_probes m)"
    have m': "m' = (on_session sid ?f m)\<lparr>fm_tasks := dict_pop sid (fm_tasks m), fm_probes := ?P,
        fm_finishers := dict_pop sid (fm_finishers m), fm_stopping := fm_stopping m @ [(sid, notify)]\<rparr>"
      using assms(2) Some by (auto simp: begin_stop_def Let_def split: if_splits)
    have P: "set (dict_keys ?P) = {t \<in> set (dict_keys (fm_probes m)). \<not> (fst t = sid \<and> snd t \<in> set ks)}"
      by (simp only: filter_probe_keys) auto
    have "(sid, k) \<notin> set (dict_keys ?P)" for k
      unfolding P using soundD(3) [OF assms(1) [unfolded sound_manager_def], of sid k] Some by auto
    moreover have "sound limit (statuses m) (fm_tasks m) (set (dict_keys ?P)) (fm_finishers m)"
      by (rule sound_fewer_probes [OF assms(1) [unfolded sound_manager_def]]) (unfold P, blast)
    ultimately have "sound limit (upd_key sid (\<lambda>_. ''stopped'') (statuses m)) (dict_pop sid (fm_tasks m)) (set (dict_keys ?P)) (dict_pop sid (fm_finishers m))"
      by (intro sound_end) auto
    then show ?thesis unfolding m' sound_manager_def by (simp add: st)
  qed
qed

lemma close_session_sound:
  assumes "sound_manager limit m" "dict_get (fm_finishers m) sid = Some Closing"
  shows "sound_manager limit (close_session w now sid m)"
proof -
  note s = assms(1) [unfolded sound_manager_def]
  let ?m = "(on_session sid (\<lambda>s. s\<lparr>ss_status := ''done'', ss_completed := now\<rparr>) m)
            \<lparr>fm_tasks := dict_pop sid (fm_tasks m), fm_finishers := dict_pop sid (fm_finishers m)\<rparr>"
  have "live_in (statuses m) sid" using soundD(5) [OF s, of sid] assms(2) by simp
  then obtain ks where "dict_get (fm_tasks m) sid = Some ks" using soundD(4) [OF s, of sid] by auto
  then have "(sid, k) \<notin> set (dict_keys (fm_probes m))" for k using soundD(6) [OF s _ assms(2)] by auto
  then have "sound limit (upd_key sid (\<lambda>_. ''done'') (statuses m)) (dict_pop sid (fm_tasks m)) (set (dict_keys (fm_probes m))) (dict_pop sid (fm_finishers m))"
    by (intro sound_end [OF s]) simp_all
  moreover have "statuses ?m = upd_key sid (\<lambda>_. ''done'') (statuses m)"
    using statuses_end [of "\<lambda>s. s\<lparr>ss_status := ''done'', ss_completed := now\<rparr>"] by simp
  ultimately have "sound_manager limit ?m" unfolding sound_manager_def by simp
  moreover have "same_control ?m (close_session w now sid m)"
    unfolding close_session_def by (rule same_control_trans [OF same_control_on_session same_control_emit]) simp
  ultimately show ?thesis using same_control_sound by blast
qed

lemma alive_none: "alive m sid ks = [] \<longleftrightarrow> (\<forall>k \<in> set ks. (sid, k) \<notin> set (dict_keys (fm_probes m)))"
  by (auto simp: alive_def filter_empty_conv)

lemma move_sound:
  assumes "sound_manager limit m" "dict_get (fm_finishers m) sid \<noteq> None"
    and "\<And>ks. dict_get (fm_tasks m) sid = Some ks \<Longrightarrow> place_ok ks {k. (sid, k) \<in> set (dict_keys (fm_probes m))} place"
  shows "sound_manager limit (move_finisher sid place m)"
  using sound_move [OF assms(1) [unfolded sound_manager_def] assms(2,3)] by (simp add: move_finisher_def sound_manager_def)

text \<open>The probes of a running session are among those its finisher waits for.\<close>

lemma probes_registered:
  assumes "sound_manager limit m" "dict_get (fm_tasks m) sid = Some ks" "(sid, k) \<in> set (dict_keys (fm_probes m))"
  shows "k \<in> set ks"
  using soundD(3) [OF assms(1) [unfolded sound_manager_def] assms(3)] assms(2) by auto

lemma finish_step_sound:
  assumes s: "sound_manager limit m" and f: "finish_step w now over sid m = Some m'"
  shows "sound_manager limit m'"
proof -
  obtain place where place: "dict_get (fm_finishers m) sid = Some place" using f by (auto simp: finish_step_def split: option.splits)
  note sd = s [unfolded sound_manager_def]
  have l: "live_in (statuses m) sid" using soundD(5) [OF sd, of sid] place by simp
  then obtain ks where ks: "dict_get (fm_tasks m) sid = Some ks" using soundD(4) [OF sd, of sid] by auto
  have run: "session_running m sid" using l by (auto simp: live_in_def statuses_get session_running_def split: option.splits)
  have ok: "place_ok ks {k. (sid, k) \<in> set (dict_keys (fm_probes m))} place" by (rule soundD(6) [OF sd ks place])
  have reg: "\<And>k. (sid, k) \<in> set (dict_keys (fm_probes m)) \<Longrightarrow> k \<in> set ks" by (rule probes_registered [OF s ks])
  have mv: "sound_manager limit (move_finisher sid place' m)"
    if "place_ok ks {k. (sid, k) \<in> set (dict_keys (fm_probes m))} place'" for place'
    using that ks place by (intro move_sound [OF s]) simp_all
  show ?thesis
  proof (cases place)
    case Created
    then show ?thesis using f place mv [of Yielded] by (auto simp: finish_step_def)
  next
    case Yielded
    have "{k. (sid, k) \<in> set (dict_keys (fm_probes m))} = {}" if "ks = []" using reg that by auto
    then show ?thesis
      using f place Yielded run ks mv [of "AwaitTasks ks"] mv [of AwaitDeadline]
      by (auto simp: finish_step_def Let_def dict_get_or_def split: if_splits)
  next
    case (AwaitTasks others)
    then have o: "others = ks" using ok by simp
    show ?thesis
    proof (cases "alive m sid others = []")
      case True
      then have "{k. (sid, k) \<in> set (dict_keys (fm_probes m))} = {}" using reg unfolding alive_none o by blast
      then show ?thesis using f place AwaitTasks True mv [of Closing] by (auto simp: finish_step_def)
    next
      case False
      have "{k. (sid, k) \<in> set (dict_keys (fm_probes m))} \<subseteq> set (alive m sid others)" using reg by (auto simp: alive_def o simp del: set_map)
      then show ?thesis using f place AwaitTasks False mv [of "Draining (alive m sid others)"] by (auto simp: finish_step_def split: if_splits)
    qed
  next
    case AwaitDeadline
    then show ?thesis using f place mv [of Closing] ok by (auto simp: finish_step_def split: if_splits)
  next
    case (Draining pending)
    then have sub: "{k. (sid, k) \<in> set (dict_keys (fm_probes m))} \<subseteq> set pending" using ok by simp
    show ?thesis
    proof (cases "alive m sid pending = []")
      case True
      then have "{k. (sid, k) \<in> set (dict_keys (fm_probes m))} = {}" using sub unfolding alive_none by blast
      then show ?thesis using f place Draining True mv [of Closing] by (auto simp: finish_step_def)
    next
      case False
      let ?P = "filter (\<lambda>(t, _). \<not> (fst t = sid \<and> snd t \<in> set pending)) (fm_probes m)"
      have m': "m' = move_finisher sid Closing (m\<lparr>fm_probes := ?P\<rparr>)"
        using f place Draining False by (auto simp: finish_step_def split: if_splits)
      have P: "set (dict_keys ?P) = {t \<in> set (dict_keys (fm_probes m)). \<not> (fst t = sid \<and> snd t \<in> set pending)}"
        by (simp only: filter_probe_keys) auto
      have "sound limit (statuses m) (fm_tasks m) (set (dict_keys ?P)) (fm_finishers m)"
        by (rule sound_fewer_probes [OF sd]) (unfold P, blast)
      then have "sound_manager limit (m\<lparr>fm_probes := ?P\<rparr>)" by (simp add: sound_manager_def)
      moreover have "{k. (sid, k) \<in> set (dict_keys ?P)} = {}" using sub unfolding P by auto
      ultimately show ?thesis unfolding m' using place by (intro move_sound) (simp_all del: set_map)
    qed
  next
    case Closing
    then show ?thesis using f place run close_session_sound [OF s] by (auto simp: finish_step_def)
  qed
qed

lemma same_control_list: "same_control m (snd (list_sessions w now lab m))"
  by (simp add: list_sessions_def Let_def same_control_def statuses_def comp_def split_beta cong: if_cong)

lemma removed_probe_sound:
  assumes "sound_manager limit m" "statuses m' = statuses m" "fm_tasks m' = fm_tasks m" "fm_finishers m' = fm_finishers m"
    "dict_keys (fm_probes m') = filter P (dict_keys (fm_probes m))"
  shows "sound_manager limit m'"
  unfolding sound_manager_def assms(2-5)
  by (rule sound_fewer_probes [OF assms(1) [unfolded sound_manager_def]]) (rule filter_is_subset)

lemma rabbit_step_sound: "rabbit_step w limit m m' \<Longrightarrow> sound_manager limit m \<Longrightarrow> sound_manager limit m'"
proof (induction rule: rabbit_step.induct)
  case (start now sid rq m m' conf)
  then show ?case using start_sound by blast
next
  case (chunk m t pb now data)
  then show ?case using same_control_sound [OF same_control_chunk] by blast
next
  case (ended m t pb rc err now)
  show ?case using ended.prems by (rule removed_probe_sound) (rule control_probe_done)+
next
  case (failed m t pb now msg)
  show ?case using failed.prems by (rule removed_probe_sound) (rule control_probe_failed)+
next
  case (finish now over sid m m')
  then show ?case using finish_step_sound by blast
next
  case (begin_stop now sid notify m m')
  then show ?case using begin_stop_sound by blast
next
  case (end_stop m ps sid notify qs now)
  have "sound_manager limit (m\<lparr>fm_stopping := ps @ qs\<rparr>)" using end_stop.prems by (simp add: sound_manager_def)
  then show ?case by (rule same_control_sound [OF same_control_close_stop])
next
  case (listing m now lab)
  then show ?case using same_control_sound [OF same_control_list] by blast
qed

lemma rabbit_reachable_sound: "rabbit_reachable w limit m \<Longrightarrow> sound_manager limit m"
proof (induction rule: rabbit_reachable.induct)
  case init
  show ?case by (simp add: sound_manager_def sound_def statuses_def new_manager_def running_count_def live_in_def)
qed (rule rabbit_step_sound)

section \<open>Sessions that have ended\<close>

definition kept :: "rabbit_session \<Rightarrow> rabbit_session \<Rightarrow> bool" where
  "kept s s' \<longleftrightarrow> \<not> running s' \<and> ss_hits s' = ss_hits s \<and> ss_packets s' = ss_packets s \<and> ss_observations s' = ss_observations s"

abbreviation session_of :: "rabbit_manager \<Rightarrow> string \<Rightarrow> rabbit_session option" where
  "session_of m sid \<equiv> dict_get (fm_sessions m) sid"

lemma other_session [simp]:
  "sid \<noteq> sid' \<Longrightarrow> session_of (on_session sid' f m) sid = session_of m sid"
  "sid \<noteq> sid' \<Longrightarrow> session_of (emit_session_progress w now force sid' m) sid = session_of m sid"
  by (simp_all add: upd_key_get emit_session_progress_def split: option.split)

lemma other_session_packet [simp]:
  "sid \<noteq> sid' \<Longrightarrow> session_of (on_packet w now sid' point direction n pkt m) sid = session_of m sid"
  by (simp add: on_packet_def Let_def upd_key_get split: option.split)

lemma other_session_packets [simp]:
  "sid \<noteq> sid' \<Longrightarrow> session_of (on_packets w now sid' point direction n pkts m) sid = session_of m sid"
  by (induction w now sid' point direction n pkts m rule: on_packets.induct) simp_all

lemma other_session_probe:
  assumes "sid \<noteq> fst t"
  shows "session_of (probe_chunk w now t data pb m) sid = session_of m sid"
    "session_of (probe_done w now t rc err pb m) sid = session_of m sid"
    "session_of (probe_failed w now t msg pb m) sid = session_of m sid"
  using assms
  by (simp_all add: probe_chunk_def probe_done_def probe_failed_def end_probe_def Let_def upd_key_get split: prod.split)

lemma other_session_finish:
  "finish_step w now over sid' m = Some m' \<Longrightarrow> sid \<noteq> sid' \<Longrightarrow> session_of m' sid = session_of m sid"
  by (auto simp: finish_step_def move_finisher_def close_session_def Let_def upd_key_get
      split: option.splits finish_place.splits if_splits)

lemma close_stop_session:
  "session_of (close_stop w now sid' notify m) sid =
     (if sid = sid' then map_option (reconstruct_session w) (session_of m sid) else session_of m sid)"
  by (simp add: close_stop_def Let_def upd_key_get)

lemma kept_refl: "\<not> running s \<Longrightarrow> kept s s"
  by (simp add: kept_def)

lemma kept_reconstruct [simp]: "kept s (reconstruct_session w s') = kept s s'"
  by (simp add: kept_def)

lemma live_session:
  assumes "sound_manager limit m" "dict_get (fm_finishers m) sid \<noteq> None \<or> (\<exists>k. (sid, k) \<in> set (dict_keys (fm_probes m)))"
  shows "\<exists>s. session_of m sid = Some s \<and> running s"
proof -
  note sd = assms(1) [unfolded sound_manager_def]
  have "live_in (statuses m) sid" using assms(2) soundD(3) [OF sd] soundD(4,5) [OF sd, of sid] by blast
  then show ?thesis by (auto simp: live_in_def statuses_get)
qed

lemma probe_session:
  assumes "sound_manager limit m" "dict_get (fm_probes m) t = Some pb"
  shows "\<exists>s. session_of m (fst t) = Some s \<and> running s"
proof -
  have "t \<in> set (dict_keys (fm_probes m))" using map_of_SomeD [OF assms(2)] by force
  then show ?thesis by (intro live_session [OF assms(1)] disjI2 exI [of _ "snd t"]) simp
qed

lemma finisher_session:
  assumes "sound_manager limit m" "finish_step w now over sid m = Some m'"
  shows "\<exists>s. session_of m sid = Some s \<and> running s"
  using assms(2) by (intro live_session [OF assms(1)]) (auto simp: finish_step_def split: option.splits)

lemma start_other:
  assumes "start_session w now sid' rq m = Inr m'" "sid \<noteq> sid'"
  shows "session_of m' sid = session_of m sid"
  using assms by (auto simp: start_session_def open_session_def bindE_eq_Inr Let_def split: option.splits if_splits)

lemma begin_stop_kept:
  assumes "begin_stop w now sid' notify m = Inr m'" "session_of m sid = Some s" "\<not> running s"
  shows "\<exists>s'. session_of m' sid = Some s' \<and> kept s s'"
  using assms
  by (auto simp: begin_stop_def Let_def close_stop_session upd_key_get kept_def split: if_splits option.splits)

lemma list_sessions_session:
  "session_of (snd (list_sessions w now lab m)) sid =
     map_option (\<lambda>s. if lab = None \<or> lab = Some (ss_lab s) then reconstruct_session w s else s) (session_of m sid)"
proof -
  have "map_of (map (\<lambda>(k, s). (k, if P s then reconstruct_session w s else s)) ss) sid =
      map_option (\<lambda>s. if P s then reconstruct_session w s else s) (map_of ss sid)" for P ss
    by (induction ss) auto
  then show ?thesis by (simp add: list_sessions_def Let_def)
qed

lemma ended_step:
  "rabbit_step w limit m m' \<Longrightarrow> sound_manager limit m \<Longrightarrow> session_of m sid = Some s \<Longrightarrow> \<not> running s
     \<Longrightarrow> \<exists>s'. session_of m' sid = Some s' \<and> kept s s'"
proof (induction rule: rabbit_step.induct)
  case (start now sid' rq m m' conf)
  then have "sid \<noteq> sid'" by (force dest: map_of_SomeD)
  then show ?case using start_other [OF start.hyps(1)] start.prems kept_refl by auto
next
  case (chunk m t pb now data)
  have "sid \<noteq> fst t" using probe_session [OF chunk.prems(1) chunk.hyps(1)] chunk.prems(2,3) by auto
  then show ?case using chunk.prems(2,3) by (simp add: other_session_probe kept_refl)
next
  case (ended m t pb rc err now)
  have "sid \<noteq> fst t" using probe_session [OF ended.prems(1) ended.hyps(1)] ended.prems(2,3) by auto
  then show ?case using ended.prems(2,3) by (simp add: other_session_probe kept_refl)
next
  case (failed m t pb now msg)
  have "sid \<noteq> fst t" using probe_session [OF failed.prems(1) failed.hyps(1)] failed.prems(2,3) by auto
  then show ?case using failed.prems(2,3) by (simp add: other_session_probe kept_refl)
next
  case (finish now over sid' m m')
  have "sid \<noteq> sid'" using finisher_session [OF finish.prems(1) finish.hyps] finish.prems(2,3) by auto
  then show ?case using other_session_finish [OF finish.hyps] finish.prems(2,3) by (simp add: kept_refl)
next
  case (begin_stop now sid' notify m m')
  then show ?case using begin_stop_kept by blast
next
  case (end_stop m ps sid' notify qs now)
  then show ?case by (cases "sid = sid'") (auto simp: close_stop_session kept_refl)
next
  case (listing m now lab)
  show ?case using listing.prems unfolding list_sessions_session by (simp add: kept_refl)
qed

section \<open>Hits\<close>

text \<open>The hits of a session are the links and directions of which it has packets.\<close>

definition hits_ok :: "rabbit_session \<Rightarrow> bool" where
  "hits_ok s \<longleftrightarrow> dict_ok (ss_hits s)
     \<and> set (dict_keys (ss_hits s)) = (\<lambda>ob. po_direction ob @ '':'' @ po_link_id ob) ` set (ss_packets s)
     \<and> (\<forall>(k, h) \<in> set (ss_hits s). k = hit_key (ht_point h) (ht_direction h))"

lemma hits_ok_same: "ss_hits s' = ss_hits s \<Longrightarrow> ss_packets s' = ss_packets s \<Longrightarrow> hits_ok s' = hits_ok s"
  by (simp add: hits_ok_def)

lemma hits_ok_update [simp]:
  "hits_ok (s\<lparr>ss_last_emit := x\<rparr>) = hits_ok s" "hits_ok (s\<lparr>ss_observations := rs\<rparr>) = hits_ok s"
  "hits_ok (s\<lparr>ss_status := v, ss_completed := x\<rparr>) = hits_ok s"
  by (rule hits_ok_same; simp)+

lemma hits_ok_new [simp]: "hits_ok (new_session now sid lab rq g n)"
  by (simp add: hits_ok_def new_session_def)

lemma hits_ok_reconstruct [simp]: "hits_ok (reconstruct_session w s) = hits_ok s"
  by (rule hits_ok_same) simp_all

lemma progress_session:
  "session_of m sid = Some s \<Longrightarrow> running s \<Longrightarrow> hits_ok s \<Longrightarrow>
     \<exists>s'. session_of (emit_session_progress w now force sid m) sid = Some s' \<and> running s' \<and> hits_ok s'"
  by (simp add: emit_session_progress_def upd_key_get)

lemma dict_set_items: "set (dict_set k v d) \<subseteq> insert (k, v) (set d)"
  by (induction d) auto

lemma hits_ok_packet:
  assumes "hits_ok s" "ob = observation_from_packet pkt point direction" "key = hit_key point direction"
  shows "dict_get (ss_hits s) key = None \<Longrightarrow> ht_point h = point \<Longrightarrow> ht_direction h = direction \<Longrightarrow>
       hits_ok (s\<lparr>ss_packets := ss_packets s @ [ob], ss_hits := dict_set key h (ss_hits s)\<rparr>)"
    and "dict_get (ss_hits s) key \<noteq> None \<Longrightarrow> hits_ok (s\<lparr>ss_packets := ss_packets s @ [ob]\<rparr>)"
proof -
  have ob: "po_direction ob @ '':'' @ po_link_id ob = key" using assms(2,3) by (simp add: observation_from_packet_def hit_key_def)
  show "hits_ok (s\<lparr>ss_packets := ss_packets s @ [ob], ss_hits := dict_set key h (ss_hits s)\<rparr>)"
    if "ht_point h = point" "ht_direction h = direction"
    using assms(1,3) ob that dict_set_items [of key h "ss_hits s"] by (auto simp: hits_ok_def dict_keys_set)
  show "hits_ok (s\<lparr>ss_packets := ss_packets s @ [ob]\<rparr>)" if "dict_get (ss_hits s) key \<noteq> None"
  proof -
    have "key \<in> set (dict_keys (ss_hits s))" using that by (simp add: map_of_eq_None_iff)
    then show ?thesis using assms(1) ob unfolding hits_ok_def by (simp add: insert_absorb)
  qed
qed

lemma packet_hits:
  assumes "session_of m sid = Some s" "running s" "hits_ok s"
  shows "\<exists>s'. session_of (on_packet w now sid point direction n pkt m) sid = Some s' \<and> running s' \<and> hits_ok s'"
proof -
  let ?s1 = "s\<lparr>ss_packets := ss_packets s @ [observation_from_packet pkt point direction]\<rparr>"
  let ?m1 = "on_session sid (\<lambda>s. s\<lparr>ss_packets := ss_packets s @ [observation_from_packet pkt point direction]\<rparr>) m"
  let ?key = "hit_key point direction"
  have s1: "session_of ?m1 sid = Some ?s1" using assms(1) by (simp add: upd_key_get)
  note ok = hits_ok_packet [OF assms(3) refl refl, where pkt = pkt and point = point and direction = direction]
  show ?thesis
  proof (cases "dict_get (ss_hits s) ?key")
    case None
    let ?h = "\<lparr>ht_point = point, ht_direction = direction, ht_sample = packet_sample n, ht_observed_at = now\<rparr>"
    have r: "record_hit now point direction (packet_sample n) ?s1 = Some ?h" using None assms(2) by (simp add: record_hit_def)
    let ?m2 = "emit sid (\<lambda>s. event_of ''link_hit'' s (hit_json w ?h) now)
      (on_session sid (\<lambda>s. s\<lparr>ss_hits := dict_set ?key ?h (ss_hits s)\<rparr>) ?m1)"
    have "session_of ?m2 sid = Some (?s1\<lparr>ss_hits := dict_set ?key ?h (ss_hits s)\<rparr>)" using assms(1) by (simp add: upd_key_get)
    moreover have "hits_ok (?s1\<lparr>ss_hits := dict_set ?key ?h (ss_hits s)\<rparr>)" using ok(1) [OF None, of ?h] by simp
    ultimately have "\<exists>s'. session_of (emit_session_progress w now True sid ?m2) sid = Some s' \<and> running s' \<and> hits_ok s'"
      using assms(2) by (intro progress_session) simp_all
    then show ?thesis unfolding on_packet_def Let_def s1 r option.case .
  next
    case (Some h)
    have r: "record_hit now point direction (packet_sample n) ?s1 = None" using Some by (simp add: record_hit_def)
    have "hits_ok ?s1" using ok(2) Some by simp
    then have "\<exists>s'. session_of (emit_session_progress w now False sid ?m1) sid = Some s' \<and> running s' \<and> hits_ok s'"
      using assms(2) s1 by (intro progress_session) simp_all
    then show ?thesis unfolding on_packet_def Let_def s1 r option.case .
  qed
qed

lemma packets_hits:
  "session_of m sid = Some s \<Longrightarrow> running s \<Longrightarrow> hits_ok s \<Longrightarrow>
     \<exists>s'. session_of (on_packets w now sid point direction n pkts m) sid = Some s' \<and> running s' \<and> hits_ok s'"
proof (induction pkts arbitrary: n m s)
  case (Cons pkt pkts)
  obtain s1 where "session_of (on_packet w now sid point direction (Suc n) pkt m) sid = Some s1" "running s1" "hits_ok s1"
    using packet_hits [OF Cons.prems] by blast
  then show ?case using Cons.IH by simp
qed simp

definition hits_invariant :: "rabbit_manager \<Rightarrow> bool" where
  "hits_invariant m \<longleftrightarrow> (\<forall>sid s. session_of m sid = Some s \<longrightarrow> hits_ok s)"

lemma hits_invariant_on_session:
  assumes "hits_invariant m" "\<And>s. hits_ok s \<Longrightarrow> hits_ok (f s)"
  shows "hits_invariant (on_session sid f m)"
  using assms by (auto simp: hits_invariant_def upd_key_get)

lemma hits_invariant_emit [simp]: "hits_invariant (emit sid mk m) = hits_invariant m"
  by (simp add: hits_invariant_def)

lemma hits_invariant_progress: "hits_invariant m \<Longrightarrow> hits_invariant (emit_session_progress w now force sid m)"
  by (simp add: emit_session_progress_def hits_invariant_on_session split: option.split)

lemma hits_invariant_fields [simp]:
  "hits_invariant (m\<lparr>fm_tasks := T\<rparr>) = hits_invariant m" "hits_invariant (m\<lparr>fm_probes := P\<rparr>) = hits_invariant m"
  "hits_invariant (m\<lparr>fm_finishers := F\<rparr>) = hits_invariant m" "hits_invariant (m\<lparr>fm_stopping := X\<rparr>) = hits_invariant m"
  by (simp_all add: hits_invariant_def)

lemma hits_chunk:
  assumes "hits_invariant m" "session_of m (fst t) = Some s" "running s"
  shows "hits_invariant (probe_chunk w now t data pb m)"
proof -
  obtain pkts parser where f: "feed data (pb_parser pb) = (pkts, parser)" by (cases "feed data (pb_parser pb)")
  let ?m = "m\<lparr>fm_probes := upd_key t (\<lambda>p. p\<lparr>pb_parser := parser, pb_count := pb_count pb + length pkts\<rparr>) (fm_probes m)\<rparr>"
  let ?m' = "on_packets w now (fst t) (pb_point pb) (pb_direction pb) (pb_count pb) pkts ?m"
  have "\<exists>s'. session_of ?m' (fst t) = Some s' \<and> running s' \<and> hits_ok s'"
    using assms by (intro packets_hits) (auto simp: hits_invariant_def)
  moreover have "session_of ?m' sid = session_of m sid" if "sid \<noteq> fst t" for sid using that by simp
  ultimately have "hits_ok s'" if "session_of ?m' sid = Some s'" for sid s'
    using that assms(1) by (cases "sid = fst t") (auto simp: hits_invariant_def)
  then show ?thesis using f by (simp add: probe_chunk_def hits_invariant_def)
qed

lemma hits_report: "hits_invariant m \<Longrightarrow> hits_invariant (on_session sid (\<lambda>s. s\<lparr>ss_observations := ss_observations s @ [r]\<rparr>) m)"
  by (simp add: hits_invariant_on_session)

lemma hits_probe_end:
  assumes "hits_invariant m"
  shows "hits_invariant (probe_done w now t rc err pb m)" "hits_invariant (probe_failed w now t msg pb m)"
  using hits_report [OF assms] hits_invariant_progress
  by (simp_all add: probe_done_def probe_failed_def end_probe_def Let_def)

lemma hits_close:
  assumes "hits_invariant m"
  shows "hits_invariant (close_stop w now sid notify m)"
  using assms by (simp add: close_stop_def Let_def hits_invariant_on_session)

lemma hits_status: "hits_invariant m \<Longrightarrow> hits_invariant (on_session sid (\<lambda>s. s\<lparr>ss_status := v, ss_completed := now\<rparr>) m)"
  by (simp add: hits_invariant_on_session)

lemma hits_finish:
  assumes "hits_invariant m" "finish_step w now over sid m = Some m'"
  shows "hits_invariant m'"
proof -
  have "hits_invariant (close_session w now sid m)"
    using hits_status [OF assms(1)] by (simp add: close_session_def hits_invariant_on_session)
  then show ?thesis
    using assms by (auto simp: finish_step_def move_finisher_def Let_def split: option.splits finish_place.splits if_splits)
qed

lemma hits_start:
  assumes "hits_invariant m" "start_session w now sid rq m = Inr m'"
  shows "hits_invariant m'"
proof -
  obtain lab conf state fb rb where m': "m' = open_session w now sid lab conf state rq fb rb m"
    using assms(2) by (auto simp: start_session_def bindE_eq_Inr split: option.splits if_splits)
  have "session_of m' sid' = (if sid' = sid then Some (new_session now sid lab rq (build_topo_graph state)
      (length (session_points state (rq_source rq)))) else session_of m sid')" for sid'
    by (simp add: m' open_session_def Let_def)
  then show ?thesis using assms(1) by (simp add: hits_invariant_def)
qed

lemma rabbit_step_hits:
  "rabbit_step w limit m m' \<Longrightarrow> sound_manager limit m \<Longrightarrow> hits_invariant m \<Longrightarrow> hits_invariant m'"
proof (induction rule: rabbit_step.induct)
  case (start now sid rq m m' conf)
  then show ?case using hits_start by blast
next
  case (chunk m t pb now data)
  then show ?case using probe_session [OF chunk.prems(1) chunk.hyps(1)] hits_chunk by blast
next
  case (ended m t pb rc err now)
  then show ?case using hits_probe_end(1) by blast
next
  case (failed m t pb now msg)
  then show ?case using hits_probe_end(2) by blast
next
  case (finish now over sid m m')
  then show ?case using hits_finish by blast
next
  case (begin_stop now sid notify m m')
  then show ?case
    using hits_status [of m sid now "''stopped''"] hits_close
    by (auto simp: begin_stop_def Let_def split: if_splits option.splits)
next
  case (end_stop m ps sid notify qs now)
  then show ?case by (intro hits_close) simp
next
  case (listing m now lab)
  show ?case unfolding hits_invariant_def list_sessions_session using listing.prems by (auto simp: hits_invariant_def)
qed

lemma rabbit_reachable_hits: "rabbit_reachable w limit m \<Longrightarrow> hits_invariant m"
proof (induction rule: rabbit_reachable.induct)
  case init
  show ?case by (simp add: hits_invariant_def new_manager_def)
next
  case (step m m')
  then show ?case using rabbit_step_hits rabbit_reachable_sound by blast
qed

section \<open>The finisher alone\<close>

fun run_finisher :: "rabbit_world \<Rightarrow> rat \<Rightarrow> string \<Rightarrow> nat \<Rightarrow> rabbit_manager \<Rightarrow> rabbit_manager option" where
  "run_finisher w now sid 0 m = Some m"
| "run_finisher w now sid (Suc n) m =
     (case finish_step w now True sid m of None \<Rightarrow> None | Some m' \<Rightarrow> run_finisher w now sid n m')"

fun place_rank :: "finish_place \<Rightarrow> nat" where
  "place_rank Created = 5"
| "place_rank Yielded = 4"
| "place_rank (AwaitTasks ks) = 3"
| "place_rank AwaitDeadline = 3"
| "place_rank (Draining ks) = 2"
| "place_rank Closing = 1"

lemma finish_progress:
  assumes "sound_manager limit m" "dict_get (fm_finishers m) sid = Some place"
  shows "\<exists>m'. finish_step w now True sid m = Some m'
     \<and> (place = Closing \<and> (\<exists>s. session_of m' sid = Some s \<and> ss_status s = ''done'') \<and> dict_get (fm_finishers m') sid = None
        \<or> (\<exists>place'. dict_get (fm_finishers m') sid = Some place' \<and> place_rank place' < place_rank place))"
proof -
  obtain s where s: "session_of m sid = Some s" "running s" using live_session [OF assms(1)] assms(2) by auto
  then have run: "session_running m sid" by (simp add: session_running_def)
  show ?thesis
    using assms(2) run s
    by (cases place)
       (auto simp: finish_step_def move_finisher_def close_session_def Let_def upd_key_get reconstruct_session_same)
qed

lemma finisher_runs:
  "sound_manager limit m \<Longrightarrow> dict_get (fm_finishers m) sid = Some place \<Longrightarrow>
     \<exists>n \<le> place_rank place. \<exists>m'. run_finisher w now sid n m = Some m' \<and> sound_manager limit m'
       \<and> (\<exists>s. session_of m' sid = Some s \<and> ss_status s = ''done'') \<and> dict_get (fm_finishers m') sid = None"
proof (induction "place_rank place" arbitrary: m place rule: less_induct)
  case less
  obtain m1 where m1: "finish_step w now True sid m = Some m1"
    "place = Closing \<and> (\<exists>s. session_of m1 sid = Some s \<and> ss_status s = ''done'') \<and> dict_get (fm_finishers m1) sid = None
        \<or> (\<exists>place'. dict_get (fm_finishers m1) sid = Some place' \<and> place_rank place' < place_rank place)"
    using finish_progress [OF less.prems] by blast
  have s1: "sound_manager limit m1" by (rule finish_step_sound [OF less.prems(1) m1(1)])
  from m1(2) show ?case
  proof (elim disjE exE conjE)
    fix s assume a: "place = Closing" "session_of m1 sid = Some s" "ss_status s = ''done''" "dict_get (fm_finishers m1) sid = None"
    then show ?thesis using m1(1) s1 by (intro exI [of _ "Suc 0"]) auto
  next
    fix place' assume p: "dict_get (fm_finishers m1) sid = Some place'" "place_rank place' < place_rank place"
    obtain n m' where n: "n \<le> place_rank place'" "run_finisher w now sid n m1 = Some m'" "sound_manager limit m'"
      "\<exists>s. session_of m' sid = Some s \<and> ss_status s = ''done''" "dict_get (fm_finishers m') sid = None"
      using less.hyps [OF p(2) s1 p(1)] by blast
    then show ?thesis using m1(1) p(2) by (intro exI [of _ "Suc n"]) auto
  qed
qed

section \<open>Properties\<close>

text \<open>
  C7: no more sessions run than the inventory allows, whatever requests arrive in whatever order,
  and whenever a session runs, so does the coroutine that will end it.
\<close>

theorem sessions_bounded:
  assumes "rabbit_reachable w limit m"
  shows "int (active_sessions m) \<le> max 0 limit
     \<and> (\<forall>sid. session_running m sid = (dict_get (fm_finishers m) sid \<noteq> None))"
proof -
  note sd = rabbit_reachable_sound [OF assms, unfolded sound_manager_def]
  have "session_running m sid = live_in (statuses m) sid" for sid
    by (auto simp: session_running_def live_in_def statuses_get split: option.split)
  then show ?thesis using soundD(2,5) [OF sd] by (simp add: active_running_count)
qed

text \<open>
  C33: a session that has ended stays as it is. None of its probes runs any more, so no later step,
  not even stopping it again, changes the hits, packets and reports that it has.
\<close>

theorem ended_session_frozen:
  assumes "rabbit_reachable w limit m" "session_of m sid = Some s" "\<not> running s"
    and "(rabbit_step w limit)\<^sup>*\<^sup>* m m'"
  shows "\<exists>s'. session_of m' sid = Some s' \<and> kept s s'
     \<and> (\<forall>k. (sid, k) \<notin> set (dict_keys (fm_probes m')))"
proof -
  have "rabbit_reachable w limit m' \<and> (\<exists>s'. session_of m' sid = Some s' \<and> kept s s')"
    using assms(4)
  proof (induction rule: rtranclp_induct)
    case base
    then show ?case using assms(1-3) kept_refl by blast
  next
    case (step m1 m2)
    then obtain s1 where s1: "session_of m1 sid = Some s1" "kept s s1" "rabbit_reachable w limit m1" by blast
    then obtain s2 where "session_of m2 sid = Some s2" "kept s1 s2"
      using ended_step [OF step.hyps(2) rabbit_reachable_sound [OF s1(3)] s1(1)] by (auto simp: kept_def)
    then show ?case using s1 rabbit_reachable.step [OF s1(3) step.hyps(2)] by (auto simp: kept_def)
  qed
  then obtain s' where s': "rabbit_reachable w limit m'" "session_of m' sid = Some s'" "kept s s'" by blast
  have "(sid, k) \<notin> set (dict_keys (fm_probes m'))" for k
    using live_session [OF rabbit_reachable_sound [OF s'(1)], of sid] s'(2,3) by (auto simp: kept_def)
  then show ?thesis using s' by blast
qed

text \<open>
  C32: a session reports a hit for a link and a direction exactly when it has a packet of that link
  and direction, and reports it once.
\<close>

theorem hits_are_packets:
  assumes "rabbit_reachable w limit m" "session_of m sid = Some s"
  shows "distinct (dict_keys (ss_hits s))
     \<and> set (map (\<lambda>h. (ht_direction h) @ '':'' @ cp_link_id (ht_point h)) (dict_values (ss_hits s)))
         = set (map (\<lambda>ob. po_direction ob @ '':'' @ po_link_id ob) (ss_packets s))"
proof -
  have ok: "hits_ok s" using rabbit_reachable_hits [OF assms(1)] assms(2) by (simp add: hits_invariant_def)
  then have "map (\<lambda>h. (ht_direction h) @ '':'' @ cp_link_id (ht_point h)) (dict_values (ss_hits s)) = dict_keys (ss_hits s)"
    by (auto simp: hits_ok_def hit_key_def)
  then show ?thesis using ok by (simp add: hits_ok_def)
qed

text \<open>
  C34: every session that runs can end by itself. Five stretches of its finisher, each after the time
  it may wait, close it, whatever its probes do or fail to do, and no probe is left.
\<close>

theorem session_ends:
  assumes "rabbit_reachable w limit m" "session_running m sid"
  shows "\<exists>n \<le> 5. \<exists>m'. run_finisher w now sid n m = Some m'
     \<and> (\<exists>s. session_of m' sid = Some s \<and> ss_status s = ''done'')
     \<and> dict_get (fm_tasks m') sid = None \<and> (\<forall>k. (sid, k) \<notin> set (dict_keys (fm_probes m')))"
proof -
  note sm = rabbit_reachable_sound [OF assms(1)]
  have live: "live_in (statuses m) sid" using assms(2) by (auto simp: session_running_def live_in_def statuses_get split: option.splits)
  then obtain place where place: "dict_get (fm_finishers m) sid = Some place"
    using soundD(5) [OF sm [unfolded sound_manager_def], of sid] by auto
  have rank: "place_rank place \<le> 5" by (cases place) auto
  obtain n m' where n: "n \<le> place_rank place" "run_finisher w now sid n m = Some m'" "sound_manager limit m'"
    "\<exists>s. session_of m' sid = Some s \<and> ss_status s = ''done''" "dict_get (fm_finishers m') sid = None"
    using finisher_runs [OF sm place] by blast
  note sd = n(3) [unfolded sound_manager_def]
  have t: "dict_get (fm_tasks m') sid = None" using soundD(4,5) [OF sd, of sid] n(5) by blast
  then have "(sid, k) \<notin> set (dict_keys (fm_probes m'))" for k using soundD(3) [OF sd, of sid k] by auto
  then show ?thesis using n t rank by (meson le_trans)
qed

text \<open>Stopping a session that has ended by itself rewrites how and when it ended.\<close>

lemma stop_rewrites_end:
  assumes "session_of m sid = Some s" "ss_status s = ''done''" "dict_get (fm_tasks m) sid = None"
  shows "\<exists>m' s'. begin_stop w now sid notify m = Inr m' \<and> session_of m' sid = Some s'
     \<and> ss_status s' = ''stopped'' \<and> ss_completed s' = now"
  using assms by (simp add: begin_stop_def Let_def close_stop_session upd_key_get reconstruct_session_def split: option.split sum.split)

section \<open>Witnesses\<close>

definition demo_filter :: flow_filter where
  "demo_filter = \<lparr>ff_src_ip = ''10.0.0.1'', ff_dst_ip = ''10.0.0.2'', ff_protocol = ''tcp'', ff_src_port = 0, ff_dst_port = 80\<rparr>"

definition demo_request :: start_request where
  "demo_request =
     \<lparr>rq_config = load_hosts_config plain_site (\<lambda>_. Document small_inventory) None, rq_topology = Inr (''demo'', {''r1''}),
      rq_state = (\<lambda>_. Some demo_state), rq_source = ''r1'', rq_flow = demo_filter, rq_timeout = 60\<rparr>"

definition demo_world :: rabbit_world where
  "demo_world = \<lparr>rw_iter = sorted_list_of_set, rw_float = (\<lambda>_. VNone)\<rparr>"

lemma demo_filters:
  "build_bpf demo_filter ''forward'' = Inr ''src host 10.0.0.1 and dst host 10.0.0.2 and tcp and dst port 80''"
  "build_bpf demo_filter ''return'' = Inr ''src host 10.0.0.2 and dst host 10.0.0.1 and tcp and src port 80''"
  by code_simp+

lemma open_session_running:
  "session_running (open_session w now sid lab conf state rq fb rb m) sid"
  by (simp add: open_session_def Let_def session_running_def new_session_def emit_def split: option.split)

lemma demo_started:
  "\<exists>m. rabbit_reachable demo_world 1 m \<and> session_running m ''s1''"
proof -
  obtain c where c: "load_hosts_config plain_site (\<lambda>_. Document small_inventory) None = Inr c" "hc_max_sessions c = 1"
    using small_inventory_accepted by blast
  have "start_session demo_world 1 ''s1'' demo_request new_manager = Inr
      (open_session demo_world 1 ''s1'' ''demo'' c demo_state demo_request
        ''src host 10.0.0.1 and dst host 10.0.0.2 and tcp and dst port 80''
        ''src host 10.0.0.2 and dst host 10.0.0.1 and tcp and src port 80'' new_manager)" (is "_ = Inr ?m")
    using c by (simp add: start_session_def demo_request_def demo_filters active_sessions_def new_manager_def)
  then have "rabbit_step demo_world 1 new_manager ?m"
    using c by (intro rabbit_step.start) (auto simp: demo_request_def new_manager_def)
  then show ?thesis using rabbit_reachable.step [OF rabbit_reachable.init] open_session_running by blast
qed

lemma demo_stopped:
  "\<exists>m s. rabbit_reachable demo_world 1 m \<and> session_of m ''s1'' = Some s \<and> ss_status s = ''stopped''"
proof -
  obtain m where m: "rabbit_reachable demo_world 1 m" "session_running m ''s1''" using demo_started by blast
  then obtain s where s: "session_of m ''s1'' = Some s" by (auto simp: session_running_def split: option.splits)
  obtain m' where m': "begin_stop demo_world 2 ''s1'' True m = Inr m'"
    using s by (cases "dict_get (fm_tasks m) ''s1''") (auto simp: begin_stop_def Let_def)
  then have "\<exists>s'. session_of m' ''s1'' = Some s' \<and> ss_status s' = ''stopped''"
    using s by (auto simp: begin_stop_def Let_def close_stop_session upd_key_get split: option.splits)
  then show ?thesis using rabbit_reachable.step [OF m(1) rabbit_step.begin_stop [OF m']] by blast
qed

theorem sessions_bounded_witness:
  "\<exists>m. session_running m ''s1'' \<and> int (active_sessions m) \<le> 1 \<and> dict_get (fm_finishers m) ''s1'' \<noteq> None"
proof -
  obtain m where m: "rabbit_reachable demo_world 1 m" "session_running m ''s1''" using demo_started by blast
  then show ?thesis using sessions_bounded [OF m(1)] by auto
qed

theorem ended_session_frozen_witness:
  "\<exists>m s s'. session_of m ''s1'' = Some s \<and> ss_status s = ''stopped''
     \<and> session_of (snd (list_sessions demo_world 3 None m)) ''s1'' = Some s' \<and> kept s s'"
proof -
  obtain m s where m: "rabbit_reachable demo_world 1 m" "session_of m ''s1'' = Some s" "ss_status s = ''stopped''"
    using demo_stopped by blast
  then have "\<not> running s" by simp
  moreover have "(rabbit_step demo_world 1)\<^sup>*\<^sup>* m (snd (list_sessions demo_world 3 None m))"
    by (intro r_into_rtranclp rabbit_step.listing)
  ultimately show ?thesis using ended_session_frozen [OF m(1,2)] m(2,3) by blast
qed

theorem hits_are_packets_witness:
  "\<exists>m s. session_of m ''s1'' = Some s \<and> distinct (dict_keys (ss_hits s))"
proof -
  obtain m s where m: "rabbit_reachable demo_world 1 m" "session_of m ''s1'' = Some s"
    using demo_stopped by blast
  then show ?thesis using hits_are_packets [OF m] by blast
qed

theorem session_ends_witness:
  "\<exists>m m' n. session_running m ''s1'' \<and> n \<le> 5 \<and> run_finisher demo_world 61 ''s1'' n m = Some m'
     \<and> dict_get (fm_tasks m') ''s1'' = None"
proof -
  obtain m where m: "rabbit_reachable demo_world 1 m" "session_running m ''s1''" using demo_started by blast
  then show ?thesis using session_ends [OF m] by blast
qed

end
