(* ===== verification/Spec2Isabelle.thy ===== *)
theory Spec2Isabelle
  imports PlanLab NetSetup Generator CleanupDaemon RabbitSessions
begin

text \<open>
  A verification of dNLab's orchestration core, the Python package \<open>dnlab_multinode\<close> under
  \<open>src/src/multinode/\<close>. Paths below are relative to that package.

  \<^bold>\<open>The program.\<close> dNLab runs labs of virtual network devices on several hosts. A deployment reads a
  topology, reads how much CPU and memory each device needs and each host has, and computes a
  schedule: a host for every device, and for every link whether it stays on a host, crosses
  hosts in a VXLAN tunnel, or leads to a real network. It then gives every device a management
  address and the host ports of its web interfaces, sets up the management network on every host,
  starts the devices, and joins their interfaces by runtime links. What was deployed is
  kept in a state file, from which later commands start. Beside the controllers there is a
  daemon that removes stale artifacts of labs, and a tool that reconstructs the path of a flow from
  packet captures.

  \<^bold>\<open>Theories, and the code they model.\<close>
  \<^item> \<open>Prelude\<close>: insertion-ordered dictionaries, strings, decimal numbers, results that may carry an
    error, and the interfaces between components as locales: a supply of fresh names, an
    allocator over a finite pool, a machine that keeps an invariant, a stream parser.
  \<^item> \<open>Digests\<close>: SHA-1 and CRC-32, which the names are derived from (standard library).
  \<^item> \<open>Naming\<close>: \<open>utils/naming.py\<close>, \<open>utils/ids.py\<close>.
  \<^item> \<open>Topology\<close>: the records of \<open>models/topology.py\<close> and \<open>models/schedule.py\<close>.
  \<^item> \<open>Scheduler\<close>: \<open>services/scheduler.py\<close>.
  \<^item> \<open>Values\<close>, \<open>IpAddr\<close>: operations of Python on untyped values, and \<open>ipaddress\<close> for both versions.
  \<^item> \<open>HostsConfig\<close>: \<open>services/hosts_config.py\<close> and \<open>services/images.py\<close>, the host inventory.
  \<^item> \<open>TopologyConfig\<close>: \<open>parse_topology\<close> of \<open>services/config.py\<close>, from the parsed document to the topology.
  \<^item> \<open>Resources\<close>: \<open>services/resources.py\<close>, what the devices need.
  \<^item> \<open>Persistence\<close>: \<open>services/persistence.py\<close>, the overlays of devices that keep their disks.
  \<^item> \<open>PlanLab\<close>: \<open>controllers/plan.py\<close>, which composes the former.
  \<^item> \<open>Ipv4\<close>: the part of \<open>ipaddress\<close> that is used, and the address arithmetic of \<open>services/config.py\<close>.
  \<^item> \<open>MgmtIps\<close>: the management subnet of \<open>services/config.py\<close> and \<open>services/mgmt_ips.py\<close>.
  \<^item> \<open>State\<close>: \<open>models/state.py\<close>, the state file and the upgrade of old ones.
  \<^item> \<open>WebUIPorts\<close>: \<open>services/webui_ports.py\<close> and its callers in the deploy and node controllers.
  \<^item> \<open>Remote\<close>: \<open>services/ssh.py\<close>. An operation on hosts is a function of the trace of the commands
    issued so far; what the commands answer is a parameter, the environment.
  \<^item> \<open>NetSetup\<close>: \<open>services/netsetup.py\<close>, \<open>services/vxlan.py\<close>.
  \<^item> \<open>WarmLinks\<close>, \<open>RuntimeLinks\<close>: \<open>services/warm_links.py\<close>, \<open>services/runtime_links.py\<close>.
  \<^item> \<open>Generator\<close>: \<open>services/generator.py\<close>, the containerlab documents and the files of single devices.
  \<^item> \<open>Pcap\<close>: \<open>services/pcap_parse.py\<close>.
  \<^item> \<open>FlowReconstruct\<close>: \<open>services/flow_reconstruct.py\<close>.
  \<^item> \<open>FollowRabbit\<close>, \<open>RabbitSessions\<close>: \<open>services/follow_rabbit.py\<close>; the former has the filters, the capture
    points and the result, the latter the manager whose coroutines interleave.
  \<^item> \<open>LabCleanup\<close>, \<open>CleanupDaemon\<close>: \<open>services/lab_cleanup.py\<close>.

  \<^bold>\<open>How code is rendered.\<close> Data classes are records, with the field names prefixed by the record;
  dictionaries are association lists in insertion order, since Python iterates them that way; an
  exception is the left side of a sum and every \<open>raise\<close> is a branch; strings are lists of ASCII
  characters; integers are unbounded as in Python, and the bytes of captures are numbers below 256.
  An object that a function changes in place is returned. Log messages are left out.
  Loops are structural recursion, or \<open>function\<close>s with a termination proof; the two loops with a number
  of turns are \<open>skip_used\<close>, which gets one turn per used name, and \<open>linkctl_loop\<close>, which
  gets one per retry interval of the time to wait and two more; \<open>next_free_free\<close> and \<open>linkctl_ends\<close>
  show that they never end for lack of turns.

  \<^bold>\<open>What is shown.\<close> Planning, from end to end: a plan that is returned places every node of the file on
  exactly one host within its capacity, with an address of its own, and joins placed nodes. Input:
  an accepted inventory and an accepted topology are well formed; the resource cache is transparent.
  Scheduling: a schedule is a placement within the capacity of every host and splits
  the links exactly; when resources are reported as insufficient there is no placement. Addresses: an
  assignment is injective, avoids reserved addresses and survives redeployment, and the reserved
  addresses are the first and the last three hosts of a subnet. Ports:
  allocations are distinct and free. State: writing and reading is the identity up to the upgrade.
  Overlays: none is removed before it was copied and the lab was asked to be offline; the placement
  history reads back, for a device, the host of the last persistent device saved under its storage key.
  Links: identities survive a change of the topology; commands are confined to the hosts of a link and
  safe to quote; waiting ends; what a failed same-host link leaves behind is known exactly. Files: the
  generated documents provide the interfaces that the runtime links join (but for the target end of a
  link of a device with itself), all warm ports, and nothing outside a device's directory. Cleanup:
  artifacts are removed only of labs without young artifacts and, for a lab with a state file, only
  while none of its devices is seen running and its hosts answer; a request to the daemon is never lost. Captures: the incremental parser agrees with the batch
  parser. Flows: a flow along a line is recovered exactly. Capture sessions, in every
  interleaving of their coroutines: no more run than allowed, each ends, an ended one does not change,
  and the hits are those of the packets. The theorems of kind error and some
  others show where the code does not do what it means to; they are listed as findings.

  \<^bold>\<open>Interfaces.\<close> The locale \<open>pool_allocator\<close> is interpreted for management subnets and web ports,
  \<open>stream_parser\<close> for the capture parser, \<open>fresh_supply\<close> for link identifiers and VXLAN ids, and
  \<open>keeps_invariant\<close> for the placement of devices.

  \<^bold>\<open>Not modelled.\<close> The web interface (\<open>src/src/gui\<close>), the HTTP interface \<open>api.py\<close> and the command
  line, image building and synchronisation, how YAML prints a document, the jump host
  and DNS containers, and the control flow of the deploy, destroy, node and status controllers beyond
  the steps named above: they are sequences of calls to docker, containerlab and the file system
  around the operations modelled here, or plain input and output.
\<close>

end
